(* ===== verification/C_Prelude.thy ===== *)
theory C_Prelude
  imports Main "HOL-Library.Word" "HOL-Library.Monad_Syntax"
begin

text \<open>
  What all components share: machine types, the conventions for pointers and C strings, the
  conversions between C integer types that the code performs implicitly, and the generic facts on
  lists and words that the component proofs use.

  Conventions of the whole development:
  \<^item> a byte is an \<open>8 word\<close>, a \<open>uint32_t\<close> a \<open>32 word\<close>, a \<open>uint64_t\<close> a \<open>64 word\<close>;
  \<^item> a pointer is a natural number and \<open>NULL\<close> is 0 (module Memory says what is behind it);
  \<^item> a function of the code that can run into undefined behaviour (a read through a dangling or
    null pointer, an index out of range, a double free) or that may never return has a result of
    type \<open>option\<close>: \<open>Some r\<close> is a defined return with \<open>r\<close>, \<open>None\<close> is none. A theorem that says
    \<open>= Some r\<close> therefore says both that the call returns and that nothing undefined happened.
\<close>

unbundle bit_operations_syntax

type_synonym byte = "8 word"
type_synonym bytes = "byte list"
type_synonym u32 = "32 word"
type_synonym u64 = "64 word"
type_synonym ptr = nat

definition NULL :: ptr where
  "NULL = 0"

named_theorems io4e_simps \<open>characteristic equations of the model's small operations\<close>


section \<open>C integer conversions\<close>

text \<open>
  Conversion of a value to \<open>int\<close> (32 bits, two's complement, as on every platform the code
  supports) and of an \<open>int\<close> to \<open>size_t\<close>; both are implicit in the C code.
\<close>

definition to_int :: "int \<Rightarrow> int" where
  "to_int n = (n + 2 ^ 31) mod 2 ^ 32 - 2 ^ 31"

definition int_to_size :: "int \<Rightarrow> nat" where
  "int_to_size i = nat (i mod 2 ^ 64)"

lemma to_int_id: "- (2 ^ 31) \<le> n \<Longrightarrow> n < 2 ^ 31 \<Longrightarrow> to_int n = n"
  by (simp add: to_int_def)

lemma to_int_range: "- (2 ^ 31) \<le> to_int n \<and> to_int n < 2 ^ 31"
  unfolding to_int_def using pos_mod_bound [of "2 ^ 32" "n + 2 ^ 31"] by auto

lemma int_to_size_nat: "n < 2 ^ 64 \<Longrightarrow> int_to_size (int n) = n"
  by (simp add: int_to_size_def)


text \<open>Signed addition: overflow is undefined.\<close>

definition int_add :: "int \<Rightarrow> int \<Rightarrow> int option" where
  "int_add a b = (if - (2 ^ 31) \<le> a + b \<and> a + b < 2 ^ 31 then Some (a + b) else None)"


section \<open>Arrays\<close>

text \<open>Access by an \<open>int\<close> index; outside the array it is undefined.\<close>

definition array_get :: "'a list \<Rightarrow> int \<Rightarrow> 'a option" where
  "array_get a i = (if 0 \<le> i \<and> nat i < length a then Some (a ! nat i) else None)"

definition array_put :: "'a list \<Rightarrow> int \<Rightarrow> 'a \<Rightarrow> 'a list option" where
  "array_put a i x = (if 0 \<le> i \<and> nat i < length a then Some (a[nat i := x]) else None)"

lemma array_get_nat [simp]: "n < length a \<Longrightarrow> array_get a (int n) = Some (a ! n)"
  by (simp add: array_get_def)

lemma array_put_nat [simp]: "n < length a \<Longrightarrow> array_put a (int n) x = Some (a[n := x])"
  by (simp add: array_put_def)

text \<open>Positions of a ring of size \<open>c\<close>.\<close>

lemma ring_neq:
  assumes "k < n" "n < (c :: nat)"
  shows "(r + k) mod c \<noteq> (r + n) mod c"
proof
  assume eq: "(r + k) mod c = (r + n) mod c"
  have "c dvd (r + n) - (r + k)"
    using eq assms(1) by (metis mod_eq_dvd_iff_nat add_le_cancel_left less_imp_le)
  with assms show False by (auto dest: dvd_imp_le)
qed

lemma ring_next: "((r + n) mod c + 1) mod c = (r + Suc n) mod (c :: nat)"
  by (simp add: mod_Suc_eq)

lemma ring_shift: "((r + 1) mod c + k) mod c = (r + Suc k) mod (c :: nat)"
  by (simp add: mod_add_left_eq)


section \<open>C strings\<close>

text \<open>A \<open>char\<close> array read as a string ends before its first zero byte.\<close>

definition c_str :: "bytes \<Rightarrow> bytes" where
  "c_str bs = takeWhile (\<lambda>b. b \<noteq> 0) bs"

text \<open>\<open>strcmp(a, b) == 0\<close>\<close>

definition strcmp_eq :: "bytes \<Rightarrow> bytes \<Rightarrow> bool" where
  "strcmp_eq a b \<longleftrightarrow> c_str a = c_str b"

lemma c_str_simps [simp]:
  "c_str [] = []"
  "c_str (b # bs) = (if b = 0 then [] else b # c_str bs)"
  by (simp_all add: c_str_def)

lemma c_str_idem [simp]: "c_str (c_str a) = c_str a"
  by (induction a) auto

lemma strcmp_eq_refl [simp]: "strcmp_eq a a"
  by (simp add: strcmp_eq_def)

lemma strcmp_eq_sym: "strcmp_eq a b \<longleftrightarrow> strcmp_eq b a"
  by (auto simp: strcmp_eq_def)


section \<open>Generic facts\<close>

lemma take_take_drop: "take k xs @ take n (drop k xs) = take (k + n) xs"
  by (simp add: take_add)

lemma filter_update_count:
  assumes "i < length xs"
  shows "length (filter P (xs[i := x])) + (if P (xs ! i) then 1 else 0)
       = length (filter P xs) + (if P x then 1 else 0)"
  using assms
proof (induction xs arbitrary: i)
  case Nil
  then show ?case by simp
next
  case (Cons a xs)
  show ?case
  proof (cases i)
    case 0
    then show ?thesis by simp
  next
    case (Suc j)
    with Cons.IH [of j] Cons.prems show ?thesis by simp
  qed
qed


section \<open>Counting threads\<close>

text \<open>The number of threads whose program counter has a property.\<close>

definition cnt :: "('pc \<Rightarrow> bool) \<Rightarrow> 'pc list \<Rightarrow> nat" where
  "cnt P ts = length (filter P ts)"

lemma cnt_update:
  assumes "i < length ts"
  shows "cnt P (ts[i := pc]) + (if P (ts ! i) then 1 else 0) = cnt P ts + (if P pc then 1 else 0)"
  using filter_update_count [OF assms, of P pc] by (simp add: cnt_def)

lemma cnt_pos: "i < length ts \<Longrightarrow> P (ts ! i) \<Longrightarrow> 0 < cnt P ts"
  by (auto simp: cnt_def filter_empty_conv)

lemma cnt_mono: "(\<And>x. P x \<Longrightarrow> Q x) \<Longrightarrow> cnt P ts \<le> cnt Q ts"
  by (induction ts) (auto simp: cnt_def)

lemma cnt_disjoint:
  "(\<And>x. P x \<Longrightarrow> R x) \<Longrightarrow> (\<And>x. Q x \<Longrightarrow> R x) \<Longrightarrow> (\<And>x. \<not> (P x \<and> Q x)) \<Longrightarrow>
     cnt P ts + cnt Q ts \<le> cnt R ts"
  by (induction ts) (auto simp: cnt_def)

lemma cnt_replicate_0: "\<not> P x \<Longrightarrow> cnt P (replicate n x) = 0"
  by (simp add: cnt_def)

end
