(* ===== verification/Io4e_Err.thy ===== *)
theory Io4e_Err
  imports C_Prelude
begin

text \<open>
  The return codes of the library (\<open>io4edge_client.h\<close>). \<open>io4e_err_t\<close> is a plain C \<open>int\<close>: the
  transport also returns raw \<open>errno\<close> values through it, so the model keeps it an integer and the
  codes are the numbers the header defines.
\<close>

type_synonym io4e_err_t = int

definition IO4E_OK :: io4e_err_t where "IO4E_OK = 0"
definition IO4E_FAIL :: io4e_err_t where "IO4E_FAIL = -1"
definition IO4E_ERR_TIMEOUT :: io4e_err_t where "IO4E_ERR_TIMEOUT = 1"
definition IO4E_ERR_NO_MEM :: io4e_err_t where "IO4E_ERR_NO_MEM = 2"
definition IO4E_ERR_PROTOBUF :: io4e_err_t where "IO4E_ERR_PROTOBUF = 3"
definition IO4E_ERR_CONNECTION_CLOSED :: io4e_err_t where "IO4E_ERR_CONNECTION_CLOSED = 4"
definition IO4E_ERR_FB_UNSPECIFIC_ERROR :: io4e_err_t where "IO4E_ERR_FB_UNSPECIFIC_ERROR = 10"
definition IO4E_ERR_FB_UNKNOWN_COMMAND :: io4e_err_t where "IO4E_ERR_FB_UNKNOWN_COMMAND = 11"
definition IO4E_ERR_FB_NOT_IMPLEMENTED :: io4e_err_t where "IO4E_ERR_FB_NOT_IMPLEMENTED = 12"
definition IO4E_ERR_FB_WRONG_CLIENT :: io4e_err_t where "IO4E_ERR_FB_WRONG_CLIENT = 13"
definition IO4E_ERR_FB_INVALID_PARAMETER :: io4e_err_t where "IO4E_ERR_FB_INVALID_PARAMETER = 14"
definition IO4E_ERR_FB_HW_FAULT :: io4e_err_t where "IO4E_ERR_FB_HW_FAULT = 15"
definition IO4E_ERR_FB_STREAM_ALREADY_STARTED :: io4e_err_t where
  "IO4E_ERR_FB_STREAM_ALREADY_STARTED = 16"
definition IO4E_ERR_FB_STREAM_ALREADY_STOPPED :: io4e_err_t where
  "IO4E_ERR_FB_STREAM_ALREADY_STOPPED = 17"
definition IO4E_ERR_FB_STREAM_START_FAILED :: io4e_err_t where
  "IO4E_ERR_FB_STREAM_START_FAILED = 18"
definition IO4E_ERR_FB_TEMPORARILY_UNAVAILABLE :: io4e_err_t where
  "IO4E_ERR_FB_TEMPORARILY_UNAVAILABLE = 19"
definition IO4E_ERR_FB_UNKNOWN :: io4e_err_t where "IO4E_ERR_FB_UNKNOWN = 99"

lemmas err_defs [io4e_simps] =
  IO4E_OK_def IO4E_FAIL_def IO4E_ERR_TIMEOUT_def IO4E_ERR_NO_MEM_def IO4E_ERR_PROTOBUF_def
  IO4E_ERR_CONNECTION_CLOSED_def

lemmas fb_err_defs [io4e_simps] =
  IO4E_ERR_FB_UNSPECIFIC_ERROR_def IO4E_ERR_FB_UNKNOWN_COMMAND_def
  IO4E_ERR_FB_NOT_IMPLEMENTED_def IO4E_ERR_FB_WRONG_CLIENT_def
  IO4E_ERR_FB_INVALID_PARAMETER_def IO4E_ERR_FB_HW_FAULT_def
  IO4E_ERR_FB_STREAM_ALREADY_STARTED_def IO4E_ERR_FB_STREAM_ALREADY_STOPPED_def
  IO4E_ERR_FB_STREAM_START_FAILED_def IO4E_ERR_FB_TEMPORARILY_UNAVAILABLE_def
  IO4E_ERR_FB_UNKNOWN_def

end
