(* ===== verification/Messages.thy ===== *)
theory Messages
  imports C_Prelude
begin

text \<open>
  The functionblock messages, with the fields the sources read or write. Their C types are
  generated from a protobuf schema that is not part of the repository, so only what the
  sources rely on is modelled:
  \<^item> a \<open>oneof\<close> (a \<open>type_case\<close> or \<open>action_case\<close> tag and a union) is a datatype with one constructor
    per case the sources name and an \<open>OTHER\<close> constructor for the rest of the enumeration. That the
    member a tag selects is not null is what protobuf-c guarantees for an unpacked message;
  \<^item> a message-typed field outside a \<open>oneof\<close> can be absent (a null pointer): \<open>option\<close>;
  \<^item> \<open>bytes\<close> and \<open>string\<close> fields are byte lists.
  The packing and unpacking functions are parameters of the definitions that use them.
\<close>

section \<open>Commands\<close>

text \<open>\<open>io4e_protomsg_t\<close>: a marshaled function specific message with the name of its protobuf type.\<close>

record io4e_protomsg_t =
  marshaled_msg :: bytes
  proto_name :: string

text \<open>\<open>Google__Protobuf__Any\<close>\<close>

record any_pb =
  type_url :: string
  any_value :: bytes

definition MAKE_ANYPB :: "io4e_protomsg_t \<Rightarrow> any_pb" where
  "MAKE_ANYPB fs_msg = \<lparr>type_url = proto_name fs_msg, any_value = marshaled_msg fs_msg\<rparr>"

datatype configuration_action =
    CONFIGURATION_SET any_pb
  | CONFIGURATION_GET any_pb
  | CONFIGURATION_DESCRIBE any_pb

datatype function_control_action =
    FUNCTION_CONTROL_SET any_pb
  | FUNCTION_CONTROL_GET any_pb

record stream_control_start =
  functionspecificstreamcontrolstart :: "any_pb option"
  bucketsamples :: u32
  keepaliveinterval :: u32
  bufferedsamples :: u32
  low_latency_mode :: bool

datatype stream_control_action =
    STREAM_CONTROL_START stream_control_start
  | STREAM_CONTROL_STOP

datatype command_type =
    COMMAND_CONFIGURATION configuration_action
  | COMMAND_FUNCTION_CONTROL function_control_action
  | COMMAND_STREAM_CONTROL stream_control_action

text \<open>\<open>Functionblock__Command\<close>: the context is absent until \<open>command\<close> fills it in.\<close>

record command_pb =
  cmd_ctx :: "bytes option"
  cmd_type :: command_type


section \<open>Responses\<close>

datatype fb_status =
    STATUS_OK
  | STATUS_UNSPECIFIC_ERROR
  | STATUS_UNKNOWN_COMMAND
  | STATUS_NOT_IMPLEMENTED
  | STATUS_WRONG_CLIENT
  | STATUS_INVALID_PARAMETER
  | STATUS_HW_FAULT
  | STATUS_STREAM_ALREADY_STARTED
  | STATUS_STREAM_ALREADY_STOPPED
  | STATUS_STREAM_START_FAILED
  | STATUS_TEMPORARILY_UNAVAILABLE
  | STATUS_OTHER int \<comment> \<open>any other number: the enumeration is open on the wire\<close>

datatype configuration_response_action =
    CONFIGURATION_RESPONSE_GET any_pb
  | CONFIGURATION_RESPONSE_DESCRIBE any_pb
  | CONFIGURATION_RESPONSE_OTHER

datatype function_control_response_action =
    FUNCTION_CONTROL_RESPONSE_SET any_pb
  | FUNCTION_CONTROL_RESPONSE_GET any_pb
  | FUNCTION_CONTROL_RESPONSE_OTHER

record stream_data =
  functionspecificstreamdata :: "any_pb option"
  deliverytimestampus :: u64
  sequence_no :: u32

text \<open>
  The type parameter of a response is how the stream data hang in it: the message itself on
  the wire, a pointer in memory (the reader thread detaches them from the response).
\<close>

datatype 's response_type =
    RESPONSE_CONFIGURATION configuration_response_action
  | RESPONSE_FUNCTION_CONTROL function_control_response_action
  | RESPONSE_STREAM 's
  | RESPONSE_OTHER

record 's response_pb =
  res_context :: "bytes option"
  res_status :: fb_status
  res_error :: "bytes option"
  res_type :: "'s response_type"

end
