(* ===== verification/Memory.thy ===== *)
theory Memory
  imports Messages
begin

text \<open>
  The C heap: a store from addresses to the objects the library allocates. Freed addresses are
  never handed out again, so a dangling pointer stays recognisable. \<open>m_fail\<close> scripts which of the
  coming allocations fail (\<open>malloc\<close> and \<open>calloc\<close> may return \<open>NULL\<close> at any time); once it is used
  up they succeed. Dereferencing or freeing anything but a live object is undefined (\<open>None\<close>).
\<close>

record 'o mem =
  m_store :: "ptr \<rightharpoonup> 'o"
  m_next :: nat
  m_fail :: "bool list"

definition malloc :: "'o \<Rightarrow> 'o mem \<Rightarrow> ptr \<times> 'o mem" where
  "malloc x m =
     (if m_fail m \<noteq> [] \<and> hd (m_fail m) then (NULL, m\<lparr>m_fail := tl (m_fail m)\<rparr>)
      else (m_next m, m\<lparr>m_store := (m_store m)(m_next m \<mapsto> x), m_next := Suc (m_next m),
                       m_fail := tl (m_fail m)\<rparr>))"

definition deref :: "ptr \<Rightarrow> 'o mem \<Rightarrow> 'o option" where
  "deref p m = (if p = NULL then None else m_store m p)"

definition free :: "ptr \<Rightarrow> 'o mem \<Rightarrow> 'o mem option" where
  "free p m =
     (if p = NULL then Some m
      else if m_store m p = None then None
      else Some (m\<lparr>m_store := (m_store m)(p := None)\<rparr>))"

definition mem_wf :: "'o mem \<Rightarrow> bool" where
  "mem_wf m \<longleftrightarrow> 0 < m_next m \<and> (\<forall>p x. m_store m p = Some x \<longrightarrow> 0 < p \<and> p < m_next m)"

text \<open>The addresses of the live objects.\<close>

abbreviation live :: "'o mem \<Rightarrow> ptr set" where
  "live m \<equiv> dom (m_store m)"

lemma mem_wf_fresh: "mem_wf m \<Longrightarrow> m_next m \<notin> live m"
  by (auto simp: mem_wf_def)

lemma mem_wf_fresh_None [simp]: "mem_wf m \<Longrightarrow> m_store m (m_next m) = None"
  using mem_wf_fresh by blast

lemma mem_wf_next_pos: "mem_wf m \<Longrightarrow> m_next m \<noteq> NULL"
  by (simp add: mem_wf_def NULL_def)

lemma mem_wf_live_not_NULL: "mem_wf m \<Longrightarrow> p \<in> live m \<Longrightarrow> p \<noteq> NULL"
  by (auto simp: mem_wf_def NULL_def)

lemma mem_wfD: "mem_wf m \<Longrightarrow> m_store m p = Some x \<Longrightarrow> 0 < p \<and> p < m_next m"
  by (auto simp: mem_wf_def)

lemma malloc_wf: "mem_wf m \<Longrightarrow> malloc x m = (p, m') \<Longrightarrow> mem_wf m'"
  by (auto simp: malloc_def mem_wf_def less_Suc_eq split: if_splits)

lemma malloc_cases:
  assumes "mem_wf m" "malloc x m = (p, m')"
  obtains (fail) "p = NULL" "m_store m' = m_store m" "m_next m' = m_next m"
  | (ok) "p \<noteq> NULL" "p \<notin> live m" "p = m_next m" "m_store m' = (m_store m)(p \<mapsto> x)"
         "m_next m' = Suc (m_next m)"
  using assms mem_wf_next_pos [OF assms(1)] mem_wf_fresh [OF assms(1)]
  by (auto simp: malloc_def split: if_splits)

lemma free_wf: "mem_wf m \<Longrightarrow> free p m = Some m' \<Longrightarrow> mem_wf m'"
  by (auto simp: free_def mem_wf_def split: if_splits)

lemma free_live [simp]:
  "mem_wf m \<Longrightarrow> m_store m p = Some x \<Longrightarrow> free p m = Some (m\<lparr>m_store := (m_store m)(p := None)\<rparr>)"
  by (auto simp: free_def dest: mem_wf_live_not_NULL)

lemma deref_live [simp]: "mem_wf m \<Longrightarrow> m_store m p = Some x \<Longrightarrow> deref p m = Some x"
  by (auto simp: deref_def dest: mem_wf_live_not_NULL)

lemma free_NULL [simp]: "free NULL m = Some m"
  by (simp add: free_def)

lemma free_twice: "p \<noteq> NULL \<Longrightarrow> free p m = Some m' \<Longrightarrow> free p m' = None"
  by (auto simp: free_def split: if_splits)

lemma deref_free: "p \<noteq> NULL \<Longrightarrow> free p m = Some m' \<Longrightarrow> deref p m' = None"
  by (auto simp: free_def deref_def split: if_splits)


section \<open>Private blocks\<close>

text \<open>
  The control structures of the library (handles, the queue and its array) are each reached
  through one owner only; for these it is enough to count the live blocks.
\<close>

record blocks =
  b_fail :: "bool list"
  b_live :: nat

definition calloc_block :: "blocks \<Rightarrow> bool \<times> blocks" where
  "calloc_block b =
     (if b_fail b \<noteq> [] \<and> hd (b_fail b) then (False, b\<lparr>b_fail := tl (b_fail b)\<rparr>)
      else (True, b\<lparr>b_fail := tl (b_fail b), b_live := Suc (b_live b)\<rparr>))"

definition free_block :: "blocks \<Rightarrow> blocks" where
  "free_block b = b\<lparr>b_live := b_live b - 1\<rparr>"


section \<open>The objects of the library\<close>

text \<open>
  What the library keeps on the heap: receive buffers, unpacked responses, stream data (in a
  response or detached from it) and unpacked function specific messages. \<open>'fs\<close> is the type of
  those; it belongs to the generated code. A response is one object together with its fields, its
  stream data a second one that it points to.
\<close>

type_synonym response = "ptr response_pb"

datatype 'fs obj =
    OBuf bytes
  | OResponse response
  | OStreamData stream_data
  | OFs 'fs

type_synonym 'fs heap = "'fs obj mem"

text \<open>\<open>*p\<close> for a response, a buffer and stream data; anything else there is undefined.\<close>

definition get_response :: "ptr \<Rightarrow> 'fs heap \<Rightarrow> response option" where
  "get_response p m = (case deref p m of Some (OResponse r) \<Rightarrow> Some r | _ \<Rightarrow> None)"

definition get_buf :: "ptr \<Rightarrow> 'fs heap \<Rightarrow> bytes option" where
  "get_buf p m = (case deref p m of Some (OBuf b) \<Rightarrow> Some b | _ \<Rightarrow> None)"

definition get_stream_data :: "ptr \<Rightarrow> 'fs heap \<Rightarrow> stream_data option" where
  "get_stream_data p m = (case deref p m of Some (OStreamData d) \<Rightarrow> Some d | _ \<Rightarrow> None)"

definition get_fs :: "ptr \<Rightarrow> 'fs heap \<Rightarrow> 'fs option" where
  "get_fs p m = (case deref p m of Some (OFs x) \<Rightarrow> Some x | _ \<Rightarrow> None)"

lemmas get_defs = get_response_def get_buf_def get_stream_data_def get_fs_def

end
