(* ===== verification/Streamq.thy ===== *)
theory Streamq
  imports Io4e_Err Memory
begin

text \<open>
  The stream queue (\<open>streamq.c\<close>): a ring of message pointers with two counting semaphores, one for
  the free slots and one for the messages, and a mutex. This theory has the data, every operation
  as the sequence of its statements, and the sequential properties; \<open>Streamq_Conc\<close> interleaves the
  same statements of several threads.
\<close>

section \<open>Semaphores and time\<close>

definition SEM_VALUE_MAX :: nat where
  "SEM_VALUE_MAX = 2147483647"

text \<open>
  \<open>sem_init\<close> takes an \<open>unsigned int\<close>; above the maximum it fails and leaves the (zeroed) semaphore
  as it is. \<open>sem_post\<close> fails at the maximum. The code checks neither in the queue.
\<close>

definition sem_init_value :: "nat \<Rightarrow> nat" where
  "sem_init_value v = (let u = v mod 2 ^ 32 in if u \<le> SEM_VALUE_MAX then u else 0)"

definition sem_post :: "nat \<Rightarrow> nat" where
  "sem_post v = (if v < SEM_VALUE_MAX then Suc v else v)"

text \<open>
  \<open>sem_timedwait\<close> when no other thread posts meanwhile: it takes a token at once or returns -1
  when the deadline has passed. The last component is the time of the return. A wait that the
  handler of a signal interrupts (\<open>EINTR\<close>) returns the same -1 before the deadline, and the code
  does not tell the two apart; the library installs no handlers, and the model has no signals.
\<close>

definition sem_timedwait :: "nat \<Rightarrow> int \<Rightarrow> int \<Rightarrow> int \<times> nat \<times> int" where
  "sem_timedwait v deadline now =
     (if 0 < v then (0, v - 1, now) else (-1, v, max now deadline))"

text \<open>
  \<open>get_timeout\<close>: the deadline for a timeout in seconds, computed in \<open>uint64_t\<close> and clamped to
  the largest \<open>time_t\<close> where that has 4 bytes. \<open>sz\<close> is \<open>sizeof(time_t)\<close>, \<open>now\<close> the clock.
\<close>

definition get_timeout :: "nat \<Rightarrow> int \<Rightarrow> u64 \<Rightarrow> int" where
  "get_timeout sz now timeout =
     (let until = word_of_int now + timeout;
          until' = (if sz = 4 \<and> until > 0x7FFFFFFF then 0x7FFFFFFF else until)
      in sint until')"


section \<open>The queue\<close>

record streamq_t =
  q_msg :: "ptr list"
  q_capacity :: nat
  q_write_idx :: int
  q_read_idx :: int
  q_nentries :: int
  q_write_sem :: nat
  q_read_sem :: nat
  q_locked :: bool

text \<open>\<open>io4e_streamq_new\<close>; \<open>calloc\<close> also refuses an array whose size overflows.\<close>

definition io4e_streamq_new :: "nat \<Rightarrow> blocks \<Rightarrow> io4e_err_t \<times> streamq_t option \<times> blocks" where
  "io4e_streamq_new capacity b =
     (case calloc_block b of (ok, b1) \<Rightarrow>
      if \<not> ok then (IO4E_ERR_NO_MEM, None, b1)
      else case (if capacity * 8 < 2 ^ 64 then calloc_block b1 else (False, b1)) of (ok, b2) \<Rightarrow>
      if \<not> ok then (IO4E_ERR_NO_MEM, None, free_block b2)
      else (IO4E_OK,
            Some \<lparr>q_msg = replicate capacity NULL, q_capacity = capacity, q_write_idx = 0,
                  q_read_idx = 0, q_nentries = 0, q_write_sem = sem_init_value capacity,
                  q_read_sem = sem_init_value 0, q_locked = False\<rparr>, b2))"

text \<open>\<open>io4e_streamq_delete\<close> frees the array and the queue, not the messages still in it.\<close>

definition io4e_streamq_delete :: "streamq_t option \<Rightarrow> blocks \<Rightarrow> streamq_t option \<times> blocks" where
  "io4e_streamq_delete q b =
     (case q of None \<Rightarrow> (None, b) | Some _ \<Rightarrow> (None, free_block (free_block b)))"

text \<open>\<open>advance_idx\<close>: the index arrives as \<open>size_t\<close>; the result is stored in an \<open>int\<close>.\<close>

definition advance_idx :: "streamq_t \<Rightarrow> int \<Rightarrow> int option" where
  "advance_idx q idx =
     (if q_capacity q = 0 then None
      else Some (to_int (int (((int_to_size idx + 1) mod 2 ^ 64) mod q_capacity q))))"

text \<open>The statements between lock and unlock in \<open>io4e_streamq_push\<close> and \<open>io4e_streamq_pop\<close>.\<close>

definition push_store :: "ptr \<Rightarrow> streamq_t \<Rightarrow> streamq_t option" where
  "push_store msg q = do {
     a \<leftarrow> array_put (q_msg q) (q_write_idx q) msg;
     Some (q\<lparr>q_msg := a\<rparr>) }"

definition push_advance :: "streamq_t \<Rightarrow> streamq_t option" where
  "push_advance q = do {
     i \<leftarrow> advance_idx q (q_write_idx q);
     Some (q\<lparr>q_write_idx := i\<rparr>) }"

definition push_count :: "streamq_t \<Rightarrow> streamq_t option" where
  "push_count q = do {
     n \<leftarrow> int_add (q_nentries q) 1;
     Some (q\<lparr>q_nentries := n\<rparr>) }"

definition pop_load :: "streamq_t \<Rightarrow> ptr option" where
  "pop_load q = array_get (q_msg q) (q_read_idx q)"

definition pop_advance :: "streamq_t \<Rightarrow> streamq_t option" where
  "pop_advance q = do {
     i \<leftarrow> advance_idx q (q_read_idx q);
     Some (q\<lparr>q_read_idx := i\<rparr>) }"

definition pop_count :: "streamq_t \<Rightarrow> streamq_t option" where
  "pop_count q = do {
     n \<leftarrow> int_add (q_nentries q) (-1);
     Some (q\<lparr>q_nentries := n\<rparr>) }"

text \<open>
  \<open>pthread_mutex_lock\<close> on a mutex that no other thread will release never returns.
\<close>

definition q_lock :: "streamq_t \<Rightarrow> streamq_t option" where
  "q_lock q = (if q_locked q then None else Some (q\<lparr>q_locked := True\<rparr>))"

definition q_unlock :: "streamq_t \<Rightarrow> streamq_t" where
  "q_unlock q = q\<lparr>q_locked := False\<rparr>"

definition io4e_streamq_push ::
  "nat \<Rightarrow> int \<Rightarrow> streamq_t \<Rightarrow> ptr \<Rightarrow> u64 \<Rightarrow> (io4e_err_t \<times> streamq_t \<times> int) option" where
  "io4e_streamq_push sz now q msg timeout =
     (let ts = get_timeout sz now timeout in
      case sem_timedwait (q_write_sem q) ts now of (ret, v, now1) \<Rightarrow>
      let q = q\<lparr>q_write_sem := v\<rparr> in
      if ret = -1 then Some (IO4E_ERR_TIMEOUT, q, now1)
      else do {
        q \<leftarrow> q_lock q;
        q \<leftarrow> push_store msg q;
        q \<leftarrow> push_advance q;
        q \<leftarrow> push_count q;
        let q = q_unlock q;
        Some (IO4E_OK, q\<lparr>q_read_sem := sem_post (q_read_sem q)\<rparr>, now1) })"

text \<open>The popped message is \<open>None\<close> where \<open>*msg_p\<close> is not written.\<close>

definition io4e_streamq_pop ::
  "nat \<Rightarrow> int \<Rightarrow> streamq_t \<Rightarrow> u64 \<Rightarrow> (io4e_err_t \<times> ptr option \<times> streamq_t \<times> int) option" where
  "io4e_streamq_pop sz now q timeout =
     (let ts = get_timeout sz now timeout in
      case sem_timedwait (q_read_sem q) ts now of (ret, v, now1) \<Rightarrow>
      let q = q\<lparr>q_read_sem := v\<rparr> in
      if ret = -1 then Some (IO4E_ERR_TIMEOUT, None, q, now1)
      else do {
        q \<leftarrow> q_lock q;
        msg \<leftarrow> pop_load q;
        q \<leftarrow> pop_advance q;
        q \<leftarrow> pop_count q;
        let q = q_unlock q;
        Some (IO4E_OK, Some msg, q\<lparr>q_write_sem := sem_post (q_write_sem q)\<rparr>, now1) })"

definition io4e_streamq_entries :: "streamq_t \<Rightarrow> (nat \<times> streamq_t) option" where
  "io4e_streamq_entries q = do {
     q \<leftarrow> q_lock q;
     let size = int_to_size (q_nentries q);
     Some (size, q_unlock q) }"


section \<open>Invariant and abstraction\<close>

text \<open>
  Between operations: indices inside the array, the write index \<open>n\<close> places after the read index,
  the semaphores holding \<open>n\<close> and \<open>capacity - n\<close>, the mutex free.
\<close>

definition sq_inv :: "streamq_t \<Rightarrow> bool" where
  "sq_inv q \<longleftrightarrow>
     0 < q_capacity q \<and> q_capacity q \<le> SEM_VALUE_MAX \<and> length (q_msg q) = q_capacity q \<and>
     0 \<le> q_read_idx q \<and> q_read_idx q < int (q_capacity q) \<and>
     0 \<le> q_nentries q \<and> q_nentries q \<le> int (q_capacity q) \<and>
     q_write_idx q = (q_read_idx q + q_nentries q) mod int (q_capacity q) \<and>
     int (q_read_sem q) = q_nentries q \<and>
     int (q_write_sem q) = int (q_capacity q) - q_nentries q \<and> \<not> q_locked q"

text \<open>The messages in the queue, oldest first.\<close>

definition sq_list :: "streamq_t \<Rightarrow> ptr list" where
  "sq_list q =
     map (\<lambda>k. q_msg q ! ((nat (q_read_idx q) + k) mod q_capacity q)) [0..<nat (q_nentries q)]"

text \<open>The invariant with the two numbers it speaks about.\<close>

lemma sq_invE:
  assumes "sq_inv q"
  obtains r n where "q_read_idx q = int r" "r < q_capacity q" "q_nentries q = int n"
    "n \<le> q_capacity q" "q_write_idx q = int ((r + n) mod q_capacity q)" "q_read_sem q = n"
    "q_write_sem q = q_capacity q - n" "0 < q_capacity q" "q_capacity q \<le> SEM_VALUE_MAX"
    "length (q_msg q) = q_capacity q" "\<not> q_locked q"
proof -
  from assms have "q_write_idx q = int ((nat (q_read_idx q) + nat (q_nentries q)) mod q_capacity q)"
    by (simp add: sq_inv_def zmod_int)
  with assms that [of "nat (q_read_idx q)" "nat (q_nentries q)"] show ?thesis
    by (auto simp: sq_inv_def)
qed

lemma sq_invI:
  assumes "q_read_idx q = int r" "r < q_capacity q" "q_nentries q = int n"
    "n \<le> q_capacity q" "q_write_idx q = int ((r + n) mod q_capacity q)" "q_read_sem q = n"
    "q_write_sem q = q_capacity q - n" "q_capacity q \<le> SEM_VALUE_MAX"
    "length (q_msg q) = q_capacity q" "\<not> q_locked q"
  shows "sq_inv q"
  using assms by (auto simp: sq_inv_def zmod_int)

lemma sq_list_nat:
  "q_read_idx q = int r \<Longrightarrow> q_nentries q = int n \<Longrightarrow>
     sq_list q = map (\<lambda>k. q_msg q ! ((r + k) mod q_capacity q)) [0..<n]"
  by (simp add: sq_list_def)

lemma length_sq_list: "sq_inv q \<Longrightarrow> length (sq_list q) = q_read_sem q"
  by (erule sq_invE) (simp add: sq_list_nat)

lemma length_sq_list_le: "sq_inv q \<Longrightarrow> length (sq_list q) \<le> q_capacity q"
  by (erule sq_invE) (simp add: sq_list_nat)

lemma advance_idx_nat:
  assumes "0 < q_capacity q" "q_capacity q \<le> SEM_VALUE_MAX" "i < q_capacity q"
  shows "advance_idx q (int i) = Some (int ((i + 1) mod q_capacity q))"
proof -
  have "(i + 1) mod q_capacity q < q_capacity q" using assms(1) by simp
  also have "q_capacity q < 2 ^ 31" using assms(2) by (simp add: SEM_VALUE_MAX_def)
  finally have "(i + 1) mod q_capacity q < 2 ^ 31" .
  with assms show ?thesis
    by (simp add: advance_idx_def int_to_size_nat to_int_id SEM_VALUE_MAX_def)
qed

section \<open>Sequential behaviour\<close>

lemma streamq_new_inv:
  assumes "0 < c" "c \<le> SEM_VALUE_MAX" "io4e_streamq_new c b = (err, Some q, b')"
  shows "err = IO4E_OK" "sq_inv q" "sq_list q = []" "q_capacity q = c" "b_live b' = b_live b + 2"
  using assms
  by (auto simp: io4e_streamq_new_def sq_inv_def sq_list_def sem_init_value_def SEM_VALUE_MAX_def
      calloc_block_def Let_def split: if_splits)

lemma push_ok:
  assumes "sq_inv q" "length (sq_list q) < q_capacity q"
  obtains q' where "io4e_streamq_push sz now q msg t = Some (IO4E_OK, q', now)" "sq_inv q'"
    "sq_list q' = sq_list q @ [msg]" "q_capacity q' = q_capacity q"
proof -
  from assms(1) obtain r n where q: "q_read_idx q = int r" "r < q_capacity q" "q_nentries q = int n"
    "n \<le> q_capacity q" "q_write_idx q = int ((r + n) mod q_capacity q)" "q_read_sem q = n"
    "q_write_sem q = q_capacity q - n" "0 < q_capacity q" "q_capacity q \<le> SEM_VALUE_MAX"
    "length (q_msg q) = q_capacity q" "\<not> q_locked q" by (rule sq_invE)
  let ?c = "q_capacity q" and ?w = "(r + n) mod q_capacity q"
  have n: "n < ?c" using assms(2) q by (simp add: sq_list_nat)
  have w: "?w < ?c" using q(8) by simp
  define q' where "q' = q\<lparr>q_msg := (q_msg q)[?w := msg], q_write_idx := int ((?w + 1) mod ?c),
    q_nentries := int (Suc n), q_write_sem := ?c - Suc n, q_read_sem := Suc n\<rparr>"
  have "io4e_streamq_push sz now q msg t = Some (IO4E_OK, q', now)"
    using q n w advance_idx_nat [of _ ?w]
    by (simp add: io4e_streamq_push_def sem_timedwait_def q_lock_def push_store_def
        push_advance_def push_count_def q_unlock_def q'_def int_add_def sem_post_def SEM_VALUE_MAX_def)
  moreover have "sq_inv q'"
    by (rule sq_invI [of _ r "Suc n"]) (use q n ring_next [of r n ?c] in \<open>simp_all add: q'_def\<close>)
  moreover have "sq_list q' = sq_list q @ [msg]"
    using q(1,3) q(10) w ring_neq [OF _ n, of _ r, THEN not_sym]
    by (auto simp: q'_def sq_list_nat [of _ r "Suc n"] sq_list_nat [of q r n] nth_list_update)
  moreover have "q_capacity q' = ?c" by (simp add: q'_def)
  ultimately show ?thesis by (rule that)
qed

lemma push_full:
  assumes "sq_inv q" "length (sq_list q) = q_capacity q"
  shows "io4e_streamq_push sz now q msg t = Some (IO4E_ERR_TIMEOUT, q, max now (get_timeout sz now t))"
  using assms
  by (auto elim!: sq_invE simp: sq_list_nat io4e_streamq_push_def sem_timedwait_def)

lemma pop_ok:
  assumes "sq_inv q" "sq_list q = m # ms"
  obtains q' where "io4e_streamq_pop sz now q t = Some (IO4E_OK, Some m, q', now)" "sq_inv q'"
    "sq_list q' = ms" "q_capacity q' = q_capacity q"
proof -
  from assms(1) obtain r n where q: "q_read_idx q = int r" "r < q_capacity q" "q_nentries q = int n"
    "n \<le> q_capacity q" "q_write_idx q = int ((r + n) mod q_capacity q)" "q_read_sem q = n"
    "q_write_sem q = q_capacity q - n" "0 < q_capacity q" "q_capacity q \<le> SEM_VALUE_MAX"
    "length (q_msg q) = q_capacity q" "\<not> q_locked q" by (rule sq_invE)
  let ?c = "q_capacity q"
  from assms(2) q obtain k where k: "n = Suc k" by (cases n) (auto simp: sq_list_nat)
  define q' where "q' = q\<lparr>q_read_idx := int ((r + 1) mod ?c), q_nentries := int k,
    q_write_sem := ?c - k, q_read_sem := k, q_locked := False\<rparr>"
  have list: "sq_list q = q_msg q ! r # map (\<lambda>j. q_msg q ! ((r + Suc j) mod ?c)) [0..<k]"
    using q(1-3) map_upt_Suc [of "\<lambda>j. q_msg q ! ((r + j) mod ?c)" k] k
    by (simp add: sq_list_nat [of q r n] del: upt_Suc)
  have "io4e_streamq_pop sz now q t = Some (IO4E_OK, Some m, q', now)"
    using q k list assms(2) advance_idx_nat [of _ r]
    by (simp add: io4e_streamq_pop_def sem_timedwait_def q_lock_def pop_load_def
        pop_advance_def pop_count_def q_unlock_def q'_def int_add_def sem_post_def SEM_VALUE_MAX_def
        Let_def Suc_diff_Suc)
  moreover have "sq_inv q'"
    by (rule sq_invI [of _ "(r + 1) mod ?c" k])
       (use q k ring_shift [of r ?c k] in \<open>simp_all add: q'_def\<close>)
  moreover have "sq_list q' = ms"
    using list assms(2) ring_shift [of r ?c]
    by (simp add: q'_def sq_list_nat [of _ "(r + 1) mod ?c" k])
  moreover have "q_capacity q' = ?c" by (simp add: q'_def)
  ultimately show ?thesis by (rule that)
qed

lemma pop_empty:
  assumes "sq_inv q" "sq_list q = []"
  shows "io4e_streamq_pop sz now q t
           = Some (IO4E_ERR_TIMEOUT, None, q, max now (get_timeout sz now t))"
  using assms
  by (auto elim!: sq_invE simp: sq_list_nat io4e_streamq_pop_def sem_timedwait_def)

lemma entries_length:
  assumes "sq_inv q"
  shows "io4e_streamq_entries q = Some (length (sq_list q), q)"
  using assms
  by (auto elim!: sq_invE simp: sq_list_nat io4e_streamq_entries_def q_lock_def q_unlock_def
      int_to_size_nat SEM_VALUE_MAX_def)


section \<open>The contract: a bounded FIFO\<close>

text \<open>What the rest of the library expects of the queue, on the list of its messages.\<close>

datatype q_op = Op_Push ptr | Op_Pop | Op_Entries

datatype q_out = Out_Push io4e_err_t | Out_Pop io4e_err_t "ptr option" | Out_Entries nat

fun fifo_step :: "nat \<Rightarrow> q_op \<Rightarrow> ptr list \<Rightarrow> q_out \<times> ptr list" where
  "fifo_step cap (Op_Push m) xs =
     (if length xs < cap then (Out_Push IO4E_OK, xs @ [m]) else (Out_Push IO4E_ERR_TIMEOUT, xs))"
| "fifo_step cap Op_Pop [] = (Out_Pop IO4E_ERR_TIMEOUT None, [])"
| "fifo_step cap Op_Pop (x # xs) = (Out_Pop IO4E_OK (Some x), xs)"
| "fifo_step cap Op_Entries xs = (Out_Entries (length xs), xs)"

fun fifo_run :: "nat \<Rightarrow> q_op list \<Rightarrow> ptr list \<Rightarrow> q_out list \<times> ptr list" where
  "fifo_run cap [] xs = ([], xs)"
| "fifo_run cap (op # ops) xs =
     (let (out, ys) = fifo_step cap op xs; (outs, zs) = fifo_run cap ops ys in (out # outs, zs))"

text \<open>The same operations, each with its timeout, on an implementation given by its functions.\<close>

fun queue_run ::
  "(int \<Rightarrow> 'q \<Rightarrow> ptr \<Rightarrow> u64 \<Rightarrow> (io4e_err_t \<times> 'q \<times> int) option) \<Rightarrow>
   (int \<Rightarrow> 'q \<Rightarrow> u64 \<Rightarrow> (io4e_err_t \<times> ptr option \<times> 'q \<times> int) option) \<Rightarrow>
   ('q \<Rightarrow> (nat \<times> 'q) option) \<Rightarrow> int \<Rightarrow> 'q \<Rightarrow> (q_op \<times> u64) list \<Rightarrow>
   (q_out list \<times> 'q \<times> int) option" where
  "queue_run push pop entries now q [] = Some ([], q, now)"
| "queue_run push pop entries now q ((Op_Push m, t) # ops) = do {
     (err, q, now) \<leftarrow> push now q m t;
     (outs, q, now) \<leftarrow> queue_run push pop entries now q ops;
     Some (Out_Push err # outs, q, now) }"
| "queue_run push pop entries now q ((Op_Pop, t) # ops) = do {
     (err, m, q, now) \<leftarrow> pop now q t;
     (outs, q, now) \<leftarrow> queue_run push pop entries now q ops;
     Some (Out_Pop err m # outs, q, now) }"
| "queue_run push pop entries now q ((Op_Entries, t) # ops) = do {
     (n, q) \<leftarrow> entries q;
     (outs, q, now) \<leftarrow> queue_run push pop entries now q ops;
     Some (Out_Entries n # outs, q, now) }"

locale bounded_fifo =
  fixes push :: "int \<Rightarrow> 'q \<Rightarrow> ptr \<Rightarrow> u64 \<Rightarrow> (io4e_err_t \<times> 'q \<times> int) option"
    and pop :: "int \<Rightarrow> 'q \<Rightarrow> u64 \<Rightarrow> (io4e_err_t \<times> ptr option \<times> 'q \<times> int) option"
    and entries :: "'q \<Rightarrow> (nat \<times> 'q) option"
    and inv :: "'q \<Rightarrow> bool"
    and contents :: "'q \<Rightarrow> ptr list"
    and cap :: "'q \<Rightarrow> nat"
  assumes push_room: "inv q \<Longrightarrow> length (contents q) < cap q \<Longrightarrow>
      \<exists>q'. push now q m t = Some (IO4E_OK, q', now) \<and> inv q' \<and> contents q' = contents q @ [m]
           \<and> cap q' = cap q"
    and push_no_room: "inv q \<Longrightarrow> \<not> length (contents q) < cap q \<Longrightarrow>
      \<exists>now'. push now q m t = Some (IO4E_ERR_TIMEOUT, q, now')"
    and pop_some: "inv q \<Longrightarrow> contents q = x # xs \<Longrightarrow>
      \<exists>q'. pop now q t = Some (IO4E_OK, Some x, q', now) \<and> inv q' \<and> contents q' = xs
           \<and> cap q' = cap q"
    and pop_none: "inv q \<Longrightarrow> contents q = [] \<Longrightarrow>
      \<exists>now'. pop now q t = Some (IO4E_ERR_TIMEOUT, None, q, now')"
    and entries_ok: "inv q \<Longrightarrow> entries q = Some (length (contents q), q)"
    and room_bound: "inv q \<Longrightarrow> length (contents q) \<le> cap q"
begin

lemma run_refines:
  "inv q \<Longrightarrow> \<exists>q' now'. queue_run push pop entries now q ops
      = Some (fst (fifo_run (cap q) (map fst ops) (contents q)), q', now') \<and> inv q' \<and>
        contents q' = snd (fifo_run (cap q) (map fst ops) (contents q)) \<and> cap q' = cap q"
proof (induction ops arbitrary: q now)
  case Nil
  then show ?case by simp
next
  case (Cons opt ops)
  obtain op t where opt: "opt = (op, t)" by fastforce
  show ?case
  proof (cases op)
    case (Op_Push m)
    show ?thesis
    proof (cases "length (contents q) < cap q")
      case True
      from push_room [OF Cons.prems this, of now m t] obtain q1
        where q1: "push now q m t = Some (IO4E_OK, q1, now)" "inv q1"
          "contents q1 = contents q @ [m]" "cap q1 = cap q" by blast
      from Cons.IH [OF q1(2), of now] q1 True opt Op_Push show ?thesis
        by (auto simp: Let_def split_def)
    next
      case False
      from push_no_room [OF Cons.prems this, of now m t] obtain now1
        where q1: "push now q m t = Some (IO4E_ERR_TIMEOUT, q, now1)" by blast
      from Cons.IH [OF Cons.prems, of now1] q1 False opt Op_Push show ?thesis
        by (auto simp: Let_def split_def)
    qed
  next
    case Op_Pop
    show ?thesis
    proof (cases "contents q")
      case Nil
      from pop_none [OF Cons.prems this, of now t] obtain now1
        where q1: "pop now q t = Some (IO4E_ERR_TIMEOUT, None, q, now1)" by blast
      from Cons.IH [OF Cons.prems, of now1] q1 Nil opt Op_Pop show ?thesis
        by (auto simp: Let_def split_def)
    next
      case (Cons x xs)
      from pop_some [OF Cons.prems Cons, of now t] obtain q1
        where q1: "pop now q t = Some (IO4E_OK, Some x, q1, now)" "inv q1"
          "contents q1 = xs" "cap q1 = cap q" by blast
      from Cons.IH [OF q1(2), of now] q1 Cons opt Op_Pop show ?thesis
        by (auto simp: Let_def split_def)
    qed
  next
    case Op_Entries
    from Cons.IH [OF Cons.prems, of now] entries_ok [OF Cons.prems] opt Op_Entries show ?thesis
      by (auto simp: Let_def split_def)
  qed
qed

end

interpretation sq: bounded_fifo "io4e_streamq_push sz" "io4e_streamq_pop sz" io4e_streamq_entries
    sq_inv sq_list q_capacity for sz
proof unfold_locales
  fix q now m t
  assume inv: "sq_inv q"
  show "\<exists>q'. io4e_streamq_push sz now q m t = Some (IO4E_OK, q', now) \<and> sq_inv q' \<and>
      sq_list q' = sq_list q @ [m] \<and> q_capacity q' = q_capacity q"
    if "length (sq_list q) < q_capacity q"
    using push_ok [OF inv that] by metis
  show "\<exists>now'. io4e_streamq_push sz now q m t = Some (IO4E_ERR_TIMEOUT, q, now')"
    if "\<not> length (sq_list q) < q_capacity q"
    using push_full [OF inv] that length_sq_list_le [OF inv] by auto
  show "\<exists>q'. io4e_streamq_pop sz now q t = Some (IO4E_OK, Some x, q', now) \<and> sq_inv q' \<and>
      sq_list q' = xs \<and> q_capacity q' = q_capacity q" if "sq_list q = x # xs" for x xs
    using pop_ok [OF inv that] by metis
  show "\<exists>now'. io4e_streamq_pop sz now q t = Some (IO4E_ERR_TIMEOUT, None, q, now')"
    if "sq_list q = []"
    using pop_empty [OF inv that] by auto
  show "io4e_streamq_entries q = Some (length (sq_list q), q)" using inv by (rule entries_length)
  show "length (sq_list q) \<le> q_capacity q" using inv by (rule length_sq_list_le)
qed


section \<open>Properties\<close>

text \<open>C15 A queue made by \<open>io4e_streamq_new\<close> behaves as a bounded FIFO of its capacity: for every
  sequence of pushes, pops and size queries the results are those of the list specification
  (messages in order, \<open>IO4E_ERR_TIMEOUT\<close> exactly on a full or empty queue), every call returns,
  and the ring still represents the specification's list.\<close>

theorem streamq_refines_fifo:
  assumes "0 < c" "c \<le> SEM_VALUE_MAX" "io4e_streamq_new c b = (err, Some q, b')"
  shows "\<exists>q' now'. queue_run (io4e_streamq_push sz) (io4e_streamq_pop sz) io4e_streamq_entries now q ops
      = Some (fst (fifo_run c (map fst ops) []), q', now') \<and> sq_inv q' \<and>
        sq_list q' = snd (fifo_run c (map fst ops) [])"
proof -
  note new = streamq_new_inv [OF assms]
  from sq.run_refines [OF new(2)] new(3,4) show ?thesis by metis
qed

theorem streamq_refines_fifo_witness:
  "\<exists>q' now'. queue_run (io4e_streamq_push 8) (io4e_streamq_pop 8) io4e_streamq_entries 100
        (the (fst (snd (io4e_streamq_new 2 \<lparr>b_fail = [], b_live = 0\<rparr>))))
        [(Op_Push 7, 0), (Op_Push 8, 0), (Op_Push 9, 1), (Op_Pop, 0), (Op_Entries, 0)]
      = Some ([Out_Push IO4E_OK, Out_Push IO4E_OK, Out_Push IO4E_ERR_TIMEOUT,
               Out_Pop IO4E_OK (Some 7), Out_Entries 1], q', now') \<and> sq_inv q' \<and> sq_list q' = [8]"
proof -
  have "io4e_streamq_new 2 \<lparr>b_fail = [], b_live = 0\<rparr> =
      (IO4E_OK, Some (the (fst (snd (io4e_streamq_new 2 \<lparr>b_fail = [], b_live = 0\<rparr>)))),
       \<lparr>b_fail = [], b_live = 2\<rparr>)"
    by (simp add: io4e_streamq_new_def calloc_block_def)
  from streamq_refines_fifo [OF _ _ this, where ops = "[(Op_Push 7, 0), (Op_Push 8, 0),
      (Op_Push 9, 1), (Op_Pop, 0), (Op_Entries, 0)]" and sz = 8 and now = 100]
  show ?thesis by (simp add: SEM_VALUE_MAX_def)
qed


section \<open>Deadlines\<close>

lemma uint_deadline:
  assumes "0 \<le> now" "now + uint t < 2 ^ 64"
  shows "uint (word_of_int now + t :: u64) = now + uint t"
proof -
  have "now < 2 ^ 64" using assms(2) uint_ge_0 [of t] by linarith
  with assms show ?thesis by (simp add: uint_word_ariths uint_word_of_int)
qed

lemma sint_small_u64: "uint (w :: u64) < 2 ^ 63 \<Longrightarrow> sint w = uint w"
  unfolding sint_uint
  by (intro signed_take_bit_int_eq_self order_trans [OF _ uint_ge_0]) simp_all

text \<open>C40 The deadline, as long as clock plus timeout is in the range of a signed 64-bit number (so also for
  \<open>IO4E_FOREVER\<close>). With an 8-byte \<open>time_t\<close> it is that sum, which for a negative timeout, passed on by
  \<open>io4edge_functionblock_read_stream\<close> as a huge unsigned number, lies in the past. With a 4-byte
  \<open>time_t\<close> it is at most the largest time; and it is that largest time, so that the wait goes on for
  ever instead of not at all, when a negative timeout exceeds the clock.\<close>

theorem get_timeout_deadline:
  assumes "- (2 ^ 63) \<le> now + k" "now + k < 2 ^ 63"
  shows "get_timeout 8 now (word_of_int k) = now + k \<and>
    get_timeout 4 now (word_of_int k) = (if now + k < 0 then 2 ^ 31 - 1 else min (now + k) (2 ^ 31 - 1))"
proof -
  have sum: "word_of_int now + word_of_int k = (word_of_int (now + k) :: u64)" by simp
  have s: "sint (word_of_int (now + k) :: u64) = now + k"
    using assms by (simp add: sint_sbintrunc' signed_take_bit_int_eq_self del: of_int_add)
  have u: "uint (word_of_int (now + k) :: u64) = (if now + k < 0 then now + k + 2 ^ 64 else now + k)"
  proof (cases "now + k < 0")
    case True
    have "(now + k) mod 2 ^ 64 = (now + k + 2 ^ 64) mod 2 ^ 64" by simp
    also have "\<dots> = now + k + 2 ^ 64" using assms(1) True by (intro mod_pos_pos_trivial) simp_all
    finally show ?thesis using True by (simp add: uint_word_of_int del: of_int_add)
  next
    case False
    with assms show ?thesis by (simp add: uint_word_of_int del: of_int_add)
  qed
  have big: "(0x7FFFFFFF :: u64) < word_of_int (now + k) \<longleftrightarrow> now + k < 0 \<or> 2 ^ 31 - 1 < now + k"
    unfolding word_less_alt u using assms(1) by auto
  show ?thesis
    using s big by (simp add: get_timeout_def Let_def sum del: of_int_add)
qed

theorem get_timeout_deadline_witness:
  "get_timeout 8 1700000000 (word_of_int 10000000000) = 11700000000 \<and>
    get_timeout 4 1700000000 (word_of_int 10000000000) = 2 ^ 31 - 1 \<and>
    get_timeout 8 1700000000 (word_of_int (- 5)) = 1699999995 \<and>
    get_timeout 4 1700000000 (word_of_int (- 1800000000)) = 2 ^ 31 - 1"
  using get_timeout_deadline [of 1700000000 10000000000] get_timeout_deadline [of 1700000000 "- 5"]
    get_timeout_deadline [of 1700000000 "- 1800000000"] by simp

text \<open>A timeout is reported exactly when there is no room (push) or no message (pop), it leaves the
  queue as it was, and it does not come before the deadline.\<close>

theorem streamq_timeout:
  assumes "sq_inv q"
  shows "(length (sq_list q) = q_capacity q \<longleftrightarrow>
      (\<exists>now'. io4e_streamq_push sz now q m t = Some (IO4E_ERR_TIMEOUT, q, now')
         \<and> get_timeout sz now t \<le> now')) \<and>
    (sq_list q = [] \<longleftrightarrow>
      (\<exists>now'. io4e_streamq_pop sz now q t = Some (IO4E_ERR_TIMEOUT, None, q, now')
         \<and> get_timeout sz now t \<le> now'))"
proof (intro conjI iffI)
  assume "\<exists>now'. io4e_streamq_push sz now q m t = Some (IO4E_ERR_TIMEOUT, q, now')
         \<and> get_timeout sz now t \<le> now'"
  then obtain now' where full: "io4e_streamq_push sz now q m t = Some (IO4E_ERR_TIMEOUT, q, now')"
    by blast
  have "\<not> length (sq_list q) < q_capacity q"
  proof
    assume "length (sq_list q) < q_capacity q"
    with assms obtain q' where "io4e_streamq_push sz now q m t = Some (IO4E_OK, q', now)"
      by (rule push_ok)
    with full show False by (simp add: err_defs)
  qed
  with length_sq_list_le [OF assms] show "length (sq_list q) = q_capacity q" by simp
next
  assume "\<exists>now'. io4e_streamq_pop sz now q t = Some (IO4E_ERR_TIMEOUT, None, q, now')
         \<and> get_timeout sz now t \<le> now'"
  then obtain now' where empty: "io4e_streamq_pop sz now q t = Some (IO4E_ERR_TIMEOUT, None, q, now')"
    by blast
  show "sq_list q = []"
  proof (cases "sq_list q")
    case (Cons x xs)
    with assms obtain q' where "io4e_streamq_pop sz now q t = Some (IO4E_OK, Some x, q', now)"
      by (rule pop_ok)
    with empty show ?thesis by (simp add: err_defs)
  qed
qed (simp_all add: push_full [OF assms] pop_empty [OF assms])

definition demo_q :: streamq_t where
  "demo_q = \<lparr>q_msg = [5, 6], q_capacity = 2, q_write_idx = 1, q_read_idx = 1, q_nentries = 2,
     q_write_sem = 0, q_read_sem = 2, q_locked = False\<rparr>"

theorem streamq_timeout_witness:
  "(length (sq_list demo_q) = q_capacity demo_q \<longleftrightarrow>
      (\<exists>now'. io4e_streamq_push 8 50 demo_q 9 3 = Some (IO4E_ERR_TIMEOUT, demo_q, now')
         \<and> get_timeout 8 50 3 \<le> now')) \<and>
    (sq_list demo_q = [] \<longleftrightarrow>
      (\<exists>now'. io4e_streamq_pop 8 50 demo_q 3 = Some (IO4E_ERR_TIMEOUT, None, demo_q, now')
         \<and> get_timeout 8 50 3 \<le> now'))"
  by (rule streamq_timeout) (simp add: sq_inv_def demo_q_def SEM_VALUE_MAX_def)

text \<open>\<open>io4e_streamq_new\<close> leaks nothing when an allocation fails, and \<open>io4e_streamq_delete\<close> gives
  back both blocks of a queue and clears the caller's pointer; on a null queue it does nothing.\<close>

theorem streamq_new_delete_blocks:
  "case io4e_streamq_new c b of (err, q, b') \<Rightarrow>
     io4e_streamq_delete q b' = (None, b'\<lparr>b_live := b_live b\<rparr>) \<and>
     (err = IO4E_OK \<longleftrightarrow> q \<noteq> None) \<and> (q = None \<longrightarrow> err = IO4E_ERR_NO_MEM \<and> b_live b' = b_live b)"
  by (auto simp: io4e_streamq_new_def io4e_streamq_delete_def calloc_block_def free_block_def err_defs)

text \<open>\<open>streamq_new_delete_blocks\<close> at both outcomes.\<close>

theorem streamq_new_delete_blocks_witness:
  "(case io4e_streamq_new 100 \<lparr>b_fail = [False, True], b_live = 4\<rparr> of (err, q, b') \<Rightarrow>
     err = IO4E_ERR_NO_MEM \<and> b_live b' = 4) \<and>
   (case io4e_streamq_new 100 \<lparr>b_fail = [], b_live = 4\<rparr> of (err, q, b') \<Rightarrow>
     err = IO4E_OK \<and> b_live b' = 6 \<and> b_live (snd (io4e_streamq_delete q b')) = 4)"
  using streamq_new_delete_blocks [where c = 100 and b = "\<lparr>b_fail = [], b_live = 4\<rparr>"]
  by (simp add: io4e_streamq_new_def calloc_block_def free_block_def err_defs
      io4e_streamq_delete_def)

end
