(* ===== verification/Streamq_Conc.thy ===== *)
theory Streamq_Conc
  imports Streamq
begin

text \<open>
  The stream queue used by any number of threads at once (the reader thread pushes, the users of a
  client pop). A thread's program counter stands before one statement of \<open>io4e_streamq_push\<close> or
  \<open>io4e_streamq_pop\<close>; a step executes that statement, with the definitions of theory \<open>Streamq\<close>,
  and the scheduler picks the thread. \<open>sem_timedwait\<close> and the mutex block by not having a step.
\<close>

section \<open>Threads\<close>

datatype thread_pc =
    Idle
  | Push_Wait ptr int      \<comment> \<open>in \<open>sem_timedwait(write_sem)\<close>, with the deadline\<close>
  | Push_Lock ptr
  | Push_Store ptr
  | Push_Advance
  | Push_Count
  | Push_Unlock
  | Push_Post
  | Pop_Wait int           \<comment> \<open>in \<open>sem_timedwait(read_sem)\<close>, with the deadline\<close>
  | Pop_Lock
  | Pop_Load
  | Pop_Advance ptr
  | Pop_Count ptr
  | Pop_Unlock ptr
  | Pop_Post ptr
  | Returned io4e_err_t "ptr option"
  | Cancelled

text \<open>
  The queue, the threads and the clock. \<open>y_pushed\<close> and \<open>y_popped\<close> record the messages in the order
  of the stores and loads; nothing depends on them.
\<close>

record qsys =
  y_q :: streamq_t
  y_threads :: "thread_pc list"
  y_now :: int
  y_pushed :: "ptr list"
  y_popped :: "ptr list"

abbreviation set_pc :: "nat \<Rightarrow> thread_pc \<Rightarrow> qsys \<Rightarrow> qsys" where
  "set_pc i pc s \<equiv> s\<lparr>y_threads := (y_threads s)[i := pc]\<rparr>"

text \<open>Thread \<open>i\<close> exists and stands at \<open>pc\<close>.\<close>

abbreviation at_pc :: "qsys \<Rightarrow> nat \<Rightarrow> thread_pc \<Rightarrow> bool" where
  "at_pc s i pc \<equiv> i < length (y_threads s) \<and> y_threads s ! i = pc"

text \<open>
  \<open>sz\<close> is \<open>sizeof(time_t)\<close>. \<open>sem_timedwait\<close> is a cancellation point (a client is deleted by
  cancelling its reader thread); the mutex operations and \<open>sem_post\<close> are not.
\<close>

inductive q_step :: "nat \<Rightarrow> qsys \<Rightarrow> qsys \<Rightarrow> bool" for sz where
  call_push: "at_pc s i pc \<Longrightarrow> pc = Idle \<or> pc = Returned e r \<Longrightarrow>
    q_step sz s (set_pc i (Push_Wait m (get_timeout sz (y_now s) t)) s)"
| push_wait: "at_pc s i (Push_Wait m d) \<Longrightarrow> 0 < q_write_sem (y_q s) \<Longrightarrow>
    q_step sz s (set_pc i (Push_Lock m) (s\<lparr>y_q := (y_q s)\<lparr>q_write_sem := q_write_sem (y_q s) - 1\<rparr>\<rparr>))"
| push_timeout: "at_pc s i (Push_Wait m d) \<Longrightarrow> q_write_sem (y_q s) = 0 \<Longrightarrow> d \<le> y_now s \<Longrightarrow>
    q_step sz s (set_pc i (Returned IO4E_ERR_TIMEOUT None) s)"
| push_cancel: "at_pc s i (Push_Wait m d) \<Longrightarrow> q_step sz s (set_pc i Cancelled s)"
| push_lock: "at_pc s i (Push_Lock m) \<Longrightarrow> q_lock (y_q s) = Some q \<Longrightarrow>
    q_step sz s (set_pc i (Push_Store m) (s\<lparr>y_q := q\<rparr>))"
| push_store: "at_pc s i (Push_Store m) \<Longrightarrow> push_store m (y_q s) = Some q \<Longrightarrow>
    q_step sz s (set_pc i Push_Advance (s\<lparr>y_q := q, y_pushed := y_pushed s @ [m]\<rparr>))"
| push_advance: "at_pc s i Push_Advance \<Longrightarrow> push_advance (y_q s) = Some q \<Longrightarrow>
    q_step sz s (set_pc i Push_Count (s\<lparr>y_q := q\<rparr>))"
| push_count: "at_pc s i Push_Count \<Longrightarrow> push_count (y_q s) = Some q \<Longrightarrow>
    q_step sz s (set_pc i Push_Unlock (s\<lparr>y_q := q\<rparr>))"
| push_unlock: "at_pc s i Push_Unlock \<Longrightarrow>
    q_step sz s (set_pc i Push_Post (s\<lparr>y_q := q_unlock (y_q s)\<rparr>))"
| push_post: "at_pc s i Push_Post \<Longrightarrow>
    q_step sz s (set_pc i (Returned IO4E_OK None)
                   (s\<lparr>y_q := (y_q s)\<lparr>q_read_sem := sem_post (q_read_sem (y_q s))\<rparr>\<rparr>))"
| call_pop: "at_pc s i pc \<Longrightarrow> pc = Idle \<or> pc = Returned e r \<Longrightarrow>
    q_step sz s (set_pc i (Pop_Wait (get_timeout sz (y_now s) t)) s)"
| pop_wait: "at_pc s i (Pop_Wait d) \<Longrightarrow> 0 < q_read_sem (y_q s) \<Longrightarrow>
    q_step sz s (set_pc i Pop_Lock (s\<lparr>y_q := (y_q s)\<lparr>q_read_sem := q_read_sem (y_q s) - 1\<rparr>\<rparr>))"
| pop_timeout: "at_pc s i (Pop_Wait d) \<Longrightarrow> q_read_sem (y_q s) = 0 \<Longrightarrow> d \<le> y_now s \<Longrightarrow>
    q_step sz s (set_pc i (Returned IO4E_ERR_TIMEOUT None) s)"
| pop_lock: "at_pc s i Pop_Lock \<Longrightarrow> q_lock (y_q s) = Some q \<Longrightarrow>
    q_step sz s (set_pc i Pop_Load (s\<lparr>y_q := q\<rparr>))"
| pop_load: "at_pc s i Pop_Load \<Longrightarrow> pop_load (y_q s) = Some m \<Longrightarrow>
    q_step sz s (set_pc i (Pop_Advance m) (s\<lparr>y_popped := y_popped s @ [m]\<rparr>))"
| pop_advance: "at_pc s i (Pop_Advance m) \<Longrightarrow> pop_advance (y_q s) = Some q \<Longrightarrow>
    q_step sz s (set_pc i (Pop_Count m) (s\<lparr>y_q := q\<rparr>))"
| pop_count: "at_pc s i (Pop_Count m) \<Longrightarrow> pop_count (y_q s) = Some q \<Longrightarrow>
    q_step sz s (set_pc i (Pop_Unlock m) (s\<lparr>y_q := q\<rparr>))"
| pop_unlock: "at_pc s i (Pop_Unlock m) \<Longrightarrow>
    q_step sz s (set_pc i (Pop_Post m) (s\<lparr>y_q := q_unlock (y_q s)\<rparr>))"
| pop_post: "at_pc s i (Pop_Post m) \<Longrightarrow>
    q_step sz s (set_pc i (Returned IO4E_OK (Some m))
                   (s\<lparr>y_q := (y_q s)\<lparr>q_write_sem := sem_post (q_write_sem (y_q s))\<rparr>\<rparr>))"
| tick: "y_now s \<le> t' \<Longrightarrow> q_step sz s (s\<lparr>y_now := t'\<rparr>)"

text \<open>A fresh queue shared by \<open>n\<close> threads.\<close>

definition qsys_init :: "streamq_t \<Rightarrow> nat \<Rightarrow> int \<Rightarrow> qsys" where
  "qsys_init q n now =
     \<lparr>y_q = q, y_threads = replicate n Idle, y_now = now, y_pushed = [], y_popped = []\<rparr>"

inductive q_reachable :: "nat \<Rightarrow> nat \<Rightarrow> qsys \<Rightarrow> bool" for sz c where
  start: "io4e_streamq_new c b = (IO4E_OK, Some q, b') \<Longrightarrow> q_reachable sz c (qsys_init q n now)"
| step: "q_reachable sz c s \<Longrightarrow> q_step sz s s' \<Longrightarrow> q_reachable sz c s'"


section \<open>Who holds what\<close>

text \<open>
  Who holds what: a token of the write semaphore before the store, a stored message not yet
  announced, a token of the read semaphore before the load, a free slot not yet announced, the
  mutex; and the windows in which the indices and the counter lag behind.
\<close>

fun w_token :: "thread_pc \<Rightarrow> bool" where
  "w_token (Push_Lock m) = True" | "w_token (Push_Store m) = True" | "w_token _ = False"

fun r_pending :: "thread_pc \<Rightarrow> bool" where
  "r_pending Push_Advance = True" | "r_pending Push_Count = True"
| "r_pending Push_Unlock = True" | "r_pending Push_Post = True" | "r_pending _ = False"

fun r_token :: "thread_pc \<Rightarrow> bool" where
  "r_token Pop_Lock = True" | "r_token Pop_Load = True" | "r_token _ = False"

fun w_pending :: "thread_pc \<Rightarrow> bool" where
  "w_pending (Pop_Advance m) = True" | "w_pending (Pop_Count m) = True"
| "w_pending (Pop_Unlock m) = True" | "w_pending (Pop_Post m) = True" | "w_pending _ = False"

fun in_crit :: "thread_pc \<Rightarrow> bool" where
  "in_crit (Push_Store m) = True" | "in_crit Push_Advance = True" | "in_crit Push_Count = True"
| "in_crit Push_Unlock = True" | "in_crit Pop_Load = True" | "in_crit (Pop_Advance m) = True"
| "in_crit (Pop_Count m) = True" | "in_crit (Pop_Unlock m) = True" | "in_crit _ = False"

fun w_lag :: "thread_pc \<Rightarrow> bool" where
  "w_lag Push_Advance = True" | "w_lag _ = False"

fun r_lag :: "thread_pc \<Rightarrow> bool" where
  "r_lag (Pop_Advance m) = True" | "r_lag _ = False"

fun inc_lag :: "thread_pc \<Rightarrow> bool" where
  "inc_lag Push_Advance = True" | "inc_lag Push_Count = True" | "inc_lag _ = False"

fun dec_lag :: "thread_pc \<Rightarrow> bool" where
  "dec_lag (Pop_Advance m) = True" | "dec_lag (Pop_Count m) = True" | "dec_lag _ = False"

definition qsys_inv :: "nat \<Rightarrow> qsys \<Rightarrow> bool" where
  "qsys_inv c s \<longleftrightarrow>
     (let q = y_q s; ts = y_threads s; W = length (y_pushed s); R = length (y_popped s) in
      0 < c \<and> c \<le> SEM_VALUE_MAX \<and> q_capacity q = c \<and> length (q_msg q) = c \<and>
      R \<le> W \<and> y_popped s = take R (y_pushed s) \<and>
      q_write_sem q + cnt w_token ts + W + cnt w_pending ts = c + R \<and>
      q_read_sem q + cnt r_token ts + cnt r_pending ts + R = W \<and>
      cnt in_crit ts = (if q_locked q then 1 else 0) \<and>
      (\<forall>k. R \<le> k \<and> k < W \<longrightarrow> q_msg q ! (k mod c) = y_pushed s ! k) \<and>
      q_write_idx q = int ((W - cnt w_lag ts) mod c) \<and>
      cnt r_lag ts \<le> R \<and> q_read_idx q = int ((R - cnt r_lag ts) mod c) \<and>
      q_nentries q + int (cnt inc_lag ts) = int W - int R + int (cnt dec_lag ts))"


lemma qsys_inv_init:
  assumes "0 < c" "c \<le> SEM_VALUE_MAX" "io4e_streamq_new c b = (IO4E_OK, Some q, b')"
  shows "qsys_inv c (qsys_init q n now)"
  using assms
  by (auto simp: qsys_inv_def qsys_init_def io4e_streamq_new_def sem_init_value_def SEM_VALUE_MAX_def
      calloc_block_def cnt_replicate_0 Let_def split: if_splits)

lemma lag_crit:
  "w_lag x \<Longrightarrow> in_crit x" "r_lag x \<Longrightarrow> in_crit x" "inc_lag x \<Longrightarrow> in_crit x" "dec_lag x \<Longrightarrow> in_crit x"
  by (cases x; simp)+

lemma crit_others:
  assumes "cnt in_crit ts = (if b then 1 else 0)" "i < length ts" "in_crit (ts ! i)"
    and "\<And>x. P x \<Longrightarrow> in_crit x" "\<not> P (ts ! i)"
  shows "b" "cnt P ts = 0"
proof -
  have "0 < cnt in_crit ts" using assms(2,3) by (rule cnt_pos)
  with assms(1) show "b" by (auto split: if_splits)
  have "cnt P ts + cnt (\<lambda>x. in_crit x \<and> \<not> P x) ts \<le> cnt in_crit ts"
    by (rule cnt_disjoint) (use assms(4) in auto)
  moreover have "0 < cnt (\<lambda>x. in_crit x \<and> \<not> P x) ts"
    using assms by (intro cnt_pos [of i]) auto
  ultimately show "cnt P ts = 0" using assms(1) by (simp split: if_splits)
qed


lemma cnt_upd:
  assumes "i < length ts"
  shows "cnt P (ts[i := pc])
       = cnt P ts + (if P pc then 1 else 0) - (if P (ts ! i) then 1 else 0)"
  using cnt_update [OF assms, of P pc] by simp

text \<open>The parts of the invariant.\<close>

lemma qsys_invD:
  assumes "qsys_inv c s"
  shows "0 < c" "c \<le> SEM_VALUE_MAX" "q_capacity (y_q s) = c" "length (q_msg (y_q s)) = c"
    "length (y_popped s) \<le> length (y_pushed s)"
    "y_popped s = take (length (y_popped s)) (y_pushed s)"
    "q_write_sem (y_q s) + cnt w_token (y_threads s) + length (y_pushed s)
       + cnt w_pending (y_threads s) = c + length (y_popped s)"
    "q_read_sem (y_q s) + cnt r_token (y_threads s) + cnt r_pending (y_threads s)
       + length (y_popped s) = length (y_pushed s)"
    "cnt in_crit (y_threads s) = (if q_locked (y_q s) then 1 else 0)"
    "length (y_popped s) \<le> k \<Longrightarrow> k < length (y_pushed s) \<Longrightarrow>
       q_msg (y_q s) ! (k mod c) = y_pushed s ! k"
    "q_write_idx (y_q s) = int ((length (y_pushed s) - cnt w_lag (y_threads s)) mod c)"
    "cnt r_lag (y_threads s) \<le> length (y_popped s)"
    "q_read_idx (y_q s) = int ((length (y_popped s) - cnt r_lag (y_threads s)) mod c)"
    "q_nentries (y_q s) + int (cnt inc_lag (y_threads s))
       = int (length (y_pushed s)) - int (length (y_popped s)) + int (cnt dec_lag (y_threads s))"
  using assms by (simp_all add: qsys_inv_def Let_def)

lemma inv_no_q:
  assumes "qsys_inv c s" "at_pc s i old"
    and "\<forall>P \<in> {w_token, r_pending, r_token, w_pending, in_crit, w_lag, r_lag, inc_lag, dec_lag}.
           \<not> P old \<and> \<not> P new"
  shows "qsys_inv c (set_pc i new s)"
  using assms by (simp add: qsys_inv_def Let_def cnt_upd)

lemma inv_push_wait:
  assumes "qsys_inv c s" "at_pc s i (Push_Wait m d)" "0 < q_write_sem (y_q s)"
  shows "qsys_inv c (set_pc i (Push_Lock m)
           (s\<lparr>y_q := (y_q s)\<lparr>q_write_sem := q_write_sem (y_q s) - 1\<rparr>\<rparr>))"
  using assms by (simp add: qsys_inv_def Let_def cnt_upd)

lemma inv_pop_wait:
  assumes "qsys_inv c s" "at_pc s i (Pop_Wait d)" "0 < q_read_sem (y_q s)"
  shows "qsys_inv c (set_pc i Pop_Lock
           (s\<lparr>y_q := (y_q s)\<lparr>q_read_sem := q_read_sem (y_q s) - 1\<rparr>\<rparr>))"
  using assms by (cases "q_read_sem (y_q s)") (simp_all add: qsys_inv_def Let_def cnt_upd)

lemma inv_lock:
  assumes "qsys_inv c s" "q_lock (y_q s) = Some q"
  shows "at_pc s i (Push_Lock m) \<Longrightarrow> qsys_inv c (set_pc i (Push_Store m) (s\<lparr>y_q := q\<rparr>))"
    "at_pc s i Pop_Lock \<Longrightarrow> qsys_inv c (set_pc i Pop_Load (s\<lparr>y_q := q\<rparr>))"
  using assms by (auto simp: qsys_inv_def Let_def cnt_upd q_lock_def split: if_splits)

lemma inv_unlock:
  assumes "qsys_inv c s"
  shows "at_pc s i Push_Unlock \<Longrightarrow> qsys_inv c (set_pc i Push_Post (s\<lparr>y_q := q_unlock (y_q s)\<rparr>))"
    "at_pc s i (Pop_Unlock m) \<Longrightarrow> qsys_inv c (set_pc i (Pop_Post m) (s\<lparr>y_q := q_unlock (y_q s)\<rparr>))"
  using assms cnt_pos [of i "y_threads s" in_crit]
  by (auto simp: qsys_inv_def Let_def cnt_upd q_unlock_def split: if_splits)

lemma inv_post:
  assumes "qsys_inv c s"
  shows "at_pc s i Push_Post \<Longrightarrow> qsys_inv c (set_pc i (Returned IO4E_OK None)
      (s\<lparr>y_q := (y_q s)\<lparr>q_read_sem := sem_post (q_read_sem (y_q s))\<rparr>\<rparr>))"
    "at_pc s i (Pop_Post m) \<Longrightarrow> qsys_inv c (set_pc i (Returned IO4E_OK (Some m))
      (s\<lparr>y_q := (y_q s)\<lparr>q_write_sem := sem_post (q_write_sem (y_q s))\<rparr>\<rparr>))"
proof -
  assume pc: "at_pc s i Push_Post"
  then have "0 < cnt r_pending (y_threads s)" by (intro cnt_pos [of i]) simp_all
  with assms pc show "qsys_inv c (set_pc i (Returned IO4E_OK None)
      (s\<lparr>y_q := (y_q s)\<lparr>q_read_sem := sem_post (q_read_sem (y_q s))\<rparr>\<rparr>))"
    by (simp add: qsys_inv_def Let_def cnt_upd sem_post_def)
next
  assume pc: "at_pc s i (Pop_Post m)"
  then have "0 < cnt w_pending (y_threads s)" by (intro cnt_pos [of i]) simp_all
  with assms pc show "qsys_inv c (set_pc i (Returned IO4E_OK (Some m))
      (s\<lparr>y_q := (y_q s)\<lparr>q_write_sem := sem_post (q_write_sem (y_q s))\<rparr>\<rparr>))"
    by (simp add: qsys_inv_def Let_def cnt_upd sem_post_def)
qed


lemma array_put_Some: "i = int k \<Longrightarrow> array_put a i x = Some b \<Longrightarrow> k < length a \<and> b = a[k := x]"
  by (auto simp: array_put_def split: if_splits)

lemma inv_push_store:
  assumes inv: "qsys_inv c s" and pc: "at_pc s i (Push_Store m)" and st: "push_store m (y_q s) = Some q"
  shows "qsys_inv c (set_pc i Push_Advance (s\<lparr>y_q := q, y_pushed := y_pushed s @ [m]\<rparr>))"
proof -
  note I = qsys_invD [OF inv]
  let ?ts = "y_threads s" and ?W = "length (y_pushed s)" and ?R = "length (y_popped s)"
  have crit: "q_locked (y_q s)" "cnt w_lag ?ts = 0"
    using crit_others [OF I(9), of i w_lag] pc by (simp_all add: lag_crit)
  have "0 < cnt w_token ?ts" using pc by (intro cnt_pos [of i]) simp_all
  with I(7) have room: "?W < ?R + c" by simp
  have widx: "q_write_idx (y_q s) = int (?W mod c)" using I(11) crit by simp
  from st have q: "q = (y_q s)\<lparr>q_msg := (q_msg (y_q s))[?W mod c := m]\<rparr>"
    by (auto simp: push_store_def bind_eq_Some_conv dest!: array_put_Some [OF widx])
  have ring: "(q_msg (y_q s))[?W mod c := m] ! (k mod c) = (y_pushed s @ [m]) ! k"
    if k: "?R \<le> k" "k < Suc ?W" for k
  proof (cases "k = ?W")
    case True
    with I(1,4) show ?thesis by simp
  next
    case False
    with k have "k < ?W" by simp
    moreover have "k mod c \<noteq> ?W mod c"
      using ring_neq [of "k - k" "?W - k" c k] \<open>k < ?W\<close> room k by simp
    ultimately show ?thesis using I(10) [OF k(1)] by (simp add: nth_append)
  qed
  have "qsys_inv c (set_pc i Push_Advance (s\<lparr>y_q := q, y_pushed := y_pushed s @ [m]\<rparr>))"
    using I(1-9,11-14) pc crit q ring \<open>0 < cnt w_token ?ts\<close> cnt_pos [of i ?ts in_crit]
    by (simp add: qsys_inv_def Let_def cnt_upd)
  then show ?thesis .
qed


lemma crit_self:
  assumes "cnt in_crit ts = (if b then 1 else 0)" "i < length ts" "P (ts ! i)"
    and "\<And>x. P x \<Longrightarrow> in_crit x"
  shows "b" "cnt P ts = 1"
proof -
  have pos: "0 < cnt P ts" using assms(2,3) by (rule cnt_pos)
  have le: "cnt P ts \<le> cnt in_crit ts" using assms(4) by (rule cnt_mono)
  with pos assms(1) show "b" by (auto split: if_splits)
  with pos le assms(1) show "cnt P ts = 1" by simp
qed

lemma inv_push_advance:
  assumes inv: "qsys_inv c s" and pc: "at_pc s i Push_Advance" and st: "push_advance (y_q s) = Some q"
  shows "qsys_inv c (set_pc i Push_Count (s\<lparr>y_q := q\<rparr>))"
proof -
  note I = qsys_invD [OF inv]
  let ?ts = "y_threads s" and ?W = "length (y_pushed s)"
  have crit: "q_locked (y_q s)" "cnt w_lag ?ts = 1"
    using crit_self [OF I(9), of i w_lag] pc by (simp_all add: lag_crit)
  have "0 < cnt r_pending ?ts" using pc by (intro cnt_pos [of i]) simp_all
  with I(8) have W: "0 < ?W" by linarith
  have "advance_idx (y_q s) (int ((?W - 1) mod c)) = Some (int (((?W - 1) mod c + 1) mod c))"
    using advance_idx_nat [of "y_q s" "(?W - 1) mod c"] I(1-3) by simp
  also have "((?W - 1) mod c + 1) mod c = ?W mod c" using W by (simp add: mod_Suc_eq)
  finally have "q = (y_q s)\<lparr>q_write_idx := int (?W mod c)\<rparr>"
    using st I(11) crit(2) by (simp add: push_advance_def)
  then show ?thesis
    using I pc crit \<open>0 < cnt r_pending ?ts\<close> by (simp add: qsys_inv_def Let_def cnt_upd)
qed

lemma inv_push_count:
  assumes inv: "qsys_inv c s" and pc: "at_pc s i Push_Count" and st: "push_count (y_q s) = Some q"
  shows "qsys_inv c (set_pc i Push_Unlock (s\<lparr>y_q := q\<rparr>))"
proof -
  note I = qsys_invD [OF inv]
  let ?ts = "y_threads s"
  have crit: "q_locked (y_q s)" "cnt inc_lag ?ts = 1"
    using crit_self [OF I(9), of i inc_lag] pc by (simp_all add: lag_crit)
  have "0 < cnt r_pending ?ts" using pc by (intro cnt_pos [of i]) simp_all
  moreover have "q = (y_q s)\<lparr>q_nentries := q_nentries (y_q s) + 1\<rparr>"
    using st by (auto simp: push_count_def int_add_def split: if_splits)
  ultimately show ?thesis using I pc crit by (simp add: qsys_inv_def Let_def cnt_upd)
qed

lemma inv_pop_load:
  assumes inv: "qsys_inv c s" and pc: "at_pc s i Pop_Load" and st: "pop_load (y_q s) = Some m"
  shows "qsys_inv c (set_pc i (Pop_Advance m) (s\<lparr>y_popped := y_popped s @ [m]\<rparr>))"
proof -
  note I = qsys_invD [OF inv]
  let ?ts = "y_threads s" and ?W = "length (y_pushed s)" and ?R = "length (y_popped s)"
  have crit: "q_locked (y_q s)" "cnt r_lag ?ts = 0" "cnt dec_lag ?ts = 0"
    using crit_others [OF I(9), of i r_lag] crit_others [OF I(9), of i dec_lag] pc
    by (simp_all add: lag_crit)
  have "0 < cnt r_token ?ts" using pc by (intro cnt_pos [of i]) simp_all
  with I(8) have R: "?R < ?W" by simp
  have "?R mod c < c" using I(1) by simp
  with st I(4,13) crit(2) have "m = q_msg (y_q s) ! (?R mod c)" by (simp add: pop_load_def)
  with I(10) [OF order_refl R] have "m = y_pushed s ! ?R" by simp
  with I(6) R have "y_popped s @ [m] = take (Suc ?R) (y_pushed s)"
    by (metis take_Suc_conv_app_nth)
  then show ?thesis
    using I(1-5,7-9,10-14) pc crit R \<open>0 < cnt r_token ?ts\<close>
    by (simp add: qsys_inv_def Let_def cnt_upd)
qed

lemma inv_pop_advance:
  assumes inv: "qsys_inv c s" and pc: "at_pc s i (Pop_Advance m)" and st: "pop_advance (y_q s) = Some q"
  shows "qsys_inv c (set_pc i (Pop_Count m) (s\<lparr>y_q := q\<rparr>))"
proof -
  note I = qsys_invD [OF inv]
  let ?ts = "y_threads s" and ?R = "length (y_popped s)"
  have crit: "q_locked (y_q s)" "cnt r_lag ?ts = 1"
    using crit_self [OF I(9), of i r_lag] pc by (simp_all add: lag_crit)
  have "0 < cnt w_pending ?ts" "0 < cnt dec_lag ?ts" using pc by (intro cnt_pos [of i]; simp)+
  moreover have "advance_idx (y_q s) (int ((?R - 1) mod c)) = Some (int (((?R - 1) mod c + 1) mod c))"
    using advance_idx_nat [of "y_q s" "(?R - 1) mod c"] I(1-3) by simp
  moreover have "((?R - 1) mod c + 1) mod c = ?R mod c"
  proof -
    have "Suc (?R - 1) = ?R" using I(12) crit by linarith
    then show ?thesis by (simp add: mod_Suc_eq)
  qed
  ultimately have "q = (y_q s)\<lparr>q_read_idx := int (?R mod c)\<rparr>"
    using st I(13) crit(2) by (simp add: pop_advance_def)
  then show ?thesis
    using I pc crit \<open>0 < cnt w_pending ?ts\<close> \<open>0 < cnt dec_lag ?ts\<close>
    by (simp add: qsys_inv_def Let_def cnt_upd)
qed

lemma inv_pop_count:
  assumes inv: "qsys_inv c s" and pc: "at_pc s i (Pop_Count m)" and st: "pop_count (y_q s) = Some q"
  shows "qsys_inv c (set_pc i (Pop_Unlock m) (s\<lparr>y_q := q\<rparr>))"
proof -
  note I = qsys_invD [OF inv]
  let ?ts = "y_threads s"
  have crit: "q_locked (y_q s)" "cnt dec_lag ?ts = 1"
    using crit_self [OF I(9), of i dec_lag] pc by (simp_all add: lag_crit)
  have "0 < cnt w_pending ?ts" using pc by (intro cnt_pos [of i]) simp_all
  moreover have "q = (y_q s)\<lparr>q_nentries := q_nentries (y_q s) - 1\<rparr>"
    using st by (auto simp: pop_count_def int_add_def split: if_splits)
  ultimately show ?thesis using I pc crit by (simp add: qsys_inv_def Let_def cnt_upd)
qed


lemma q_step_inv:
  assumes "q_step sz s s'" "qsys_inv c s"
  shows "qsys_inv c s'"
  using assms
proof cases
  case (tick t')
  with assms(2) show ?thesis by (simp add: qsys_inv_def Let_def)
next
  case call_push
  with assms(2) show ?thesis by (auto intro!: inv_no_q)
next
  case push_timeout
  with assms(2) show ?thesis by (auto intro!: inv_no_q)
next
  case push_cancel
  with assms(2) show ?thesis by (auto intro!: inv_no_q)
next
  case call_pop
  with assms(2) show ?thesis by (auto intro!: inv_no_q)
next
  case pop_timeout
  with assms(2) show ?thesis by (auto intro!: inv_no_q)
next
  case push_wait
  with assms(2) show ?thesis using inv_push_wait by blast
next
  case push_lock
  with assms(2) show ?thesis using inv_lock(1) by blast
next
  case push_store
  with assms(2) show ?thesis using inv_push_store by blast
next
  case push_advance
  with assms(2) show ?thesis using inv_push_advance by blast
next
  case push_count
  with assms(2) show ?thesis using inv_push_count by blast
next
  case push_unlock
  with assms(2) show ?thesis using inv_unlock(1) by blast
next
  case push_post
  with assms(2) show ?thesis using inv_post(1) by blast
next
  case pop_wait
  with assms(2) show ?thesis using inv_pop_wait by blast
next
  case pop_lock
  with assms(2) show ?thesis using inv_lock(2) by blast
next
  case pop_load
  with assms(2) show ?thesis using inv_pop_load by blast
next
  case pop_advance
  with assms(2) show ?thesis using inv_pop_advance by blast
next
  case pop_count
  with assms(2) show ?thesis using inv_pop_count by blast
next
  case pop_unlock
  with assms(2) show ?thesis using inv_unlock(2) by blast
next
  case pop_post
  with assms(2) show ?thesis using inv_post(2) by blast
qed

lemma q_reachable_inv:
  assumes "q_reachable sz c s" "0 < c" "c \<le> SEM_VALUE_MAX"
  shows "qsys_inv c s"
  using assms by (induction rule: q_reachable.induct) (blast intro: qsys_inv_init q_step_inv)+


section \<open>Safety\<close>

text \<open>What a thread needs to be defined at its statement.\<close>

fun stmt_defined :: "streamq_t \<Rightarrow> thread_pc \<Rightarrow> bool" where
  "stmt_defined q (Push_Store m) = (push_store m q \<noteq> None)"
| "stmt_defined q Push_Advance = (push_advance q \<noteq> None)"
| "stmt_defined q Push_Count = (push_count q \<noteq> None)"
| "stmt_defined q Pop_Load = (pop_load q \<noteq> None)"
| "stmt_defined q (Pop_Advance m) = (pop_advance q \<noteq> None)"
| "stmt_defined q (Pop_Count m) = (pop_count q \<noteq> None)"
| "stmt_defined q _ = True"

lemma cnt_le_length: "cnt P ts \<le> length ts"
  by (simp add: cnt_def)

lemma ring_index: "0 < (c :: nat) \<Longrightarrow> length a = c \<Longrightarrow> k mod c < length a"
  by simp

lemma advance_defined:
  "0 < q_capacity q \<Longrightarrow> \<exists>q'. push_advance q = Some q'"
  "0 < q_capacity q \<Longrightarrow> \<exists>q'. pop_advance q = Some q'"
  by (simp_all add: push_advance_def pop_advance_def advance_idx_def)

lemma nentries_range:
  assumes "qsys_inv c s" "cnt inc_lag (y_threads s) \<le> 1" "cnt dec_lag (y_threads s) \<le> 1"
  shows "- 1 \<le> q_nentries (y_q s) \<and> q_nentries (y_q s) \<le> int c + 1"
proof -
  note I = qsys_invD [OF assms(1)]
  from I(7) have "length (y_pushed s) \<le> c + length (y_popped s)" by linarith
  with I(5,14) assms(2,3) show ?thesis by linarith
qed

lemma qsys_inv_defined:
  assumes inv: "qsys_inv c s" and i: "i < length (y_threads s)"
  shows "stmt_defined (y_q s) (y_threads s ! i)"
proof -
  note I = qsys_invD [OF inv]
  let ?ts = "y_threads s" and ?W = "length (y_pushed s)" and ?R = "length (y_popped s)"
  have idx: "k mod c < c" for k using I(1) by simp
  have le1: "cnt P ?ts \<le> 1" if "\<And>x. P x \<Longrightarrow> in_crit x" for P
    using cnt_mono [of P in_crit ?ts] that I(9) by (simp split: if_splits)
  have range: "- 1 \<le> q_nentries (y_q s)" "q_nentries (y_q s) \<le> int c + 1"
    using nentries_range [OF inv] le1 [of inc_lag] le1 [of dec_lag] by (simp_all add: lag_crit)
  show ?thesis
  proof (cases "?ts ! i")
    case (Push_Store m)
    with I(4,11) idx show ?thesis by (simp add: push_store_def)
  next
    case Push_Count
    then have "in_crit (?ts ! i)" "\<not> dec_lag (?ts ! i)" "inc_lag (?ts ! i)" by simp_all
    then have "cnt dec_lag ?ts = 0" "cnt inc_lag ?ts = 1"
      using crit_others [OF I(9) i, of dec_lag] crit_self [OF I(9) i, of inc_lag]
      by (simp_all add: lag_crit)
    moreover from I(7) have "?W \<le> c + ?R" by linarith
    ultimately have "q_nentries (y_q s) \<le> int c - 1" "- 1 \<le> q_nentries (y_q s)"
      using I(5,14) by linarith+
    with I(2) Push_Count show ?thesis by (simp add: push_count_def int_add_def SEM_VALUE_MAX_def)
  next
    case Push_Advance
    then show ?thesis using I(1,3) by (simp add: advance_defined)
  next
    case (Pop_Advance m)
    then show ?thesis using I(1,3) by (simp add: advance_defined)
  qed (use idx range I(2,4,11,13) in
        \<open>simp_all add: pop_load_def pop_count_def int_add_def
           SEM_VALUE_MAX_def\<close>)
qed


lemma crit_unique:
  assumes "cnt in_crit ts \<le> 1" "i < length ts" "j < length ts" "in_crit (ts ! i)" "in_crit (ts ! j)"
  shows "i = j"
proof (rule ccontr)
  assume "i \<noteq> j"
  have "cnt in_crit (ts[i := Idle]) + 1 = cnt in_crit ts"
    using cnt_update [OF assms(2), of in_crit Idle] assms(4) by simp
  moreover have "0 < cnt in_crit (ts[i := Idle])"
    using assms(2,3,5) \<open>i \<noteq> j\<close> by (intro cnt_pos [of j]) simp_all
  ultimately show False using assms(1) by simp
qed

text \<open>A thread outside the two functions, or waiting in their first statement.\<close>

fun at_rest :: "thread_pc \<Rightarrow> bool" where
  "at_rest Idle = True" | "at_rest (Push_Wait m d) = True" | "at_rest (Pop_Wait d) = True"
| "at_rest (Returned e r) = True" | "at_rest Cancelled = True" | "at_rest _ = False"

lemma cnt_zero: "(\<forall>pc \<in> set ts. \<not> P pc) \<Longrightarrow> cnt P ts = 0"
  by (simp add: cnt_def filter_empty_conv)

lemma qsys_inv_rest:
  assumes inv: "qsys_inv c s" and rest: "\<forall>pc \<in> set (y_threads s). at_rest pc"
  shows "sq_inv (y_q s)" "sq_list (y_q s) = drop (length (y_popped s)) (y_pushed s)"
proof -
  note I = qsys_invD [OF inv]
  let ?ts = "y_threads s" and ?W = "length (y_pushed s)" and ?R = "length (y_popped s)"
  have "\<not> P pc" if "P \<in> {w_token, r_pending, r_token, w_pending, in_crit, w_lag, r_lag, inc_lag, dec_lag}"
    "pc \<in> set ?ts" for P pc
    using rest that by (cases pc) auto
  then have z: "cnt P ?ts = 0"
    if "P \<in> {w_token, r_pending, r_token, w_pending, in_crit, w_lag, r_lag, inc_lag, dec_lag}" for P
    using that by (intro cnt_zero) blast
  have W: "?W - ?R \<le> c" using I(7) by linarith
  have "(?R mod c + (?W - ?R)) mod c = (?R + (?W - ?R)) mod c" by (rule mod_add_left_eq)
  with I(5) have idx: "(?R mod c + (?W - ?R)) mod c = ?W mod c" by simp
  have n: "q_nentries (y_q s) = int (?W - ?R)" using I(5,14) z by simp
  show "sq_inv (y_q s)"
    by (rule sq_invI [of _ "?R mod c" "?W - ?R"])
       (use I W idx n z in \<open>simp_all split: if_splits\<close>)
  have "sq_list (y_q s) = map (\<lambda>k. q_msg (y_q s) ! ((?R + k) mod c)) [0..<?W - ?R]"
    using I(3,13) n z by (simp add: sq_list_nat mod_add_left_eq)
  also have "\<dots> = map (\<lambda>k. y_pushed s ! (?R + k)) [0..<?W - ?R]"
    using I(10) by (intro map_cong) auto
  also have "\<dots> = drop ?R (y_pushed s)"
    by (rule nth_equalityI) (use I(5) in simp_all)
  finally show "sq_list (y_q s) = drop ?R (y_pushed s)" .
qed


section \<open>Progress\<close>

text \<open>The statements a thread has still to execute.\<close>

fun remaining :: "thread_pc \<Rightarrow> nat" where
  "remaining (Push_Wait m d) = 7" | "remaining (Push_Lock m) = 6" | "remaining (Push_Store m) = 5"
| "remaining Push_Advance = 4" | "remaining Push_Count = 3" | "remaining Push_Unlock = 2"
| "remaining Push_Post = 1"
| "remaining (Pop_Wait d) = 7" | "remaining Pop_Lock = 6" | "remaining Pop_Load = 5"
| "remaining (Pop_Advance m) = 4" | "remaining (Pop_Count m) = 3" | "remaining (Pop_Unlock m) = 2"
| "remaining (Pop_Post m) = 1"
| "remaining _ = 0"

definition work :: "qsys \<Rightarrow> nat" where
  "work s = sum_list (map remaining (y_threads s))"

lemma sum_list_update_less:
  fixes f :: "'a \<Rightarrow> nat"
  assumes "i < length xs" "f x < f (xs ! i)"
  shows "sum_list (map f (xs[i := x])) < sum_list (map f xs)"
  using assms
proof (induction xs arbitrary: i)
  case (Cons a xs)
  then show ?case by (cases i) auto
qed simp

lemma work_less:
  "at_pc s i old \<Longrightarrow> remaining new < remaining old \<Longrightarrow> y_threads s' = (y_threads s)[i := new] \<Longrightarrow>
     work s' < work s"
  by (simp add: work_def sum_list_update_less)

lemma work_zero: "work s = 0 \<longleftrightarrow> (\<forall>pc \<in> set (y_threads s). remaining pc = 0)"
  by (simp add: work_def)

lemma work_stepI:
  "q_step sz s s' \<Longrightarrow> at_pc s i old \<Longrightarrow> y_threads s' = (y_threads s)[i := new] \<Longrightarrow>
     remaining new < remaining old \<Longrightarrow> \<exists>s'. q_step sz s s' \<and> work s' < work s"
  using work_less [of i s old new s'] by blast

text \<open>A thread that is not waiting and not before a lock can go on.\<close>

lemma step_defined:
  assumes "stmt_defined (y_q s) pc" and pc: "at_pc s i pc" and "\<not> at_rest pc"
    "\<not> (\<exists>m. pc = Push_Lock m)" "pc \<noteq> Pop_Lock"
  shows "\<exists>s'. q_step sz s s' \<and> work s' < work s"
proof (cases pc)
  case (Push_Store m)
  with assms obtain q where "push_store m (y_q s) = Some q" by auto
  from push_store [OF _ this, of i sz] pc Push_Store show ?thesis by (auto intro: work_stepI [OF _ pc])
next
  case Push_Advance
  with assms obtain q where "push_advance (y_q s) = Some q" by auto
  from push_advance [OF _ this, of i sz] pc Push_Advance show ?thesis by (auto intro: work_stepI [OF _ pc])
next
  case Push_Count
  with assms obtain q where "push_count (y_q s) = Some q" by auto
  from push_count [OF _ this, of i sz] pc Push_Count show ?thesis by (auto intro: work_stepI [OF _ pc])
next
  case Push_Unlock
  with push_unlock [of i s sz] pc show ?thesis by (auto intro: work_stepI [OF _ pc])
next
  case Push_Post
  with push_post [of i s sz] pc show ?thesis by (auto intro: work_stepI [OF _ pc])
next
  case Pop_Load
  with assms obtain m where "pop_load (y_q s) = Some m" by auto
  from pop_load [OF _ this, of i sz] pc Pop_Load show ?thesis by (auto intro: work_stepI [OF _ pc])
next
  case (Pop_Advance m)
  with assms obtain q where "pop_advance (y_q s) = Some q" by auto
  from pop_advance [OF _ this, of i m sz] pc Pop_Advance show ?thesis by (auto intro: work_stepI [OF _ pc])
next
  case (Pop_Count m)
  with assms obtain q where "pop_count (y_q s) = Some q" by auto
  from pop_count [OF _ this, of i m sz] pc Pop_Count show ?thesis by (auto intro: work_stepI [OF _ pc])
next
  case (Pop_Unlock m)
  with pop_unlock [of i s m sz] pc show ?thesis by (auto intro: work_stepI [OF _ pc])
next
  case (Pop_Post m)
  with pop_post [of i s m sz] pc show ?thesis by (auto intro: work_stepI [OF _ pc])
qed (use assms in simp_all)

lemma step_lock:
  assumes pc: "at_pc s i pc" and "pc = Push_Lock m \<or> pc = Pop_Lock" "\<not> q_locked (y_q s)"
  shows "\<exists>s'. q_step sz s s' \<and> work s' < work s"
proof -
  have "q_lock (y_q s) = Some ((y_q s)\<lparr>q_locked := True\<rparr>)" using assms(3) by (simp add: q_lock_def)
  from push_lock [OF _ this, of i m sz] pop_lock [OF _ this, of i sz] assms(1,2) show ?thesis
    by (auto intro: work_stepI [OF _ pc])
qed

text \<open>A waiting thread takes a token, or the deadline comes.\<close>

lemma step_waiting:
  assumes pc: "at_pc s i pc" and wait: "pc = Push_Wait m d \<or> pc = Pop_Wait d" and "d \<le> y_now s"
  shows "\<exists>s'. q_step sz s s' \<and> work s' < work s"
  using wait
proof
  assume "pc = Push_Wait m d"
  with pc push_wait [of i s m d sz] push_timeout [of i s m d sz] assms(3) show ?thesis
    by (cases "0 < q_write_sem (y_q s)") (auto intro: work_stepI [OF _ pc])
next
  assume "pc = Pop_Wait d"
  with pc pop_wait [of i s d sz] pop_timeout [of i s d sz] assms(3) show ?thesis
    by (cases "0 < q_read_sem (y_q s)") (auto intro: work_stepI [OF _ pc])
qed


lemma qsys_progress:
  assumes inv: "qsys_inv c s" and busy: "work s \<noteq> 0"
  shows "\<exists>s'. (q_step sz)\<^sup>*\<^sup>* s s' \<and> work s' < work s"
proof -
  note I = qsys_invD [OF inv]
  let ?ts = "y_threads s"
  have one: ?thesis if "\<exists>s'. q_step sz s s' \<and> work s' < work s" using that by blast
  have go: ?thesis if at: "at_pc s i pc" "\<not> at_rest pc" "\<not> (\<exists>m. pc = Push_Lock m)" "pc \<noteq> Pop_Lock"
    for i pc
    using step_defined [OF _ at, of sz] qsys_inv_defined [OF inv, of i] at(1) by (intro one) simp
  obtain i where i: "i < length ?ts" "remaining (?ts ! i) \<noteq> 0"
    using busy by (auto simp: work_zero in_set_conv_nth)
  show ?thesis
  proof (cases "q_locked (y_q s)")
    case True
    with I(9) have "\<not> (\<forall>pc \<in> set ?ts. \<not> in_crit pc)" using cnt_zero [of ?ts in_crit] by auto
    then obtain j where "j < length ?ts" "in_crit (?ts ! j)" by (auto simp: in_set_conv_nth)
    then show ?thesis by (intro go [of j "?ts ! j"]) (cases "?ts ! j"; simp)+
  next
    case False
    show ?thesis
    proof (cases "(\<exists>m. ?ts ! i = Push_Lock m) \<or> ?ts ! i = Pop_Lock")
      case True
      with i(1) False show ?thesis by (intro one) (auto intro: step_lock)
    next
      case nolock: False
      show ?thesis
      proof (cases "at_rest (?ts ! i)")
        case True
        with i obtain m d where w: "?ts ! i = Push_Wait m d \<or> ?ts ! i = Pop_Wait d"
          by (cases "?ts ! i") auto
        let ?s = "s\<lparr>y_now := max (y_now s) d\<rparr>"
        have "\<exists>s'. q_step sz ?s s' \<and> work s' < work ?s"
          using i(1) w by (intro step_waiting [of i ?s "?ts ! i" m d]) simp_all
        moreover have "q_step sz s ?s" by (rule tick) simp
        ultimately show ?thesis
          by (auto simp: work_def intro: converse_rtranclp_into_rtranclp)
      next
        case False
        with i(1) nolock show ?thesis by (intro go [of i "?ts ! i"]) simp_all
      qed
    qed
  qed
qed

lemma q_steps_inv:
  "(q_step sz)\<^sup>*\<^sup>* s s' \<Longrightarrow> qsys_inv c s \<Longrightarrow> qsys_inv c s'"
  by (induction rule: rtranclp_induct) (auto intro: q_step_inv)

lemma qsys_completes:
  "qsys_inv c s \<Longrightarrow> \<exists>s'. (q_step sz)\<^sup>*\<^sup>* s s' \<and> work s' = 0"
proof (induction "work s" arbitrary: s rule: less_induct)
  case less
  show ?case
  proof (cases "work s = 0")
    case False
    with less.prems obtain s1 where s1: "(q_step sz)\<^sup>*\<^sup>* s s1" "work s1 < work s"
      using qsys_progress [of c s sz] by blast
    with less.hyps [OF s1(2) q_steps_inv [OF s1(1) less.prems]] show ?thesis
      by (meson rtranclp_trans)
  qed blast
qed


section \<open>Calls as runs\<close>

lemma set_pc_at: "i < length (y_threads s) \<Longrightarrow> at_pc (set_pc i pc s) i pc"
  by simp

lemma push_run:
  assumes pc: "at_pc s i pc" "pc = Idle \<or> pc = Returned e r"
    and call: "io4e_streamq_push sz (y_now s) (y_q s) m t = Some (err, q', now')"
  shows "\<exists>s'. (q_step sz)\<^sup>*\<^sup>* s s' \<and> y_q s' = q' \<and> y_now s' = now' \<and>
    y_threads s' = (y_threads s)[i := Returned err None] \<and>
    y_pushed s' = y_pushed s @ (if err = IO4E_OK then [m] else []) \<and> y_popped s' = y_popped s"
proof -
  let ?d = "get_timeout sz (y_now s) t"
  let ?s0 = "set_pc i (Push_Wait m ?d) s"
  have 0: "q_step sz s ?s0" using pc by (rule call_push)
  show ?thesis
  proof (cases "0 < q_write_sem (y_q s)")
    case False
    let ?s1 = "?s0\<lparr>y_now := max (y_now s) ?d\<rparr>"
    have 1: "q_step sz ?s0 ?s1" by (rule tick) simp
    have 2: "q_step sz ?s1 (set_pc i (Returned IO4E_ERR_TIMEOUT None) ?s1)"
      using False pc by (intro push_timeout [of i _ m ?d]) simp_all
    have r: "(q_step sz)\<^sup>*\<^sup>* s (set_pc i (Returned IO4E_ERR_TIMEOUT None) ?s1)"
      using 0 1 2 by (meson converse_rtranclp_into_rtranclp r_into_rtranclp)
    show ?thesis
      by (rule exI, rule conjI, rule r)
         (use call False pc in \<open>auto simp: io4e_streamq_push_def sem_timedwait_def err_defs\<close>)
  next
    case True
    let ?q1 = "(y_q s)\<lparr>q_write_sem := q_write_sem (y_q s) - 1\<rparr>"
    from call True obtain q2 q3 q4 q5 where
      qs: "q_lock ?q1 = Some q2" "push_store m q2 = Some q3" "push_advance q3 = Some q4"
        "push_count q4 = Some q5" and
      res: "err = IO4E_OK" "now' = y_now s"
        "q' = (q_unlock q5)\<lparr>q_read_sem := sem_post (q_read_sem (q_unlock q5))\<rparr>"
      by (auto simp: io4e_streamq_push_def sem_timedwait_def Let_def bind_eq_Some_conv)
    let ?s1 = "set_pc i (Push_Lock m) (?s0\<lparr>y_q := ?q1\<rparr>)"
    let ?s2 = "set_pc i (Push_Store m) (?s1\<lparr>y_q := q2\<rparr>)"
    let ?s3 = "set_pc i Push_Advance (?s2\<lparr>y_q := q3, y_pushed := y_pushed ?s2 @ [m]\<rparr>)"
    let ?s4 = "set_pc i Push_Count (?s3\<lparr>y_q := q4\<rparr>)"
    let ?s5 = "set_pc i Push_Unlock (?s4\<lparr>y_q := q5\<rparr>)"
    let ?s6 = "set_pc i Push_Post (?s5\<lparr>y_q := q_unlock (y_q ?s5)\<rparr>)"
    let ?s7 = "set_pc i (Returned IO4E_OK None)
      (?s6\<lparr>y_q := (y_q ?s6)\<lparr>q_read_sem := sem_post (q_read_sem (y_q ?s6))\<rparr>\<rparr>)"
    have 1: "q_step sz ?s0 ?s1" using push_wait [of i ?s0 m ?d sz] pc True by simp
    have 2: "q_step sz ?s1 ?s2" using pc qs by (intro push_lock) simp_all
    have 3: "q_step sz ?s2 ?s3" using pc qs by (intro push_store) simp_all
    have 4: "q_step sz ?s3 ?s4" using pc qs by (intro push_advance) simp_all
    have 5: "q_step sz ?s4 ?s5" using pc qs by (intro push_count) simp_all
    have 6: "q_step sz ?s5 ?s6" using pc by (intro push_unlock) simp_all
    have 7: "q_step sz ?s6 ?s7" using pc by (intro push_post) simp_all
    have r: "(q_step sz)\<^sup>*\<^sup>* s ?s7"
      using 0 1 2 3 4 5 6 7 by (meson converse_rtranclp_into_rtranclp r_into_rtranclp)
    show ?thesis by (rule exI, rule conjI, rule r) (use res in simp)
  qed
qed

lemma pop_run:
  assumes pc: "at_pc s i pc" "pc = Idle \<or> pc = Returned e r"
    and call: "io4e_streamq_pop sz (y_now s) (y_q s) t = Some (err, msg, q', now')"
  shows "\<exists>s'. (q_step sz)\<^sup>*\<^sup>* s s' \<and> y_q s' = q' \<and> y_now s' = now' \<and>
    y_threads s' = (y_threads s)[i := Returned err msg] \<and>
    y_popped s' = y_popped s @ (case msg of None \<Rightarrow> [] | Some m \<Rightarrow> [m]) \<and>
    y_pushed s' = y_pushed s"
proof -
  let ?d = "get_timeout sz (y_now s) t"
  let ?s0 = "set_pc i (Pop_Wait ?d) s"
  have 0: "q_step sz s ?s0" using pc by (rule call_pop)
  show ?thesis
  proof (cases "0 < q_read_sem (y_q s)")
    case False
    let ?s1 = "?s0\<lparr>y_now := max (y_now s) ?d\<rparr>"
    have 1: "q_step sz ?s0 ?s1" by (rule tick) simp
    have 2: "q_step sz ?s1 (set_pc i (Returned IO4E_ERR_TIMEOUT None) ?s1)"
      using False pc by (intro pop_timeout [of i _ ?d]) simp_all
    have r: "(q_step sz)\<^sup>*\<^sup>* s (set_pc i (Returned IO4E_ERR_TIMEOUT None) ?s1)"
      using 0 1 2 by (meson converse_rtranclp_into_rtranclp r_into_rtranclp)
    show ?thesis
      by (rule exI, rule conjI, rule r)
         (use call False pc in \<open>auto simp: io4e_streamq_pop_def sem_timedwait_def err_defs\<close>)
  next
    case True
    let ?q1 = "(y_q s)\<lparr>q_read_sem := q_read_sem (y_q s) - 1\<rparr>"
    from call True obtain q2 m q3 q4 where
      qs: "q_lock ?q1 = Some q2" "pop_load q2 = Some m" "pop_advance q2 = Some q3"
        "pop_count q3 = Some q4" and
      res: "err = IO4E_OK" "msg = Some m" "now' = y_now s"
        "q' = (q_unlock q4)\<lparr>q_write_sem := sem_post (q_write_sem (q_unlock q4))\<rparr>"
      by (auto simp: io4e_streamq_pop_def sem_timedwait_def Let_def bind_eq_Some_conv)
    let ?s1 = "set_pc i Pop_Lock (?s0\<lparr>y_q := ?q1\<rparr>)"
    let ?s2 = "set_pc i Pop_Load (?s1\<lparr>y_q := q2\<rparr>)"
    let ?s3 = "set_pc i (Pop_Advance m) (?s2\<lparr>y_popped := y_popped ?s2 @ [m]\<rparr>)"
    let ?s4 = "set_pc i (Pop_Count m) (?s3\<lparr>y_q := q3\<rparr>)"
    let ?s5 = "set_pc i (Pop_Unlock m) (?s4\<lparr>y_q := q4\<rparr>)"
    let ?s6 = "set_pc i (Pop_Post m) (?s5\<lparr>y_q := q_unlock (y_q ?s5)\<rparr>)"
    let ?s7 = "set_pc i (Returned IO4E_OK (Some m))
      (?s6\<lparr>y_q := (y_q ?s6)\<lparr>q_write_sem := sem_post (q_write_sem (y_q ?s6))\<rparr>\<rparr>)"
    have 1: "q_step sz ?s0 ?s1" using pop_wait [of i ?s0 ?d sz] pc True by simp
    have 2: "q_step sz ?s1 ?s2" using pc qs by (intro pop_lock) simp_all
    have 3: "q_step sz ?s2 ?s3" using pc qs by (intro pop_load) simp_all
    have 4: "q_step sz ?s3 ?s4" using pc qs by (intro pop_advance) simp_all
    have 5: "q_step sz ?s4 ?s5" using pc qs by (intro pop_count) simp_all
    have 6: "q_step sz ?s5 ?s6" using pc by (intro pop_unlock) simp_all
    have 7: "q_step sz ?s6 ?s7" using pc by (intro pop_post) simp_all
    have r: "(q_step sz)\<^sup>*\<^sup>* s ?s7"
      using 0 1 2 3 4 5 6 7 by (meson converse_rtranclp_into_rtranclp r_into_rtranclp)
    show ?thesis by (rule exI, rule conjI, rule r) (use res in simp)
  qed
qed


section \<open>Properties\<close>

lemma q_reachable_steps: "(q_step sz)\<^sup>*\<^sup>* s s' \<Longrightarrow> q_reachable sz c s \<Longrightarrow> q_reachable sz c s'"
  by (induction rule: rtranclp_induct) (auto intro: q_reachable.step)

text \<open>
  A queue of two slots and two threads: the first has pushed message 7, the second stands before
  the store of message 8.
\<close>

definition demo_qsys :: qsys where
  "demo_qsys =
     \<lparr>y_q = \<lparr>q_msg = [7, 0], q_capacity = 2, q_write_idx = 1, q_read_idx = 0, q_nentries = 1,
              q_write_sem = 0, q_read_sem = 1, q_locked = True\<rparr>,
      y_threads = [Returned IO4E_OK None, Push_Store 8], y_now = 100, y_pushed = [7], y_popped = []\<rparr>"

lemma replicate_two: "replicate 2 x = [x, x]"
  by (simp add: numeral_2_eq_2)

lemma demo_qsys_reachable: "q_reachable 8 2 demo_qsys"
proof -
  define q where "q = \<lparr>q_msg = [0 :: nat, 0], q_capacity = 2, q_write_idx = 0, q_read_idx = 0,
    q_nentries = 0, q_write_sem = 2, q_read_sem = 0, q_locked = False\<rparr>"
  have new: "io4e_streamq_new 2 \<lparr>b_fail = [], b_live = 0\<rparr> = (IO4E_OK, Some q, \<lparr>b_fail = [], b_live = 2\<rparr>)"
    by (simp add: io4e_streamq_new_def calloc_block_def q_def sem_init_value_def SEM_VALUE_MAX_def
        NULL_def replicate_two)
  let ?s0 = "qsys_init q 2 100"
  let ?q1 = "\<lparr>q_msg = [7, 0], q_capacity = 2, q_write_idx = 1, q_read_idx = 0, q_nentries = 1,
    q_write_sem = 1, q_read_sem = 1, q_locked = False\<rparr>"
  have push: "io4e_streamq_push 8 100 q 7 0 = Some (IO4E_OK, ?q1, 100)"
    by (simp add: io4e_streamq_push_def sem_timedwait_def q_lock_def push_store_def push_advance_def
        push_count_def q_unlock_def q_def array_put_def advance_idx_def int_to_size_def to_int_def
        int_add_def sem_post_def SEM_VALUE_MAX_def)
  have "at_pc ?s0 0 Idle" by (simp add: qsys_init_def)
  from push_run [OF this, of IO4E_OK None 8 7 0 IO4E_OK ?q1 100] push obtain s1 where
    s1: "(q_step 8)\<^sup>*\<^sup>* ?s0 s1" "y_q s1 = ?q1" "y_now s1 = 100"
    "y_threads s1 = [Returned IO4E_OK None, Idle]" "y_pushed s1 = [7]" "y_popped s1 = []"
    by (auto simp: qsys_init_def replicate_two)
  then have s1eq: "s1 = \<lparr>y_q = ?q1, y_threads = [Returned IO4E_OK None, Idle], y_now = 100,
      y_pushed = [7], y_popped = []\<rparr>" by (cases s1) simp
  let ?d = "get_timeout 8 100 0"
  have 1: "q_step 8 s1 (set_pc 1 (Push_Wait 8 ?d) s1)"
    using call_push [of 1 s1 Idle IO4E_OK None 8 8 0] s1 by simp
  have 2: "q_step 8 (set_pc 1 (Push_Wait 8 ?d) s1)
      (set_pc 1 (Push_Lock 8) (s1\<lparr>y_q := ?q1\<lparr>q_write_sem := 0\<rparr>\<rparr>))"
    using push_wait [of 1 "set_pc 1 (Push_Wait 8 ?d) s1" 8 ?d 8] s1 by simp
  have 3: "q_step 8 (set_pc 1 (Push_Lock 8) (s1\<lparr>y_q := ?q1\<lparr>q_write_sem := 0\<rparr>\<rparr>)) demo_qsys"
    using push_lock [of 1 "set_pc 1 (Push_Lock 8) (s1\<lparr>y_q := ?q1\<lparr>q_write_sem := 0\<rparr>\<rparr>)" 8 _ 8] s1eq
    by (simp add: q_lock_def demo_qsys_def)
  from 1 2 3 have "(q_step 8)\<^sup>*\<^sup>* s1 demo_qsys"
    by (meson converse_rtranclp_into_rtranclp r_into_rtranclp)
  with s1(1) show ?thesis
    using q_reachable.start [OF new, of 8 2 100] by (blast intro: q_reachable_steps)
qed


text \<open>C2 The queue under any interleaving of any number of pushing and popping threads: the messages
  popped so far are the oldest pushed ones, in the order of the stores, none lost, doubled or
  invented, and never more than the capacity are in the queue.\<close>

theorem streamq_conc_fifo:
  assumes "q_reachable sz c s" "0 < c" "c \<le> SEM_VALUE_MAX"
  shows "y_popped s = take (length (y_popped s)) (y_pushed s) \<and>
    length (y_popped s) \<le> length (y_pushed s) \<and>
    length (y_pushed s) \<le> length (y_popped s) + c"
proof -
  note I = qsys_invD [OF q_reachable_inv [OF assms]]
  from I(7) have "length (y_pushed s) \<le> length (y_popped s) + c" by linarith
  with I(5,6) show ?thesis by simp
qed

theorem streamq_conc_fifo_witness:
  "y_popped demo_qsys = take (length (y_popped demo_qsys)) (y_pushed demo_qsys) \<and>
    length (y_popped demo_qsys) \<le> length (y_pushed demo_qsys) \<and>
    length (y_pushed demo_qsys) \<le> length (y_popped demo_qsys) + 2"
  by (rule streamq_conc_fifo [OF demo_qsys_reachable]) (simp_all add: SEM_VALUE_MAX_def)

text \<open>C8 The critical sections exclude each other, the mutex is held exactly while a thread is in
  one, and every statement a thread can stand before is defined there: no index outside the array,
  no division by a capacity of zero and no overflow of the counter, whatever the other threads do.\<close>

theorem streamq_conc_safe:
  assumes "q_reachable sz c s" "0 < c" "c \<le> SEM_VALUE_MAX"
    and "i < length (y_threads s)" "j < length (y_threads s)"
  shows "stmt_defined (y_q s) (y_threads s ! i) \<and>
    (in_crit (y_threads s ! i) \<and> in_crit (y_threads s ! j) \<longrightarrow> i = j) \<and>
    (in_crit (y_threads s ! i) \<longrightarrow> q_locked (y_q s))"
proof -
  note inv = q_reachable_inv [OF assms(1-3)]
  note I = qsys_invD [OF inv]
  have "i = j" if "in_crit (y_threads s ! i)" "in_crit (y_threads s ! j)"
    using assms(4,5) that I(9) by (intro crit_unique) (simp_all split: if_splits)
  moreover have "q_locked (y_q s)" if "in_crit (y_threads s ! i)"
    using crit_self(1) [OF I(9) assms(4), of in_crit] that by simp
  ultimately show ?thesis using qsys_inv_defined [OF inv assms(4)] by blast
qed

theorem streamq_conc_safe_witness:
  "stmt_defined (y_q demo_qsys) (Push_Store 8) \<and> q_locked (y_q demo_qsys)"
proof -
  have "1 < length (y_threads demo_qsys)" "y_threads demo_qsys ! 1 = Push_Store 8"
    by (simp_all add: demo_qsys_def)
  with streamq_conc_safe [OF demo_qsys_reachable _ _ this(1) this(1)]
  show ?thesis by (simp add: SEM_VALUE_MAX_def)
qed

text \<open>C9 The threads never deadlock and none is stuck: from every reachable state there is a run after
  which every call in progress has returned (or its thread is cancelled), and then the queue again
  satisfies its sequential invariant and holds exactly the messages pushed and not yet popped.\<close>

theorem streamq_conc_completes:
  assumes "q_reachable sz c s" "0 < c" "c \<le> SEM_VALUE_MAX"
  shows "\<exists>s'. (q_step sz)\<^sup>*\<^sup>* s s' \<and>
    (\<forall>pc \<in> set (y_threads s'). pc = Idle \<or> (\<exists>e r. pc = Returned e r) \<or> pc = Cancelled) \<and>
    sq_inv (y_q s') \<and> sq_list (y_q s') = drop (length (y_popped s')) (y_pushed s')"
proof -
  note inv = q_reachable_inv [OF assms]
  from qsys_completes [OF inv, of sz] obtain s' where
    s': "(q_step sz)\<^sup>*\<^sup>* s s'" and "work s' = 0" by blast
  then have zero: "\<forall>pc \<in> set (y_threads s'). remaining pc = 0" by (simp add: work_zero)
  have fin: "pc = Idle \<or> (\<exists>e r. pc = Returned e r) \<or> pc = Cancelled" if "remaining pc = 0" for pc
    using that by (cases pc) auto
  have "\<forall>pc \<in> set (y_threads s'). at_rest pc" 
  proof
    fix pc assume "pc \<in> set (y_threads s')"
    with zero have "remaining pc = 0" by blast
    then show "at_rest pc" using fin [of pc] by (cases pc) simp_all
  qed
  from qsys_inv_rest [OF q_steps_inv [OF s' inv] this] s' zero fin show ?thesis by blast
qed

theorem streamq_conc_completes_witness:
  "\<exists>s'. (q_step 8)\<^sup>*\<^sup>* demo_qsys s' \<and>
    (\<forall>pc \<in> set (y_threads s'). pc = Idle \<or> (\<exists>e r. pc = Returned e r) \<or> pc = Cancelled) \<and>
    sq_inv (y_q s') \<and> sq_list (y_q s') = drop (length (y_popped s')) (y_pushed s')"
  by (rule streamq_conc_completes [OF demo_qsys_reachable]) (simp_all add: SEM_VALUE_MAX_def)

text \<open>The interleaved model refines to the sequential one: a push or pop that no other thread
  disturbs is a run of the thread's statements with the result, the queue and the clock of
  \<open>io4e_streamq_push\<close> and \<open>io4e_streamq_pop\<close>.\<close>

theorem streamq_calls_are_runs:
  assumes "at_pc s i Idle"
  shows "(io4e_streamq_push sz (y_now s) (y_q s) m t = Some (err, q1, n1) \<longrightarrow>
      (\<exists>s'. (q_step sz)\<^sup>*\<^sup>* s s' \<and> y_q s' = q1 \<and> y_now s' = n1 \<and>
        y_threads s' = (y_threads s)[i := Returned err None])) \<and>
    (io4e_streamq_pop sz (y_now s) (y_q s) t = Some (err, msg, q2, n2) \<longrightarrow>
      (\<exists>s'. (q_step sz)\<^sup>*\<^sup>* s s' \<and> y_q s' = q2 \<and> y_now s' = n2 \<and>
        y_threads s' = (y_threads s)[i := Returned err msg]))"
  using push_run [OF assms, of undefined undefined sz m t err q1 n1]
    pop_run [OF assms, of undefined undefined sz t err msg q2 n2] by blast

theorem streamq_calls_are_runs_witness:
  "\<exists>s'. (q_step 8)\<^sup>*\<^sup>* (qsys_init demo_q 1 50) s' \<and> y_q s' = demo_q \<and> y_now s' = 53 \<and>
     y_threads s' = [Returned IO4E_ERR_TIMEOUT None]"
proof -
  have "at_pc (qsys_init demo_q 1 50) 0 Idle" by (simp add: qsys_init_def)
  from streamq_calls_are_runs [OF this, of 8 9 3 IO4E_ERR_TIMEOUT demo_q 53]
  show ?thesis
    by (simp add: qsys_init_def io4e_streamq_push_def sem_timedwait_def demo_q_def get_timeout_def)
qed

end
