(* ===== verification/Streamq_Tests.thy ===== *)
theory Streamq_Tests
  imports Streamq
begin

text \<open>
  The single threaded unit tests of the queue (\<open>tests/test_streamq.cc\<close>) over its model: a test is
  the list of the outcomes of its expectations, which go on after a failed one, an assertion that
  ends the test at once; \<open>None\<close> is a crash (a queue that was not created, a wait that never ends).
  The clock is a parameter, so the tests pass at every time. The two tests with a second thread are
  instances of what \<open>Streamq_Conc\<close> shows, less their waits.
\<close>

section \<open>The loops of the tests\<close>

fun expect_pushes ::
  "nat \<Rightarrow> int \<Rightarrow> streamq_t \<Rightarrow> ptr list \<Rightarrow> (bool list \<times> streamq_t \<times> int) option" where
  "expect_pushes sz now q [] = Some ([], q, now)"
| "expect_pushes sz now q (i # is) = do {
     (err, q, now) \<leftarrow> io4e_streamq_push sz now q i 0;
     (es, q, now) \<leftarrow> expect_pushes sz now q is;
     Some ((err = IO4E_OK) # es, q, now) }"

text \<open>\<open>p\<close> keeps the message of the last successful \<open>pop\<close>; it is not initialised (\<open>None\<close>) before.\<close>

fun expect_pops ::
  "nat \<Rightarrow> int \<Rightarrow> streamq_t \<Rightarrow> ptr option \<Rightarrow> ptr list
     \<Rightarrow> (bool list \<times> streamq_t \<times> ptr option \<times> int) option" where
  "expect_pops sz now q p [] = Some ([], q, p, now)"
| "expect_pops sz now q p (i # is) = do {
     (err, msg, q, now) \<leftarrow> io4e_streamq_pop sz now q 0;
     let p = (if msg = None then p else msg);
     let es1 = [err = IO4E_OK, p = Some i];
     (es, q, p, now) \<leftarrow> expect_pops sz now q p is;
     Some (es1 @ es, q, p, now) }"


section \<open>The tests\<close>

definition test_initial_empty :: "blocks \<Rightarrow> (bool list \<times> blocks) option" where
  "test_initial_empty b =
     (case io4e_streamq_new 5 b of (err, q, b) \<Rightarrow>
      case q of
        None \<Rightarrow> Some ([err = IO4E_OK, False], b)
      | Some q \<Rightarrow> do {
          (n, q) \<leftarrow> io4e_streamq_entries q;
          let b = snd (io4e_streamq_delete (Some q) b);
          Some ([err = IO4E_OK, True, n = 0], b) })"

definition test_push_pop :: "nat \<Rightarrow> int \<Rightarrow> blocks \<Rightarrow> (bool list \<times> blocks) option" where
  "test_push_pop sz now b = do {
     let (err, q, b) = io4e_streamq_new 5 b;
     q \<leftarrow> q;
     (e1, q, now) \<leftarrow> expect_pushes sz now q [0..<5];
     (n1, q) \<leftarrow> io4e_streamq_entries q;
     (e2, q, p, now) \<leftarrow> expect_pops sz now q None [0..<5];
     (e3, q, now) \<leftarrow> expect_pushes sz now q [0..<5];
     (err1, q, now) \<leftarrow> io4e_streamq_push sz now q 6 0;
     (n2, q) \<leftarrow> io4e_streamq_entries q;
     (e4, q, p, now) \<leftarrow> expect_pops sz now q p [0..<5];
     (err2, msg, q, now) \<leftarrow> io4e_streamq_pop sz now q 0;
     let b = snd (io4e_streamq_delete (Some q) b);
     Some (e1 @ [n1 = 5] @ e2 @ e3 @ [err1 = IO4E_ERR_TIMEOUT, n2 = 5] @ e4 @
           [err2 = IO4E_ERR_TIMEOUT], b) }"


section \<open>They pass\<close>

lemma expect_pushes_ok:
  assumes "sq_inv q" "length (sq_list q) + length is \<le> q_capacity q"
  obtains es q' where "expect_pushes sz now q is = Some (es, q', now)" "list_all (\<lambda>e. e) es"
    "sq_inv q'" "sq_list q' = sq_list q @ is" "q_capacity q' = q_capacity q"
  using assms
proof (induction "is" arbitrary: q thesis)
  case Nil
  show ?case by (rule Nil.prems(1) [of "[]" q]) (use Nil.prems(2,3) in simp_all)
next
  case (Cons i "is")
  from Cons.prems(3) have "length (sq_list q) < q_capacity q" by simp
  then obtain q1 where q1: "io4e_streamq_push sz now q i 0 = Some (IO4E_OK, q1, now)" "sq_inv q1"
    "sq_list q1 = sq_list q @ [i]" "q_capacity q1 = q_capacity q"
    by (rule push_ok [OF Cons.prems(2)])
  from q1 Cons.prems(3) have "length (sq_list q1) + length is \<le> q_capacity q1" by simp
  then obtain es q2 where "expect_pushes sz now q1 is = Some (es, q2, now)" "list_all (\<lambda>e. e) es"
    "sq_inv q2" "sq_list q2 = sq_list q1 @ is" "q_capacity q2 = q_capacity q1"
    using Cons.IH [OF _ q1(2)] by blast
  with q1 show ?case by (intro Cons.prems(1) [of "True # es" q2]) simp_all
qed

lemma expect_pops_ok:
  assumes "sq_inv q" "sq_list q = is @ xs"
  obtains es q' p' where "expect_pops sz now q p is = Some (es, q', p', now)"
    "list_all (\<lambda>e. e) es" "sq_inv q'" "sq_list q' = xs" "q_capacity q' = q_capacity q"
  using assms
proof (induction "is" arbitrary: q p thesis)
  case Nil
  show ?case by (rule Nil.prems(1) [of "[]" q p]) (use Nil.prems(2,3) in simp_all)
next
  case (Cons i "is")
  from Cons.prems(3) have "sq_list q = i # is @ xs" by simp
  then obtain q1 where q1: "io4e_streamq_pop sz now q 0 = Some (IO4E_OK, Some i, q1, now)"
    "sq_inv q1" "sq_list q1 = is @ xs" "q_capacity q1 = q_capacity q"
    by (rule pop_ok [OF Cons.prems(2)])
  then obtain es q2 p2 where "expect_pops sz now q1 (Some i) is = Some (es, q2, p2, now)"
    "list_all (\<lambda>e. e) es" "sq_inv q2" "sq_list q2 = xs" "q_capacity q2 = q_capacity q1"
    using Cons.IH [OF _ q1(2,3)] by blast
  with q1 show ?case
    by (intro Cons.prems(1) [of "True # True # es" q2 p2]) (simp_all add: Let_def)
qed

lemma calloc_block_ok:
  "b_fail b = [] \<Longrightarrow> calloc_block b = (True, b\<lparr>b_live := Suc (b_live b)\<rparr>)"
  by (simp add: calloc_block_def)

text \<open>When memory suffices both tests pass at any time and on either size of \<open>time_t\<close>, and the
  queue they make is gone afterwards.\<close>

lemma streamq_new_5:
  assumes "b_fail b = []"
  obtains q where "io4e_streamq_new 5 b = (IO4E_OK, Some q, b\<lparr>b_live := b_live b + 2\<rparr>)"
    "sq_inv q" "sq_list q = []" "q_capacity q = 5"
proof -
  obtain q where q: "io4e_streamq_new 5 b = (IO4E_OK, Some q, b\<lparr>b_live := b_live b + 2\<rparr>)"
    using assms by (simp add: io4e_streamq_new_def calloc_block_ok)
  with streamq_new_inv [OF _ _ q] that show ?thesis by (simp add: SEM_VALUE_MAX_def)
qed

lemma streamq_delete_new:
  "snd (io4e_streamq_delete (Some q) (b\<lparr>b_live := Suc (Suc (b_live b))\<rparr>)) = b"
  by (simp add: io4e_streamq_delete_def free_block_def)

theorem test_initial_empty_passes:
  assumes "b_fail b = []"
  shows "test_initial_empty b = Some ([True, True, True], b)"
  by (rule streamq_new_5 [OF assms])
     (simp add: test_initial_empty_def entries_length streamq_delete_new)

theorem test_push_pop_passes:
  assumes "b_fail b = []"
  shows "\<exists>es. test_push_pop sz now b = Some (es, b) \<and> list_all (\<lambda>e. e) es"
proof -
  obtain q where new: "io4e_streamq_new 5 b = (IO4E_OK, Some q, b\<lparr>b_live := b_live b + 2\<rparr>)"
    and q: "sq_inv q" "sq_list q = []" "q_capacity q = 5" by (rule streamq_new_5 [OF assms])
  obtain e1 q1 where s1: "expect_pushes sz now q [0..<5] = Some (e1, q1, now)"
    "list_all (\<lambda>e. e) e1" and q1: "sq_inv q1" "sq_list q1 = [0..<5]" "q_capacity q1 = 5"
    using expect_pushes_ok [of q "[0..<5]" sz now] q by auto
  obtain e2 q2 p2 where s2: "expect_pops sz now q1 None [0..<5] = Some (e2, q2, p2, now)"
    "list_all (\<lambda>e. e) e2" and q2: "sq_inv q2" "sq_list q2 = []" "q_capacity q2 = 5"
    using expect_pops_ok [of q1 "[0..<5]" "[]" sz now None] q1 by auto
  obtain e3 q3 where s3: "expect_pushes sz now q2 [0..<5] = Some (e3, q3, now)"
    "list_all (\<lambda>e. e) e3" and q3: "sq_inv q3" "sq_list q3 = [0..<5]" "q_capacity q3 = 5"
    using expect_pushes_ok [of q2 "[0..<5]" sz now] q2 by auto
  define t where "t = max now (get_timeout sz now 0)"
  have s4: "io4e_streamq_push sz now q3 6 0 = Some (IO4E_ERR_TIMEOUT, q3, t)"
    using push_full [of q3] q3 by (simp add: t_def)
  obtain e5 q5 p5 where s5: "expect_pops sz t q3 p2 [0..<5] = Some (e5, q5, p5, t)"
    "list_all (\<lambda>e. e) e5" and q5: "sq_inv q5" "sq_list q5 = []"
    by (rule expect_pops_ok [of q3 "[0..<5]" "[]" sz t p2]) (use q3 in simp_all)
  show ?thesis
    using s1 s2 s3 s4 s5 new entries_length [OF q1(1)] entries_length [OF q3(1)]
      pop_empty [OF q5, of sz t 0] q1(2) q3(2)
    by (simp add: test_push_pop_def streamq_delete_new Let_def)
qed

end
