(* ===== verification/Posix_Socket.thy ===== *)
theory Posix_Socket
  imports C_Prelude
begin

text \<open>
  The part of the POSIX socket interface that \<open>unix/socket_transport.c\<close> uses, as state passing.
  What the operating system decides is scripted in the socket state, so that a theorem over all
  sockets covers every split of the stream into reads, every short write and every error:
  \<^item> \<open>s_in\<close> is the byte stream the peer sends. After it the peer closes the connection, or, with
    \<open>s_open\<close>, keeps it open and sends nothing more. \<open>s_rd\<close> says what the coming reads do: deliver at
    most so many bytes (at least one, as POSIX has it for a blocking socket) or fail with an \<open>errno\<close>.
    Once the script is used up, a read delivers all it can;
  \<^item> \<open>s_sel\<close> scripts the coming calls of \<open>select\<close>; after it they report what the socket has: readable when
    there are bytes or the end of the stream, otherwise nothing until the timeout;
  \<^item> \<open>s_out\<close> is what was sent. \<open>s_wr\<close> gives the outcome of every write to come (an infinite
    script, since the code may retry for ever); \<open>s_wpos\<close> counts the writes made so far.
\<close>

datatype rd_ev = Rd_Data nat | Rd_Err int
datatype sel_ev = Sel_Ready | Sel_Timeout | Sel_Error
datatype wr_ev = Wr_Data nat | Wr_Err int

record sock =
  s_fd :: int
  s_in :: bytes
  s_open :: bool
  s_rd :: "rd_ev list"
  s_sel :: "sel_ev list"
  s_out :: bytes
  s_wr :: "nat \<Rightarrow> wr_ev"
  s_wpos :: nat

text \<open>The numbers Linux gives these error codes.\<close>

definition EINTR :: int where "EINTR = 4"
definition EAGAIN :: int where "EAGAIN = 11"
definition EWOULDBLOCK :: int where "EWOULDBLOCK = 11"

lemmas errno_defs = EINTR_def EAGAIN_def EWOULDBLOCK_def

text \<open>At most this many bytes are transferred by one call (so the result fits an \<open>int\<close>).\<close>

definition MAX_RW_COUNT :: nat where
  "MAX_RW_COUNT = 2147479552"


section \<open>read\<close>

datatype rd_res = Rd_EOF | Rd_Fail int | Rd_Got bytes

text \<open>
  \<open>None\<close> is a read that never returns: nothing is left in the stream, and the peer neither sends nor
  closes. The socket is a blocking one, and the code sets no timeout on it.
\<close>

definition sys_read :: "sock \<Rightarrow> nat \<Rightarrow> (rd_res \<times> sock) option" where
  "sys_read s len =
     (case s_rd s of
        Rd_Err e # r \<Rightarrow> Some (Rd_Fail e, s\<lparr>s_rd := r\<rparr>)
      | evs \<Rightarrow>
          let quota = (case evs of Rd_Data k # _ \<Rightarrow> max 1 k | _ \<Rightarrow> len);
              n = min (min len MAX_RW_COUNT) quota;
              s' = s\<lparr>s_rd := tl evs\<rparr>
          in if s_in s = [] then (if s_open s then None else Some (Rd_EOF, s'))
             else Some (Rd_Got (take n (s_in s)), s'\<lparr>s_in := drop n (s_in s)\<rparr>))"

lemma sys_read_Got:
  assumes "sys_read s len = Some (Rd_Got bs, s')" "0 < len"
  shows "bs \<noteq> []" "length bs \<le> len" "s_in s = bs @ s_in s'"
  using assms by (auto simp: sys_read_def MAX_RW_COUNT_def Let_def split: list.splits rd_ev.splits if_splits)

lemma sys_read_progress:
  "sys_read s len = Some (Rd_Got bs, s') \<Longrightarrow> 0 < len \<Longrightarrow> len - length bs < len"
  using sys_read_Got(1) [of s len bs s'] by (cases bs) auto

text \<open>Everything a read leaves alone.\<close>

lemma sys_read_frame:
  assumes "sys_read s len = Some (r, s')"
  shows "s_fd s' = s_fd s" "s_sel s' = s_sel s" "s_out s' = s_out s" "s_wr s' = s_wr s"
    "s_wpos s' = s_wpos s" "s_rd s' = tl (s_rd s)" "s_open s' = s_open s"
  using assms by (auto simp: sys_read_def Let_def split: list.splits rd_ev.splits if_splits)

lemma sys_read_not_Got:
  assumes "sys_read s len = Some (r, s')" "\<And>bs. r \<noteq> Rd_Got bs"
  shows "s_in s' = s_in s"
  using assms by (auto simp: sys_read_def Let_def split: list.splits rd_ev.splits if_splits)

lemma sys_read_EOF: "sys_read s len = Some (Rd_EOF, s') \<Longrightarrow> s_in s = [] \<and> \<not> s_open s"
  by (auto simp: sys_read_def Let_def split: list.splits rd_ev.splits if_splits)

lemma sys_read_Fail: "sys_read s len = Some (Rd_Fail e, s') \<Longrightarrow> Rd_Err e \<in> set (s_rd s)"
  by (auto simp: sys_read_def Let_def split: list.splits rd_ev.splits if_splits)

lemma sys_read_blocks: "sys_read s len = None \<Longrightarrow> s_in s = [] \<and> s_open s"
  by (auto simp: sys_read_def Let_def split: list.splits rd_ev.splits if_splits)


section \<open>select\<close>

text \<open>
  \<open>select\<close> on the one descriptor: 0 after the timeout, 1 when it is readable, -1 on an error (a
  negative timeout is one). On Linux a readable socket may still block the next read, so the script
  may say \<open>Sel_Ready\<close> at any time. \<open>FD_SET\<close> writes outside of its \<open>fd_set\<close> for a descriptor that is not
  below \<open>FD_SETSIZE\<close>.
\<close>

definition FD_SETSIZE :: int where
  "FD_SETSIZE = 1024"

definition fd_set_ok :: "int \<Rightarrow> bool" where
  "fd_set_ok fd \<longleftrightarrow> 0 \<le> fd \<and> fd < FD_SETSIZE"

definition sys_select :: "sock \<Rightarrow> int \<Rightarrow> int \<times> sock" where
  "sys_select s timeout_seconds =
     (if timeout_seconds < 0 then (-1, s)
      else case s_sel s of
        [] \<Rightarrow> (if s_in s = [] \<and> s_open s then 0 else 1, s)
      | ev # r \<Rightarrow> ((case ev of Sel_Ready \<Rightarrow> 1 | Sel_Timeout \<Rightarrow> 0 | Sel_Error \<Rightarrow> -1), s\<lparr>s_sel := r\<rparr>))"

lemma sys_select_frame:
  assumes "sys_select s t = (r, s')"
  shows "s_fd s' = s_fd s" "s_in s' = s_in s" "s_rd s' = s_rd s" "s_out s' = s_out s"
    "s_wr s' = s_wr s" "s_wpos s' = s_wpos s" "s_open s' = s_open s"
  using assms by (auto simp: sys_select_def split: list.splits if_splits)


section \<open>write\<close>

datatype wr_res = Wr_Wrote nat | Wr_Failed int

definition sys_write :: "sock \<Rightarrow> bytes \<Rightarrow> wr_res \<times> sock" where
  "sys_write s buf =
     (let s' = s\<lparr>s_wpos := Suc (s_wpos s)\<rparr>
      in case s_wr s (s_wpos s) of
           Wr_Err e \<Rightarrow> (Wr_Failed e, s')
         | Wr_Data k \<Rightarrow>
             let n = min k (min (length buf) MAX_RW_COUNT)
             in (Wr_Wrote n, s'\<lparr>s_out := s_out s @ take n buf\<rparr>))"

lemma sys_write_frame:
  assumes "sys_write s buf = (r, s')"
  shows "s_fd s' = s_fd s" "s_in s' = s_in s" "s_rd s' = s_rd s" "s_sel s' = s_sel s"
    "s_wr s' = s_wr s" "s_wpos s' = Suc (s_wpos s)" "s_open s' = s_open s"
  using assms by (auto simp: sys_write_def Let_def split: wr_ev.splits)

lemma sys_write_Wrote:
  assumes "sys_write s buf = (Wr_Wrote n, s')"
  shows "n \<le> length buf" "s_out s' = s_out s @ take n buf"
  using assms by (auto simp: sys_write_def Let_def split: wr_ev.splits)

lemma sys_write_Failed:
  assumes "sys_write s buf = (Wr_Failed e, s')"
  shows "s_out s' = s_out s" "s_wr s (s_wpos s) = Wr_Err e"
  using assms by (auto simp: sys_write_def Let_def split: wr_ev.splits)

end
