(* ===== verification/Transport.thy ===== *)
theory Transport
  imports Io4e_Err Memory Posix_Socket
begin

text \<open>
  The transport (\<open>io4edge_internal.h\<close>, \<open>transport_t\<close>) and its implementation over a TCP socket
  (\<open>unix/socket_transport.c\<close>): messages framed by two magic bytes and a 32-bit length.
\<close>

section \<open>Reading\<close>

definition FSTREAM_HEADER_SIZE :: nat where
  "FSTREAM_HEADER_SIZE = 6"

definition magic_bytes :: bytes where
  "magic_bytes = [0xFE, 0xED]"

text \<open>
  The loop of \<open>read_complete\<close>; \<open>acc\<close> is what it has put into the buffer so far. Every read that
  returns delivers at least one byte or ends the loop; \<open>None\<close> when a read never returns.
\<close>

function read_complete :: "sock \<Rightarrow> nat \<Rightarrow> bytes \<Rightarrow> (io4e_err_t \<times> bytes \<times> sock) option" where
  "read_complete s len acc =
     (if len = 0 then Some (IO4E_OK, acc, s)
      else case sys_read s len of
             None \<Rightarrow> None
           | Some (Rd_EOF, s') \<Rightarrow> Some (IO4E_ERR_CONNECTION_CLOSED, acc, s')
           | Some (Rd_Fail errno, s') \<Rightarrow> Some (errno, acc, s')
           | Some (Rd_Got bs, s') \<Rightarrow> read_complete s' (len - length bs) (acc @ bs))"
  by pat_completeness auto
termination
  by (relation "measure (\<lambda>(s, len, acc). len)") (auto intro: sys_read_progress)

declare read_complete.simps [simp del]

text \<open>The length field of a header: bytes 2 to 5, least significant first.\<close>

definition hdr_len :: "bytes \<Rightarrow> u32" where
  "hdr_len hdr =
     ((ucast (hdr ! 2) OR push_bit 8 (ucast (hdr ! 3)))
       OR push_bit 16 (ucast (hdr ! 4))) OR push_bit 24 (ucast (hdr ! 5))"

text \<open>
  \<open>None\<close>: the descriptor does not fit into an \<open>fd_set\<close> (undefined), or a read never returns.
  \<open>timeout_seconds\<close> is only what \<open>select\<close> waits for the first byte.
\<close>

definition read_msg ::
  "sock \<Rightarrow> int \<Rightarrow> 'fs heap \<Rightarrow> (io4e_err_t \<times> ptr \<times> u32 option \<times> sock \<times> 'fs heap) option" where
  "read_msg s timeout_seconds m =
     (if \<not> fd_set_ok (s_fd s) then None
      else case sys_select s timeout_seconds of (ret, s0) \<Rightarrow>
      if ret = 0 then Some (IO4E_ERR_TIMEOUT, NULL, None, s0, m)
      else do {
        (ret, hdr, s1) \<leftarrow> read_complete s0 FSTREAM_HEADER_SIZE [];
        if ret = IO4E_ERR_CONNECTION_CLOSED
          then Some (IO4E_ERR_CONNECTION_CLOSED, NULL, None, s1, m)
        else if ret = EAGAIN \<or> ret = EWOULDBLOCK then Some (IO4E_ERR_TIMEOUT, NULL, None, s1, m)
        else if ret \<noteq> IO4E_OK then Some (ret, NULL, None, s1, m)
        else if take (length magic_bytes) hdr \<noteq> magic_bytes then Some (IO4E_FAIL, NULL, None, s1, m)
        else
          let len = hdr_len hdr in
          if len > 0 then
            (case malloc (OBuf []) m of (payload, m1) \<Rightarrow>
             if payload = NULL then Some (IO4E_ERR_NO_MEM, NULL, None, s1, m1)
             else do {
               (ret, data, s2) \<leftarrow> read_complete s1 (unat len) [];
               if ret = IO4E_ERR_CONNECTION_CLOSED then
                 map_option (\<lambda>m2. (IO4E_ERR_CONNECTION_CLOSED, NULL, None, s2, m2)) (free payload m1)
               else if ret \<noteq> IO4E_OK then
                 map_option (\<lambda>m2. (ret, NULL, None, s2, m2)) (free payload m1)
               else Some (IO4E_OK, payload, Some len, s2,
                          m1\<lparr>m_store := (m_store m1)(payload \<mapsto> OBuf data)\<rparr>) })
          else Some (IO4E_OK, NULL, Some len, s1, m) })"


section \<open>Writing\<close>

definition get_write_offset :: "sock \<Rightarrow> u32" where
  "get_write_offset handle = of_nat FSTREAM_HEADER_SIZE"

text \<open>The header \<open>write_msg\<close> puts in front of a payload of the given length.\<close>

definition put_header :: "u32 \<Rightarrow> bytes" where
  "put_header payload_len =
     magic_bytes @
     [ucast (payload_len AND 0xff),
      ucast (drop_bit 8 payload_len AND 0xff),
      ucast (drop_bit 16 payload_len AND 0xff),
      ucast (drop_bit 16 payload_len AND 0xff)]"

partial_function (option) write_loop :: "sock \<Rightarrow> bytes \<Rightarrow> (io4e_err_t \<times> sock) option" where
  "write_loop s buf =
     (if buf = [] then Some (IO4E_OK, s)
      else case sys_write s buf of
             (Wr_Failed errno, s') \<Rightarrow>
               if errno \<noteq> EINTR \<and> errno \<noteq> EAGAIN \<and> errno \<noteq> EWOULDBLOCK then Some (IO4E_FAIL, s')
               else write_loop s' buf
           | (Wr_Wrote ret, s') \<Rightarrow> write_loop s' (drop ret buf))"

text \<open>A buffer shorter than the length given with it would be overrun.\<close>

definition write_msg :: "sock \<Rightarrow> bytes \<Rightarrow> u32 \<Rightarrow> (io4e_err_t \<times> sock) option" where
  "write_msg s buf len =
     (if unat len < FSTREAM_HEADER_SIZE then Some (IO4E_FAIL, s)
      else if length buf < unat len then None
      else write_loop s
             (put_header (len - of_nat FSTREAM_HEADER_SIZE)
                @ drop FSTREAM_HEADER_SIZE (take (unat len) buf)))"


section \<open>What the reader guarantees\<close>

text \<open>\<open>errno\<close> is positive after a failed call.\<close>

definition errno_wf :: "sock \<Rightarrow> bool" where
  "errno_wf s \<longleftrightarrow> (\<forall>e. Rd_Err e \<in> set (s_rd s) \<longrightarrow> 0 < e)"

text \<open>No read fails; how the stream is cut into reads stays open.\<close>

definition rd_quiet :: "sock \<Rightarrow> bool" where
  "rd_quiet s \<longleftrightarrow> (\<forall>e. Rd_Err e \<notin> set (s_rd s))"

lemma rd_quiet_errno_wf: "rd_quiet s \<Longrightarrow> errno_wf s"
  by (simp add: rd_quiet_def errno_wf_def)

lemma read_complete_0 [simp]: "read_complete s 0 acc = Some (IO4E_OK, acc, s)"
  by (subst read_complete.simps) simp

lemma set_tl_subset: "set (tl xs) \<subseteq> set xs"
  by (cases xs) auto

lemma sys_read_wf:
  assumes "sys_read s len = Some (r, s')"
  shows "errno_wf s \<Longrightarrow> errno_wf s'" "rd_quiet s \<Longrightarrow> rd_quiet s'"
  using sys_read_frame(6) [OF assms] set_tl_subset [of "s_rd s"]
  by (auto simp: errno_wf_def rd_quiet_def)

lemma read_complete_prefix:
  "read_complete s len acc = Some (err, data, s') \<Longrightarrow>
     \<exists>bs. data = acc @ bs \<and> s_in s = bs @ s_in s' \<and> length bs \<le> len"
proof (induction s len acc arbitrary: err data s' rule: read_complete.induct)
  case (1 s len acc)
  show ?case
  proof (cases "len = 0")
    case True
    with "1.prems" show ?thesis by simp
  next
    case False
    obtain r t where rd: "sys_read s len = Some (r, t)"
      using False "1.prems" by (cases "sys_read s len") (auto simp: read_complete.simps [of s len acc])
    show ?thesis
    proof (cases r)
      case (Rd_Got bs)
      from False "1.prems" rd Rd_Got
      have "read_complete t (len - length bs) (acc @ bs) = Some (err, data, s')"
        by (simp add: read_complete.simps [of s len acc])
      from "1.IH" [OF False rd refl Rd_Got this]
      obtain cs where "data = (acc @ bs) @ cs" "s_in t = cs @ s_in s'" "length cs \<le> len - length bs"
        by blast
      with sys_read_Got [of s len bs t] rd Rd_Got False show ?thesis
        by (intro exI [of _ "bs @ cs"]) auto
    qed (use False "1.prems" rd sys_read_not_Got [OF rd] in
          \<open>auto simp: read_complete.simps [of s len acc]\<close>)
  qed
qed

lemma read_complete_frame:
  "read_complete s len acc = Some (err, data, s') \<Longrightarrow>
     s_fd s' = s_fd s \<and> s_sel s' = s_sel s \<and> s_out s' = s_out s \<and> s_wr s' = s_wr s
       \<and> s_wpos s' = s_wpos s \<and> s_open s' = s_open s \<and> (errno_wf s \<longrightarrow> errno_wf s') \<and> (rd_quiet s \<longrightarrow> rd_quiet s')"
proof (induction s len acc arbitrary: err data s' rule: read_complete.induct)
  case (1 s len acc)
  show ?case
  proof (cases "len = 0")
    case True
    with "1.prems" show ?thesis by simp
  next
    case False
    then obtain r t where rd: "sys_read s len = Some (r, t)"
      using "1.prems" by (cases "sys_read s len") (auto simp: read_complete.simps [of s len acc])
    note fr = sys_read_frame [OF rd] sys_read_wf [OF rd]
    show ?thesis
    proof (cases r)
      case (Rd_Got bs)
      from False "1.prems" rd Rd_Got
      have "read_complete t (len - length bs) (acc @ bs) = Some (err, data, s')"
        by (simp add: read_complete.simps [of s len acc])
      from "1.IH" [OF False rd refl Rd_Got this] fr show ?thesis by simp
    qed (use False "1.prems" rd fr in \<open>simp_all add: read_complete.simps [of s len acc]\<close>)
  qed
qed

text \<open>Success means that exactly the bytes asked for were read.\<close>

lemma read_complete_OK_length:
  "read_complete s len acc = Some (IO4E_OK, data, s') \<Longrightarrow> errno_wf s \<Longrightarrow>
     length data = length acc + len"
proof (induction s len acc arbitrary: data s' rule: read_complete.induct)
  case (1 s len acc)
  show ?case
  proof (cases "len = 0")
    case True
    with "1.prems" show ?thesis by simp
  next
    case False
    obtain r t where rd: "sys_read s len = Some (r, t)"
      using False "1.prems" by (cases "sys_read s len") (auto simp: read_complete.simps [of s len acc])
    show ?thesis
    proof (cases r)
      case (Rd_Got bs)
      from False "1.prems" rd Rd_Got
      have "read_complete t (len - length bs) (acc @ bs) = Some (IO4E_OK, data, s')"
        by (simp add: read_complete.simps [of s len acc])
      from "1.IH" [OF False rd refl Rd_Got this] sys_read_wf(1) [OF rd "1.prems"(2)]
        sys_read_Got(2) [of s len bs t] rd Rd_Got False
      show ?thesis by simp
    next
      case (Rd_Fail e)
      with sys_read_Fail [of s len e t] rd "1.prems" False show ?thesis
        by (auto simp: read_complete.simps [of s len acc] errno_wf_def err_defs)
    qed (use False "1.prems" rd in \<open>simp add: read_complete.simps [of s len acc] err_defs\<close>)
  qed
qed

text \<open>It never returns only when a peer that keeps the connection open sends too little.\<close>

lemma read_complete_blocks:
  "read_complete s len acc = None \<Longrightarrow> s_open s \<and> length (s_in s) < len"
proof (induction s len acc rule: read_complete.induct)
  case (1 s len acc)
  then have nz: "len \<noteq> 0" by (metis option.distinct(1) read_complete_0)
  show ?case
  proof (cases "sys_read s len")
    case None
    with sys_read_blocks [OF None] nz show ?thesis by simp
  next
    case (Some x)
    obtain e t where x: "x = (e, t)" by fastforce
    with Some have rd: "sys_read s len = Some (e, t)" by simp
    with "1.prems" nz obtain bs where got: "e = Rd_Got bs"
      by (cases e) (auto simp: read_complete.simps [of s len acc])
    have "read_complete t (len - length bs) (acc @ bs) = None"
      using "1.prems" nz rd got by (simp add: read_complete.simps [of s len acc])
    from "1.IH" [OF nz rd refl got this] sys_read_Got [of s len bs t] sys_read_frame(7) [OF rd] rd got nz
    show ?thesis by auto
  qed
qed

text \<open>Without read errors it succeeds exactly when the stream is long enough.\<close>

lemma read_complete_quiet:
  "rd_quiet s \<Longrightarrow>
     (if len \<le> length (s_in s)
      then \<exists>s'. read_complete s len acc = Some (IO4E_OK, acc @ take len (s_in s), s')
             \<and> s_in s' = drop len (s_in s)
      else if s_open s then read_complete s len acc = None
      else \<exists>s'. read_complete s len acc
                 = Some (IO4E_ERR_CONNECTION_CLOSED, acc @ s_in s, s') \<and> s_in s' = [])"
proof (induction s len acc rule: read_complete.induct)
  case (1 s len acc)
  show ?case
  proof (cases "len = 0")
    case True
    then show ?thesis by simp
  next
    case nz: False
    show ?thesis
    proof (cases "sys_read s len")
      case None
      with sys_read_blocks [OF None] nz show ?thesis by (simp add: read_complete.simps [of s len acc])
    next
      case (Some x)
      obtain e t where x: "x = (e, t)" by fastforce
      with Some have rd: "sys_read s len = Some (e, t)" by simp
      note fr = sys_read_frame(7) [OF rd]
      show ?thesis
      proof (cases e)
        case (Rd_Got bs)
        note ih = "1.IH" [OF nz rd refl Rd_Got sys_read_wf(2) [OF rd "1.prems"]]
        have got: "length bs \<le> len" "s_in s = bs @ s_in t"
          using sys_read_Got [of s len bs t] rd Rd_Got nz by auto
        have step: "read_complete s len acc = read_complete t (len - length bs) (acc @ bs)"
          using nz rd Rd_Got by (simp add: read_complete.simps [of s len acc])
        have same: "len - length bs \<le> length (s_in t) \<longleftrightarrow> len \<le> length (s_in s)" using got by auto
        with ih got fr show ?thesis by (auto simp: step split: if_splits)
      next
        case (Rd_Fail e')
        with sys_read_Fail [of s len e' t] rd "1.prems" show ?thesis by (simp add: rd_quiet_def)
      next
        case Rd_EOF
        with nz rd sys_read_EOF [of s len t] sys_read_not_Got [OF rd] show ?thesis
          by (simp add: read_complete.simps [of s len acc])
      qed
    qed
  qed
qed


section \<open>What the writer guarantees\<close>

text \<open>The error codes after which \<open>write_msg\<close> tries again, and an outcome that ends the wait.\<close>

definition wr_retry :: "int \<Rightarrow> bool" where
  "wr_retry e \<longleftrightarrow> e = EINTR \<or> e = EAGAIN \<or> e = EWOULDBLOCK"

definition wr_progress :: "wr_ev \<Rightarrow> bool" where
  "wr_progress ev = (case ev of Wr_Data k \<Rightarrow> 0 < k | Wr_Err e \<Rightarrow> \<not> wr_retry e)"

text \<open>The peer keeps draining the connection, or it breaks: some later write always makes progress.\<close>

definition wr_live :: "sock \<Rightarrow> bool" where
  "wr_live s \<longleftrightarrow> (\<forall>i. \<exists>n. wr_progress (s_wr s (i + n)))"

lemma write_loop_Nil [simp]: "write_loop s [] = Some (IO4E_OK, s)"
  by (subst write_loop.simps) simp

text \<open>One round of the loop.\<close>

lemma write_loop_step:
  assumes "buf \<noteq> []"
  shows "write_loop s buf =
    (case s_wr s (s_wpos s) of
       Wr_Err e \<Rightarrow>
         if wr_retry e then write_loop (s\<lparr>s_wpos := Suc (s_wpos s)\<rparr>) buf
         else Some (IO4E_FAIL, s\<lparr>s_wpos := Suc (s_wpos s)\<rparr>)
     | Wr_Data k \<Rightarrow>
         (let n = min k (min (length buf) MAX_RW_COUNT)
          in write_loop (s\<lparr>s_wpos := Suc (s_wpos s), s_out := s_out s @ take n buf\<rparr>) (drop n buf)))"
  using assms
  by (subst write_loop.simps) (auto simp: sys_write_def wr_retry_def Let_def split: wr_ev.splits)

lemma write_loop_result:
  assumes "write_loop s buf = Some r"
  shows "\<exists>k. s_out (snd r) = s_out s @ take k buf \<and>
            (fst r = IO4E_OK \<and> k = length buf \<or> fst r = IO4E_FAIL \<and> k < length buf) \<and>
            s_in (snd r) = s_in s \<and> s_rd (snd r) = s_rd s \<and> s_sel (snd r) = s_sel s \<and>
            s_wr (snd r) = s_wr s \<and> s_fd (snd r) = s_fd s \<and> s_open (snd r) = s_open s"
    (is "?P s buf r")
proof (rule write_loop.raw_induct [where P = ?P, OF _ assms], goal_cases)
  case (1 f s buf r)
  show ?case
  proof (cases "buf = []")
    case True
    with 1(2) show ?thesis by auto
  next
    case False
    obtain w t where w: "sys_write s buf = (w, t)" by fastforce
    note fr = sys_write_frame [OF w]
    show ?thesis
    proof (cases w)
      case (Wr_Wrote n)
      with 1(2) False w have "f t (drop n buf) = Some r" by simp
      from 1(1) [OF this] obtain k where k: "s_out (snd r) = s_out t @ take k (drop n buf)"
        "fst r = IO4E_OK \<and> k = length (drop n buf) \<or> fst r = IO4E_FAIL \<and> k < length (drop n buf)"
        "s_in (snd r) = s_in t" "s_rd (snd r) = s_rd t" "s_sel (snd r) = s_sel t"
        "s_wr (snd r) = s_wr t" "s_fd (snd r) = s_fd t" "s_open (snd r) = s_open t" by blast
      from sys_write_Wrote [of s buf n t] w Wr_Wrote
      have o: "n \<le> length buf" "s_out t = s_out s @ take n buf" by auto
      have out: "s_out (snd r) = s_out s @ take (n + k) buf"
        using k(1) o by (simp add: take_add)
      have res: "fst r = IO4E_OK \<and> n + k = length buf \<or> fst r = IO4E_FAIL \<and> n + k < length buf"
        using k(2) o(1) by auto
      have "s_in (snd r) = s_in s" "s_rd (snd r) = s_rd s" "s_sel (snd r) = s_sel s"
        "s_wr (snd r) = s_wr s" "s_fd (snd r) = s_fd s" "s_open (snd r) = s_open s"
        by (simp_all only: k(3-8) fr)
      note same = this
      show ?thesis
        by (rule exI [of _ "n + k"], intro conjI) (rule out res same)+
    next
      case (Wr_Failed e)
      note o = sys_write_Failed [of s buf e t]
      have "(if wr_retry e then f t buf else Some (IO4E_FAIL, t)) = Some r"
        using 1(2) False w Wr_Failed
        by (cases "e \<noteq> EINTR \<and> e \<noteq> EAGAIN \<and> e \<noteq> EWOULDBLOCK") (simp_all add: wr_retry_def)
      then consider "r = (IO4E_FAIL, t)" | "f t buf = Some r"
        by (cases "wr_retry e") simp_all
      then show ?thesis
      proof cases
        case 1
        with o w Wr_Failed fr False show ?thesis by (intro exI [of _ 0]) auto
      next
        case 2
        from 1(1) [OF 2] o w Wr_Failed fr show ?thesis by auto
      qed
    qed
  qed
qed

text \<open>Under a live connection the loop returns: every progress shortens what is left.\<close>

lemma write_loop_returns_next:
  assumes "wr_progress (s_wr s (s_wpos s + n))"
    and IH: "\<And>t b. length b < length buf \<Longrightarrow> s_wr t = s_wr s \<Longrightarrow> \<exists>r. write_loop t b = Some r"
  shows "\<exists>r. write_loop s buf = Some r"
  using assms
proof (induction n arbitrary: s)
  case (0 s)
  show ?case
  proof (cases "buf = []")
    case False
    with 0 show ?thesis
      by (auto simp: write_loop_step [OF False, of s] wr_progress_def Let_def MAX_RW_COUNT_def
          split: wr_ev.splits)
  qed simp
next
  case (Suc n s)
  show ?case
  proof (cases "buf = []")
    case False
    show ?thesis
    proof (cases "wr_progress (s_wr s (s_wpos s))")
      case True
      with False Suc.prems(2) show ?thesis
        by (auto simp: write_loop_step [OF False, of s] wr_progress_def Let_def MAX_RW_COUNT_def
            split: wr_ev.splits)
    next
      case np: False
      have more: "\<exists>r. write_loop (s\<lparr>s_wpos := Suc (s_wpos s)\<rparr>) buf = Some r"
        by (rule Suc.IH) (use Suc.prems in auto)
      then have "\<exists>r. write_loop (s\<lparr>s_wpos := Suc (s_wpos s), s_out := s_out s\<rparr>) buf = Some r"
        by (cases s) simp
      with more np show ?thesis
        by (auto simp: write_loop_step [OF False, of s] wr_progress_def split: wr_ev.splits)
    qed
  qed simp
qed

lemma write_loop_returns: "wr_live s \<Longrightarrow> \<exists>r. write_loop s buf = Some r"
proof (induction "length buf" arbitrary: s buf rule: less_induct)
  case less
  from less.prems obtain n where "wr_progress (s_wr s (s_wpos s + n))"
    by (auto simp: wr_live_def)
  then show ?case
    by (rule write_loop_returns_next) (use less in \<open>auto simp: wr_live_def\<close>)
qed

text \<open>A connection that never takes another byte makes it spin for ever.\<close>

lemma write_loop_spins:
  assumes "\<And>i. s_wpos s \<le> i \<Longrightarrow> \<not> wr_progress (s_wr s i)" "buf \<noteq> []"
  shows "write_loop s buf = None"
proof (rule ccontr)
  define stuck :: "sock \<Rightarrow> bool" where
    "stuck s \<longleftrightarrow> (\<forall>i. s_wpos s \<le> i \<longrightarrow> \<not> wr_progress (s_wr s i))" for s
  assume "write_loop s buf \<noteq> None"
  then obtain r where r: "write_loop s buf = Some r" by blast
  have "stuck s \<longrightarrow> buf = []"
  proof (rule write_loop.raw_induct [where P = "\<lambda>s buf r. stuck s \<longrightarrow> buf = []", OF _ r], goal_cases)
    case (1 f s buf r)
    show ?case
    proof (intro impI, rule ccontr)
      assume st: "stuck s" and ne: "buf \<noteq> []"
      then have np: "\<not> wr_progress (s_wr s (s_wpos s))" by (simp add: stuck_def)
      define t where "t = s\<lparr>s_wpos := Suc (s_wpos s)\<rparr>"
      have "stuck t" using st by (auto simp: stuck_def t_def)
      from 1(2) ne np have "f t buf = Some r"
        by (auto simp: sys_write_def wr_progress_def wr_retry_def t_def split: wr_ev.splits if_splits)
      with 1(1) \<open>stuck t\<close> ne show False by blast
    qed
  qed
  with assms show False by (auto simp: stuck_def)
qed


section \<open>Framing\<close>

lemma length_magic [simp]: "length magic_bytes = 2"
  by (simp add: magic_bytes_def)

lemma length_put_header [simp]: "length (put_header n) = FSTREAM_HEADER_SIZE"
  by (simp add: put_header_def FSTREAM_HEADER_SIZE_def)

lemma take_magic_put_header [simp]: "take 2 (put_header n) = magic_bytes"
  by (simp add: put_header_def)

lemma mask_8_u32: "(0xff :: u32) = mask 8"
  by (simp add: mask_eq_exp_minus_1)

lemma hdr_len_put_header_raw:
  "hdr_len (put_header n) =
     ((ucast (ucast (n AND mask 8) :: byte) OR push_bit 8 (ucast (ucast (drop_bit 8 n AND mask 8) :: byte)))
       OR push_bit 16 (ucast (ucast (drop_bit 16 n AND mask 8) :: byte)))
       OR push_bit 24 (ucast (ucast (drop_bit 16 n AND mask 8) :: byte))"
  by (simp add: hdr_len_def put_header_def magic_bytes_def mask_8_u32)

lemma ucast_byte_part: "(ucast (ucast (x AND mask 8) :: byte) :: u32) = x AND mask 8"
  by (rule bit_word_eqI) (auto simp: bit_simps)

lemma hdr_len_put_header:
  "hdr_len (put_header n) = (n AND mask 24) OR push_bit 24 (drop_bit 16 n)"
proof (rule bit_word_eqI)
  fix i assume "i < LENGTH(32)"
  then consider "i < 8" | "8 \<le> i" "i < 16" | "16 \<le> i" "i < 24" | "24 \<le> i" "i < 32"
    by fastforce
  then show "bit (hdr_len (put_header n)) i = bit ((n AND mask 24) OR push_bit 24 (drop_bit 16 n)) i"
    by cases (auto simp: hdr_len_put_header_raw ucast_byte_part bit_simps)
qed

lemma hdr_len_put_header_iff:
  "hdr_len (put_header n) = n \<longleftrightarrow> drop_bit 24 n = drop_bit 16 n AND mask 8"
proof
  assume eq: "hdr_len (put_header n) = n"
  show "drop_bit 24 n = drop_bit 16 n AND mask 8"
  proof (rule bit_word_eqI)
    fix i assume "i < LENGTH(32)"
    have "bit (hdr_len (put_header n)) (24 + i) = bit n (24 + i)"
      by (simp add: eq)
    then show "bit (drop_bit 24 n) i = bit (drop_bit 16 n AND mask 8) i"
      by (auto simp: hdr_len_put_header bit_simps dest: bit_imp_le_length)
  qed
next
  assume eq: "drop_bit 24 n = drop_bit 16 n AND mask 8"
  show "hdr_len (put_header n) = n"
  proof (rule bit_word_eqI)
    fix i assume i: "i < LENGTH(32)"
    have "bit (drop_bit 24 n) (i - 24) = bit (drop_bit 16 n AND mask 8) (i - 24)"
      by (simp add: eq)
    with i show "bit (hdr_len (put_header n)) i = bit n i"
      by (cases "i < 24") (auto simp: hdr_len_put_header bit_simps)
  qed
qed

text \<open>In particular payloads of less than 64 KiB have their length in the header.\<close>

lemma hdr_len_put_header_small:
  assumes "unat n < 2 ^ 16"
  shows "hdr_len (put_header n) = n"
proof -
  have "unat (drop_bit k n) = 0" if "16 \<le> k" for k
  proof -
    have "unat n < 2 ^ k" using assms that by (meson less_le_trans one_le_numeral power_increasing)
    with assms show ?thesis
      by (simp add: unsigned_drop_bit_eq drop_bit_eq_div [where 'a = nat] take_bit_nat_eq_self)
  qed
  then have "drop_bit 16 n = 0" "drop_bit 24 n = 0" by (simp_all only: unat_eq_zero)
  then show ?thesis by (simp add: hdr_len_put_header_iff)
qed


section \<open>Receiving a message\<close>

text \<open>
  What a successful \<open>read_msg\<close> leaves behind: a fresh buffer with the payload, or no buffer at all
  for an empty one.
\<close>

definition received :: "'fs heap \<Rightarrow> 'fs heap \<Rightarrow> ptr \<Rightarrow> u32 \<Rightarrow> bytes \<Rightarrow> bool" where
  "received m m' p len data \<longleftrightarrow>
     length data = unat len \<and>
     (if len = 0 then p = NULL \<and> m_store m' = m_store m
      else p \<noteq> NULL \<and> p \<notin> live m \<and> m_store m' = (m_store m)(p \<mapsto> OBuf data))"

text \<open>The part of \<open>read_msg\<close> after the header.\<close>

lemma read_payload_result:
  assumes "mem_wf m" "errno_wf s" "0 < len"
    and "malloc (OBuf []) m = (p, m1)" "p \<noteq> NULL"
    and "read_complete s (unat len) [] = Some (IO4E_OK, data, s')"
  shows "received m (m1\<lparr>m_store := (m_store m1)(p \<mapsto> OBuf data)\<rparr>) p len data"
    and "mem_wf (m1\<lparr>m_store := (m_store m1)(p \<mapsto> OBuf data)\<rparr>)"
    and "s_in s = data @ s_in s'"
proof -
  from assms(1,4) show "received m (m1\<lparr>m_store := (m_store m1)(p \<mapsto> OBuf data)\<rparr>) p len data"
    by (rule malloc_cases)
       (use assms(3,5) read_complete_OK_length [OF assms(6,2)] in \<open>auto simp: received_def\<close>)
  from assms(1,4) show "mem_wf (m1\<lparr>m_store := (m_store m1)(p \<mapsto> OBuf data)\<rparr>)"
    by (rule malloc_cases) (use assms(1,5) in \<open>auto simp: mem_wf_def less_Suc_eq\<close>)
  from read_complete_prefix [OF assms(6)] show "s_in s = data @ s_in s'" by auto
qed

lemma free_payload:
  assumes "mem_wf m" "malloc x m = (p, m1)" "p \<noteq> NULL"
  obtains m2 where "free p m1 = Some m2" "mem_wf m2" "m_store m2 = m_store m"
proof -
  have wf: "mem_wf m1" using assms(1,2) by (rule malloc_wf)
  from assms(1,2) have "m_store m1 = (m_store m)(p \<mapsto> x)" "p \<notin> live m"
    using assms(3) by (auto elim: malloc_cases)
  with wf have "free p m1 = Some (m1\<lparr>m_store := m_store m\<rparr>)"
    by (auto simp: domIff fun_upd_idem)
  with free_wf [OF wf this] that show ?thesis by simp
qed

lemma read_msg_cases:
  assumes wf: "mem_wf m" "errno_wf s"
  obtains
    (none) "read_msg s t m = None"
  | (error) err s' m' bs where "read_msg s t m = Some (err, NULL, None, s', m')" "err \<noteq> IO4E_OK"
      "s_in s = bs @ s_in s'" "mem_wf m'" "errno_wf s'" "m_store m' = m_store m"
  | (ok) hdr data p len s' m' where "read_msg s t m = Some (IO4E_OK, p, Some len, s', m')"
      "s_in s = hdr @ data @ s_in s'" "length hdr = FSTREAM_HEADER_SIZE"
      "take 2 hdr = magic_bytes" "len = hdr_len hdr" "received m m' p len data"
      "mem_wf m'" "errno_wf s'"
proof (cases "read_msg s t m")
  case None
  with none show ?thesis .
next
  case (Some r)
  then have fd: "fd_set_ok (s_fd s)" by (auto simp: read_msg_def split: if_splits)
  obtain sel s0 where sel: "sys_select s t = (sel, s0)" by fastforce
  note fr0 = sys_select_frame [OF sel]
  from fr0 wf(2) have wf0: "errno_wf s0" by (simp add: errno_wf_def)
  show ?thesis
  proof (cases "sel = 0")
    case True
    with fd sel wf wf0 fr0 show ?thesis
      by (intro error [of IO4E_ERR_TIMEOUT s0 m "[]"]) (simp_all add: read_msg_def err_defs)
  next
    case nz: False
    with Some sel fd obtain e1 hdr s1 where rd1: "read_complete s0 FSTREAM_HEADER_SIZE [] = Some (e1, hdr, s1)"
      by (cases "read_complete s0 FSTREAM_HEADER_SIZE []") (auto simp: read_msg_def)
    with read_complete_frame [OF rd1] wf0 have wf1: "errno_wf s1" by simp
    from read_complete_prefix [OF rd1] fr0 have in1: "s_in s = hdr @ s_in s1" by auto
    show ?thesis
    proof (cases "e1 = IO4E_OK \<and> take 2 hdr = magic_bytes")
      case False
      with sel nz fd rd1 wf wf1 in1 show ?thesis
        by (intro error [of "if e1 = IO4E_ERR_CONNECTION_CLOSED then e1
              else if e1 = EAGAIN \<or> e1 = EWOULDBLOCK then IO4E_ERR_TIMEOUT
              else if e1 \<noteq> IO4E_OK then e1 else IO4E_FAIL" s1 m hdr])
           (auto simp: read_msg_def err_defs errno_defs)
    next
      case True
      then have hdr: "length hdr = FSTREAM_HEADER_SIZE"
        using read_complete_OK_length [OF _ wf0] rd1 by auto
      define len where "len = hdr_len hdr"
      show ?thesis
      proof (cases "0 < len")
        case False
        with True nz fd sel rd1 wf wf1 hdr in1 show ?thesis
          by (intro ok [of NULL len s1 m hdr "[]"])
             (simp_all add: read_msg_def err_defs errno_defs received_def len_def word_gt_0)
      next
        case pos: True
        obtain p m1 where ma: "malloc (OBuf []) m = (p, m1)" by fastforce
        show ?thesis
        proof (cases "p = NULL")
          case np: True
          from wf(1) ma have "m_store m1 = m_store m"
            by (rule malloc_cases) (use np in auto)
          moreover have "read_msg s t m = Some (IO4E_ERR_NO_MEM, NULL, None, s1, m1)"
            using True nz fd sel rd1 pos ma np by (simp add: read_msg_def err_defs errno_defs len_def)
          ultimately show ?thesis using wf1 malloc_wf [OF wf(1) ma] in1
            by (intro error [of IO4E_ERR_NO_MEM s1 m1 hdr]) (simp_all add: err_defs)
        next
          case np: False
          have eq: "read_msg s t m = do {
              (e2, data, s2) \<leftarrow> read_complete s1 (unat len) [];
              if e2 \<noteq> IO4E_OK then map_option (\<lambda>m2. (e2, NULL, None, s2, m2)) (free p m1)
              else Some (IO4E_OK, p, Some len, s2, m1\<lparr>m_store := (m_store m1)(p \<mapsto> OBuf data)\<rparr>) }"
            using True nz fd sel rd1 pos ma np
            by (cases "read_complete s1 (unat len) []")
               (auto simp: read_msg_def err_defs errno_defs len_def [symmetric])
          with Some obtain e2 data s2 where rd2: "read_complete s1 (unat len) [] = Some (e2, data, s2)"
            by (cases "read_complete s1 (unat len) []") auto
          from read_complete_frame [OF rd2] wf1 have wf2: "errno_wf s2" by simp
          from read_complete_prefix [OF rd2] in1 have in2: "s_in s = (hdr @ data) @ s_in s2" by auto
          show ?thesis
          proof (cases "e2 = IO4E_OK")
            case False
            obtain m2 where "free p m1 = Some m2" "mem_wf m2" "m_store m2 = m_store m"
              using wf(1) ma np by (rule free_payload)
            with False eq rd2 wf2 in2 show ?thesis by (intro error [of e2 s2 m2 "hdr @ data"]) simp_all
          next
            case ok2: True
            with read_payload_result [OF wf(1) wf1 pos ma np] rd2 eq wf2 in1 hdr True show ?thesis
              by (intro ok [of p len s2 "m1\<lparr>m_store := (m_store m1)(p \<mapsto> OBuf data)\<rparr>" hdr data])
                 (simp_all add: len_def)
          qed
        qed
      qed
    qed
  qed
qed

text \<open>When it does not return: only a peer that keeps the connection open makes it wait for ever.\<close>

lemma read_msg_blocks:
  assumes "read_msg s t m = None" "fd_set_ok (s_fd s)" "mem_wf m" "errno_wf s"
  shows "s_open s \<and> (length (s_in s) < FSTREAM_HEADER_SIZE \<or> take 2 (s_in s) = magic_bytes \<and>
    length (s_in s) < FSTREAM_HEADER_SIZE + unat (hdr_len (take FSTREAM_HEADER_SIZE (s_in s))))"
proof -
  obtain sel s0 where sel: "sys_select s t = (sel, s0)" by fastforce
  note fr0 = sys_select_frame [OF sel]
  show ?thesis
  proof (cases "read_complete s0 FSTREAM_HEADER_SIZE []")
    case None
    with read_complete_blocks [OF None] fr0 show ?thesis by simp
  next
    case (Some x)
    obtain e1 hdr s1 where x: "x = (e1, hdr, s1)" by (cases x) auto
    with Some have rd1: "read_complete s0 FSTREAM_HEADER_SIZE [] = Some (e1, hdr, s1)" by simp
    have wf0: "errno_wf s0" using fr0 assms(4) by (simp add: errno_wf_def)
    obtain p m1 where ma: "malloc (OBuf []) m = (p, m1)" by fastforce
    from assms(1,2) sel rd1 have ok: "e1 = IO4E_OK" "take 2 hdr = magic_bytes"
      by (auto simp: read_msg_def err_defs errno_defs Let_def split: if_splits)
    have hdr: "length hdr = FSTREAM_HEADER_SIZE"
      using read_complete_OK_length [OF _ wf0] rd1 ok by auto
    have "read_complete s1 (unat (hdr_len hdr)) [] = None"
    proof (rule ccontr)
      assume "read_complete s1 (unat (hdr_len hdr)) [] \<noteq> None"
      then obtain e2 data s2 where rd2: "read_complete s1 (unat (hdr_len hdr)) [] = Some (e2, data, s2)"
        by auto
      show False
      proof (cases "p = NULL")
        case True
        with assms(1,2) sel rd1 ma ok show ?thesis
          by (auto simp: read_msg_def err_defs errno_defs Let_def split: if_splits)
      next
        case False
        obtain m2 where "free p m1 = Some m2" using assms(3) ma False by (rule free_payload)
        with False assms(1,2) sel rd1 rd2 ma ok show ?thesis
          by (auto simp: read_msg_def err_defs errno_defs Let_def split: if_splits)
      qed
    qed
    from read_complete_blocks [OF this] read_complete_frame [OF rd1] read_complete_prefix [OF rd1] fr0 hdr ok(2)
    show ?thesis by (auto simp: FSTREAM_HEADER_SIZE_def)
  qed
qed


text \<open>A framed message at the head of a stream without read errors is received as it is.\<close>

lemma read_msg_quiet:
  assumes wf: "mem_wf m" "rd_quiet s" "m_fail m = []" "fd_set_ok (s_fd s)"
    and ready: "fst (sys_select s t) \<noteq> 0"
    and s_in: "s_in s = hdr @ data @ rest" "length hdr = FSTREAM_HEADER_SIZE"
      "take 2 hdr = magic_bytes" "length data = unat (hdr_len hdr)"
  obtains p s' m' where "read_msg s t m = Some (IO4E_OK, p, Some (hdr_len hdr), s', m')"
    "s_in s' = rest" "received m m' p (hdr_len hdr) data" "mem_wf m'" "rd_quiet s'" "m_fail m' = []"
    "s_sel s' = s_sel (snd (sys_select s t))"
proof -
  obtain sel s0 where sel: "sys_select s t = (sel, s0)" by fastforce
  note fr0 = sys_select_frame [OF sel]
  from fr0 wf(2) have q0: "rd_quiet s0" by (simp add: rd_quiet_def)
  from read_complete_quiet [OF q0, of FSTREAM_HEADER_SIZE "[]"] fr0 s_in(1,2)
  obtain s1 where rd1: "read_complete s0 FSTREAM_HEADER_SIZE [] = Some (IO4E_OK, hdr, s1)"
    and in1: "s_in s1 = data @ rest" by auto
  from read_complete_frame [OF rd1] q0 have q1: "rd_quiet s1" "s_sel s1 = s_sel s0" by auto
  from ready sel have nz: "sel \<noteq> 0" by simp
  show ?thesis
  proof (cases "0 < hdr_len hdr")
    case False
    then have z: "hdr_len hdr = 0" by (simp add: word_gt_0)
    with s_in(4) have "data = []" by simp
    with that [of NULL s1 m] z nz sel rd1 s_in(3) in1 q1 wf show ?thesis
      by (simp add: read_msg_def received_def err_defs errno_defs)
  next
    case True
    obtain p m1 where ma: "malloc (OBuf []) m = (p, m1)" by fastforce
    with wf have p: "p \<noteq> NULL" "m_fail m1 = []"
      by (auto simp: malloc_def mem_wf_next_pos)
    from read_complete_quiet [OF q1(1), of "unat (hdr_len hdr)" "[]"] in1 s_in(4)
    obtain s2 where rd2: "read_complete s1 (unat (hdr_len hdr)) [] = Some (IO4E_OK, data, s2)"
      and in2: "s_in s2 = rest" by auto
    from read_complete_frame [OF rd2] q1 have q2: "rd_quiet s2" "s_sel s2 = s_sel s0" by auto
    note res = read_payload_result [OF wf(1) rd_quiet_errno_wf [OF q1(1)] True ma p(1) rd2]
    show ?thesis
      by (rule that [OF _ in2 res(1,2) q2(1)])
         (use True nz sel rd1 rd2 ma p s_in(3) q2 wf(4) in
           \<open>simp_all add: read_msg_def err_defs errno_defs\<close>)
  qed
qed

lemma read_msg_bad_magic:
  assumes "rd_quiet s" "fst (sys_select s t) \<noteq> 0" "fd_set_ok (s_fd s)"
    and "s_in s = hdr @ rest" "length hdr = FSTREAM_HEADER_SIZE" "take 2 hdr \<noteq> magic_bytes"
  shows "\<exists>s'. read_msg s t m = Some (IO4E_FAIL, NULL, None, s', m) \<and> s_in s' = rest"
proof -
  obtain sel s0 where sel: "sys_select s t = (sel, s0)" by fastforce
  note fr0 = sys_select_frame [OF sel]
  from fr0 assms(1) have q0: "rd_quiet s0" by (simp add: rd_quiet_def)
  from read_complete_quiet [OF q0, of FSTREAM_HEADER_SIZE "[]"] fr0 assms(4,5)
  obtain s1 where "read_complete s0 FSTREAM_HEADER_SIZE [] = Some (IO4E_OK, hdr, s1)" "s_in s1 = rest"
    by auto
  with sel assms show ?thesis by (simp add: read_msg_def err_defs errno_defs)
qed


text \<open>What a read leaves of the socket.\<close>

lemma socket_read_frame:
  assumes "read_msg s t m = Some (err, p, l, s', m')"
  shows "s_wr s' = s_wr s \<and> s_fd s' = s_fd s \<and> s_out s' = s_out s \<and> s_open s' = s_open s"
proof -
  obtain sel s0 where sel: "sys_select s t = (sel, s0)" by fastforce
  note fr0 = sys_select_frame [OF sel]
  show ?thesis
  proof (cases "read_complete s0 FSTREAM_HEADER_SIZE []")
    case None
    with assms sel fr0 show ?thesis by (auto simp: read_msg_def split: if_splits)
  next
    case (Some x)
    obtain e1 hdr s1 where x: "x = (e1, hdr, s1)" by (cases x) auto
    with Some have rd1: "read_complete s0 FSTREAM_HEADER_SIZE [] = Some (e1, hdr, s1)" by simp
    note fr1 = read_complete_frame [OF rd1]
    show ?thesis
    proof (cases "read_complete s1 (unat (hdr_len hdr)) []")
      case None
      with assms sel rd1 fr0 fr1 show ?thesis
        by (auto simp: read_msg_def Let_def split: if_splits prod.splits)
    next
      case (Some y)
      obtain e2 data s2 where y: "y = (e2, data, s2)" by (cases y) auto
      with Some have rd2: "read_complete s1 (unat (hdr_len hdr)) [] = Some (e2, data, s2)" by simp
      from assms sel rd1 rd2 have "s' = s0 \<or> s' = s1 \<or> s' = s2"
        by (auto simp: read_msg_def Let_def split: if_splits prod.splits)
      with fr0 fr1 read_complete_frame [OF rd2] show ?thesis by auto
    qed
  qed
qed


section \<open>What a peer sends\<close>

text \<open>
  The payloads of all frames that occur in a byte stream: magic bytes, a length that is not zero and
  so many bytes, at whatever place they stand, so also those that a reader finds that has lost
  step. A hypothesis on what a device sends is one on these.
\<close>

fun all_frames :: "bytes \<Rightarrow> bytes list" where
  "all_frames [] = []"
| "all_frames (b # bs) =
     (let hdr = take FSTREAM_HEADER_SIZE (b # bs); rest = drop FSTREAM_HEADER_SIZE (b # bs);
          n = unat (hdr_len hdr)
      in if length hdr = FSTREAM_HEADER_SIZE \<and> take 2 hdr = magic_bytes \<and> 0 < n \<and> n \<le> length rest
         then take n rest # all_frames bs else all_frames bs)"

definition frames_ok :: "(bytes \<Rightarrow> bool) \<Rightarrow> bytes \<Rightarrow> bool" where
  "frames_ok good bs \<longleftrightarrow> list_all good (all_frames bs)"

lemma frames_ok_Nil [simp]: "frames_ok good []"
  by (simp add: frames_ok_def)

lemma all_frames_suffix: "set (all_frames ys) \<subseteq> set (all_frames (xs @ ys))"
  by (induction xs) (auto simp: Let_def)

lemma frames_ok_suffix: "frames_ok good (xs @ ys) \<Longrightarrow> frames_ok good ys"
  using all_frames_suffix [of ys xs] by (auto simp: frames_ok_def list_all_iff)

lemma frames_ok_first:
  assumes "frames_ok good (hdr @ data @ rest)" "length hdr = FSTREAM_HEADER_SIZE"
    "take 2 hdr = magic_bytes" "length data = unat (hdr_len hdr)" "data \<noteq> []"
  shows "good data"
proof -
  obtain b bs where hd: "hdr = b # bs" using assms(2) by (cases hdr) (auto simp: FSTREAM_HEADER_SIZE_def)
  have nz: "0 < unat (hdr_len hdr)" using assms(4,5) by (metis length_greater_0_conv)
  have "take FSTREAM_HEADER_SIZE (hdr @ data @ rest) = hdr" "drop FSTREAM_HEADER_SIZE (hdr @ data @ rest) = data @ rest"
    using assms(2) by simp_all
  then have "data \<in> set (all_frames (hdr @ data @ rest))"
    using assms(2-5) nz unfolding hd append_Cons by (simp add: Let_def)
  with assms(1) show ?thesis by (simp add: frames_ok_def list_all_iff)
qed

lemma frames_ok_mono: "frames_ok good bs \<Longrightarrow> (\<And>x. good x \<Longrightarrow> good' x) \<Longrightarrow> frames_ok good' bs"
  by (auto simp: frames_ok_def list_all_iff)


section \<open>A conversation\<close>

text \<open>
  Sending a list of payloads the way \<open>command\<close> does it (a buffer that leaves room for the header,
  one \<open>write_msg\<close> per message), and receiving messages the way \<open>read_thread\<close> does it (the payload
  is taken out of the buffer and the buffer freed). Both stop at the first error.
\<close>

definition send_buf :: "bytes \<Rightarrow> bytes" where
  "send_buf p = replicate FSTREAM_HEADER_SIZE 0 @ p"

fun send_msgs :: "sock \<Rightarrow> bytes list \<Rightarrow> (io4e_err_t \<times> sock) option" where
  "send_msgs s [] = Some (IO4E_OK, s)"
| "send_msgs s (p # ps) =
     (case write_msg s (send_buf p) (of_nat (length (send_buf p))) of
        None \<Rightarrow> None
      | Some (err, s') \<Rightarrow> if err = IO4E_OK then send_msgs s' ps else Some (err, s'))"

fun recv_msgs :: "nat \<Rightarrow> sock \<Rightarrow> 'fs heap \<Rightarrow> (io4e_err_t \<times> bytes list \<times> sock \<times> 'fs heap) option" where
  "recv_msgs 0 s m = Some (IO4E_OK, [], s, m)"
| "recv_msgs (Suc n) s m =
     (case read_msg s 1 m of
        None \<Rightarrow> None
      | Some (err, p, len, s1, m1) \<Rightarrow>
          if err \<noteq> IO4E_OK then Some (err, [], s1, m1)
          else if len = Some 0 then
            map_option (\<lambda>(e, ps, r). (e, [] # ps, r)) (recv_msgs n s1 m1)
          else
            (case (get_buf p m1, free p m1) of
               (Some b, Some m2) \<Rightarrow> map_option (\<lambda>(e, ps, r). (e, b # ps, r)) (recv_msgs n s1 m2)
             | _ \<Rightarrow> None))"

definition frame :: "bytes \<Rightarrow> bytes" where
  "frame p = put_header (of_nat (length p)) @ p"

lemma length_send_buf [simp]: "length (send_buf p) = FSTREAM_HEADER_SIZE + length p"
  by (simp add: send_buf_def)

lemma unat_of_nat_u32: "n < 2 ^ 32 \<Longrightarrow> unat (of_nat n :: u32) = n"
  by (simp add: unat_of_nat)

lemma write_msg_send_buf:
  assumes "FSTREAM_HEADER_SIZE + length p < 2 ^ 32"
  shows "write_msg s (send_buf p) (of_nat (length (send_buf p))) = write_loop s (frame p)"
proof -
  have "unat (of_nat (length (send_buf p)) :: u32) = FSTREAM_HEADER_SIZE + length p"
    using assms by (simp only: length_send_buf unat_of_nat_u32)
  moreover have "(of_nat (length (send_buf p)) :: u32) - of_nat FSTREAM_HEADER_SIZE = of_nat (length p)"
    by (simp only: length_send_buf of_nat_add add_diff_cancel_left')
  moreover have "drop FSTREAM_HEADER_SIZE (send_buf p) = p"
    by (simp add: send_buf_def)
  moreover have "take (FSTREAM_HEADER_SIZE + length p) (send_buf p) = send_buf p"
    by simp
  ultimately show ?thesis
    unfolding write_msg_def frame_def by (simp only: length_send_buf) simp
qed

lemma send_msgs_out:
  assumes "\<forall>p \<in> set ps. FSTREAM_HEADER_SIZE + length p < 2 ^ 32"
    and "send_msgs s ps = Some (IO4E_OK, s')"
  shows "s_out s' = s_out s @ concat (map frame ps)"
  using assms
proof (induction ps arbitrary: s)
  case Nil
  then show ?case by simp
next
  case (Cons p ps)
  from Cons.prems(1) have "FSTREAM_HEADER_SIZE + length p < 2 ^ 32" by simp
  note w = write_msg_send_buf [OF this, of s]
  from Cons.prems(2) w obtain t where t: "write_loop s (frame p) = Some (IO4E_OK, t)"
    and rest: "send_msgs t ps = Some (IO4E_OK, s')"
    by (auto simp del: length_send_buf split: option.splits if_splits)
  from write_loop_result [OF t] have "s_out t = s_out s @ frame p"
    by (auto simp: err_defs)
  with Cons.IH [OF _ rest] Cons.prems(1) show ?case by simp
qed

lemma hdr_len_frame:
  assumes "length p < 2 ^ 16"
  shows "hdr_len (put_header (of_nat (length p))) = of_nat (length p)"
    "unat (of_nat (length p) :: u32) = length p"
  using assms hdr_len_put_header_small [of "of_nat (length p)"] by (simp_all add: unat_of_nat_u32)

lemma recv_msgs_frames:
  assumes "\<forall>p \<in> set ps. length p < 2 ^ 16"
    and "mem_wf m" "m_fail m = []" "rd_quiet s" "s_sel s = []" "fd_set_ok (s_fd s)"
    and "s_in s = concat (map frame ps) @ rest"
  shows "\<exists>s' m'. recv_msgs (length ps) s m = Some (IO4E_OK, ps, s', m') \<and> s_in s' = rest
           \<and> m_store m' = m_store m"
  using assms
proof (induction ps arbitrary: s m)
  case Nil
  then show ?case by simp
next
  case (Cons p ps)
  let ?h = "put_header (of_nat (length p)) :: bytes"
  from Cons.prems(1) have small: "length p < 2 ^ 16" by simp
  note hl = hdr_len_frame [OF small]
  have sel: "sys_select s 1 = (1, s)" using Cons.prems(5,7)
    by (simp add: sys_select_def frame_def put_header_def)
  from Cons.prems(7) have inp: "s_in s = ?h @ p @ concat (map frame ps) @ rest"
    by (simp add: frame_def [of p])
  obtain q t m1 where r: "read_msg s 1 m = Some (IO4E_OK, q, Some (hdr_len ?h), t, m1)"
    "s_in t = concat (map frame ps) @ rest" "received m m1 q (hdr_len ?h) p" "mem_wf m1"
    "rd_quiet t" "m_fail m1 = []" "s_sel t = []"
    by (rule read_msg_quiet [OF Cons.prems(2,4,3,6) _ inp, of 1]) (use sel hl Cons.prems(5) in auto)
  have fd: "fd_set_ok (s_fd t)" using socket_read_frame [OF r(1)] Cons.prems(6) by simp
  show ?case
  proof (cases "p = []")
    case True
    with r(3) hl have "m_store m1 = m_store m" by (simp add: received_def)
    with Cons.IH [OF _ r(4,6,5,7) fd r(2)] Cons.prems(1) r(1) hl True show ?thesis by auto
  next
    case False
    with hl have nz: "hdr_len ?h \<noteq> 0" by (metis length_0_conv unat_0)
    with r(3) have q: "q \<noteq> NULL" "q \<notin> live m" "m_store m1 = (m_store m)(q \<mapsto> OBuf p)"
      by (simp_all add: received_def)
    define m2 where "m2 = m1\<lparr>m_store := m_store m\<rparr>"
    have fr: "free q m1 = Some m2" and gb: "get_buf q m1 = Some p"
      using r(4) q by (auto simp: get_buf_def deref_def m2_def domIff fun_upd_idem)
    from Cons.IH [OF _ free_wf [OF r(4) fr] _ r(5,7) fd r(2)] Cons.prems(1) r(6)
    obtain s' m' where "recv_msgs (length ps) t m2 = Some (IO4E_OK, ps, s', m')" "s_in s' = rest"
      "m_store m' = m_store m" by (auto simp: m2_def)
    with r(1) nz fr gb show ?thesis by auto
  qed
qed


section \<open>Opening and closing a connection\<close>

text \<open>
  The environment of \<open>transport_connect\<close> and \<open>io4edge_transport_new\<close>: the resolver, the peers
  that accept connections (with the connection's behaviour), the next descriptor \<open>socket\<close> will
  return (negative when it fails), whether \<open>calloc\<close> succeeds, and the two resources
  that must not leak: open descriptors and live handles.
\<close>

record net =
  n_dns :: "string \<Rightarrow> u32 list option"
  n_peer :: "u32 \<Rightarrow> 16 word \<Rightarrow> sock option"
  n_next_fd :: int
  n_calloc_ok :: bool
  n_open :: "int list"
  n_handles :: nat

definition sys_close :: "int \<Rightarrow> net \<Rightarrow> net" where
  "sys_close fd n = n\<lparr>n_open := remove1 fd (n_open n)\<rparr>"

text \<open>
  The result carries the connected socket when \<open>*socket_p\<close> was set. A host entry without an
  address makes the code read through a null pointer. A failing \<open>setsockopt\<close> is only logged.
\<close>

definition transport_connect ::
  "string \<Rightarrow> int \<Rightarrow> net \<Rightarrow> (io4e_err_t \<times> sock option \<times> net) option" where
  "transport_connect host port n =
     (case n_dns n host of
        None \<Rightarrow> Some (IO4E_FAIL, None, n)
      | Some [] \<Rightarrow> None
      | Some (addr # _) \<Rightarrow>
          let fd = n_next_fd n in
          if fd < 0 then Some (IO4E_FAIL, None, n)
          else
            let n1 = n\<lparr>n_open := fd # n_open n\<rparr> in
            (case n_peer n1 addr (word_of_int port) of
               None \<Rightarrow> Some (IO4E_FAIL, None, sys_close fd n1)
             | Some s \<Rightarrow> Some (IO4E_OK, Some (s\<lparr>s_fd := fd\<rparr>), n1)))"

definition io4edge_transport_new ::
  "string \<Rightarrow> int \<Rightarrow> net \<Rightarrow> (io4e_err_t \<times> sock option \<times> net) option" where
  "io4edge_transport_new host port n =
     (if \<not> n_calloc_ok n then Some (IO4E_ERR_NO_MEM, None, n)
      else
        (case transport_connect host port (n\<lparr>n_handles := Suc (n_handles n)\<rparr>) of
           None \<Rightarrow> None
         | Some (ret, s, n1) \<Rightarrow>
             if ret \<noteq> IO4E_OK then Some (ret, None, n1\<lparr>n_handles := n_handles n1 - 1\<rparr>)
             else Some (IO4E_OK, s, n1)))"

definition destroy :: "sock option \<Rightarrow> net \<Rightarrow> sock option \<times> net" where
  "destroy handle n =
     (case handle of
        None \<Rightarrow> (None, n)
      | Some h \<Rightarrow> (None, (sys_close (s_fd h) n)\<lparr>n_handles := n_handles n - 1\<rparr>))"


section \<open>The interface\<close>

text \<open>
  \<open>transport_t\<close>: the function pointers of a transport whose handle has the type \<open>'h\<close>, and the
  ones \<open>io4edge_transport_new\<close> fills in.
\<close>

record ('h, 'fs) transport_t =
  t_write_msg :: "'h \<Rightarrow> bytes \<Rightarrow> u32 \<Rightarrow> (io4e_err_t \<times> 'h) option"
  t_read_msg :: "'h \<Rightarrow> int \<Rightarrow> 'fs heap \<Rightarrow> (io4e_err_t \<times> ptr \<times> u32 option \<times> 'h \<times> 'fs heap) option"
  t_get_write_offset :: "'h \<Rightarrow> u32"
  t_destroy :: "'h option \<Rightarrow> net \<Rightarrow> 'h option \<times> net"

definition socket_methods :: "(sock, 'fs) transport_t" where
  "socket_methods =
     \<lparr>t_write_msg = write_msg, t_read_msg = read_msg, t_get_write_offset = get_write_offset,
      t_destroy = destroy\<rparr>"

text \<open>
  What the reader thread relies on: a read that returns either fails and leaves the heap's contents
  alone or delivers a payload, which is \<open>good\<close> when the peer sends nothing else. (Whether it returns
  is up to the peer.) The functionblock client also relies on writing: a write of a buffer that has
  room for the header returns.
\<close>

locale message_source =
  fixes methods :: "('h, 'fs) transport_t"
    and invar :: "'h \<Rightarrow> bool"
    and good :: "bytes \<Rightarrow> bool"
  assumes read_returned: "invar h \<Longrightarrow> mem_wf m \<Longrightarrow>
      t_read_msg methods h t m = Some (err, p, l, h', m') \<Longrightarrow> invar h' \<and> mem_wf m' \<and>
        (err \<noteq> IO4E_OK \<and> m_store m' = m_store m \<or>
         err = IO4E_OK \<and> (\<exists>len data. l = Some len \<and> received m m' p len data \<and> (data \<noteq> [] \<longrightarrow> good data)))"
begin

lemma read_cases:
  assumes "invar h" "mem_wf m"
  obtains (blocked) "t_read_msg methods h t m = None"
    | (error) err p l h' m' where "t_read_msg methods h t m = Some (err, p, l, h', m')"
      "err \<noteq> IO4E_OK" "invar h'" "mem_wf m'" "m_store m' = m_store m"
    | (empty) h' m' where "t_read_msg methods h t m = Some (IO4E_OK, NULL, Some 0, h', m')"
      "invar h'" "mem_wf m'" "m_store m' = m_store m"
    | (data) p len data h' m' where "t_read_msg methods h t m = Some (IO4E_OK, p, Some len, h', m')"
      "invar h'" "mem_wf m'" "len \<noteq> 0" "length data = unat len" "p \<noteq> NULL" "p \<notin> live m"
      "m_store m' = (m_store m)(p \<mapsto> OBuf data)" "good data"
proof (cases "t_read_msg methods h t m")
  case None
  with blocked show ?thesis .
next
  case (Some x)
  obtain err p l h' m' where x: "x = (err, p, l, h', m')" by (cases x) auto
  with Some have r: "t_read_msg methods h t m = Some (err, p, l, h', m')" by simp
  from read_returned [OF assms r] have q: "invar h'" "mem_wf m'"
      "err \<noteq> IO4E_OK \<and> m_store m' = m_store m \<or>
       err = IO4E_OK \<and> (\<exists>len data. l = Some len \<and> received m m' p len data \<and> (data \<noteq> [] \<longrightarrow> good data))"
    by simp_all
  from q(3) show ?thesis
  proof (elim disjE conjE exE)
    fix len bs
    assume ok: "err = IO4E_OK" "l = Some len" "received m m' p len bs" "bs \<noteq> [] \<longrightarrow> good bs"
    show ?thesis
    proof (cases "len = 0")
      case True
      with ok r q(1,2) show ?thesis by (intro empty [of h' m']) (simp_all add: received_def)
    next
      case False
      then have "bs \<noteq> []" using ok(3) by (auto simp: received_def unat_eq_zero)
      with False ok r q(1,2) show ?thesis by (intro data [of p len h' m' bs]) (simp_all add: received_def)
    qed
  next
    assume "err \<noteq> IO4E_OK" "m_store m' = m_store m"
    with r q(1,2) show ?thesis by (intro error)
  qed
qed

end

locale transport_contract = message_source methods invar good
  for methods :: "('h, 'fs) transport_t" and invar :: "'h \<Rightarrow> bool" and good :: "bytes \<Rightarrow> bool" +
  assumes write_returns: "invar h \<Longrightarrow> unat len \<le> length buf \<Longrightarrow>
      \<exists>err h'. t_write_msg methods h buf len = Some (err, h') \<and> invar h'"

lemma write_msg_returns:
  assumes "wr_live s" "unat len \<le> length buf"
  shows "\<exists>err s'. write_msg s buf len = Some (err, s') \<and> s_rd s' = s_rd s \<and> s_wr s' = s_wr s \<and>
    s_fd s' = s_fd s \<and> s_in s' = s_in s"
proof (cases "unat len < FSTREAM_HEADER_SIZE")
  case False
  let ?b = "put_header (len - of_nat FSTREAM_HEADER_SIZE)
              @ drop FSTREAM_HEADER_SIZE (take (unat len) buf)"
  from write_loop_returns [OF assms(1)] obtain r where r: "write_loop s ?b = Some r" by blast
  with write_loop_result [OF r] False assms(2) show ?thesis
    by (cases r) (auto simp: write_msg_def)
qed (simp add: write_msg_def)

text \<open>
  The connection on the descriptor \<open>fd\<close> as the reader sees it, and one that writes also get through:
  the numbers \<open>read\<close> puts into \<open>errno\<close> are positive, the peer's frames are \<open>good\<close>, and the transport
  never changes the descriptor.
\<close>

definition rd_sound :: "int \<Rightarrow> (bytes \<Rightarrow> bool) \<Rightarrow> sock \<Rightarrow> bool" where
  "rd_sound fd good h \<longleftrightarrow> errno_wf h \<and> s_fd h = fd \<and> fd_set_ok fd \<and> frames_ok good (s_in h)"

definition sock_live :: "int \<Rightarrow> (bytes \<Rightarrow> bool) \<Rightarrow> sock \<Rightarrow> bool" where
  "sock_live fd good h \<longleftrightarrow> rd_sound fd good h \<and> wr_live h"

lemma rd_sound_read:
  assumes "rd_sound fd good h" "mem_wf m" "read_msg h t m = Some (err, p, l, h', m')"
  shows "rd_sound fd good h' \<and> mem_wf m' \<and>
        (err \<noteq> IO4E_OK \<and> m_store m' = m_store m \<or>
         err = IO4E_OK \<and> (\<exists>len data. l = Some len \<and> received m m' p len data \<and> (data \<noteq> [] \<longrightarrow> good data)))"
proof -
  from assms(1) have h: "errno_wf h" "s_fd h = fd" "fd_set_ok fd" "frames_ok good (s_in h)"
    by (simp_all add: rd_sound_def)
  have fd: "s_fd h' = fd" using socket_read_frame [OF assms(3)] h(2) by simp
  from assms(2) h(1) show ?thesis
  proof (cases rule: read_msg_cases [where t = t])
    case none
    with assms(3) show ?thesis by simp
  next
    case (error e s' n bs)
    then have "frames_ok good (s_in s')" using h(4) frames_ok_suffix by metis
    with error assms(3) fd h(3) show ?thesis by (simp add: rd_sound_def)
  next
    case (ok hdr data q len s' n)
    have "frames_ok good (s_in s')"
      using frames_ok_suffix [of good "hdr @ data" "s_in s'"] h(4) ok(2) by simp
    moreover have "good data" if "data \<noteq> []"
    proof (rule frames_ok_first [of good hdr data "s_in s'"])
      show "length data = unat (hdr_len hdr)" using ok(5,6) by (simp add: received_def)
    qed (use h(4) ok that in simp_all)
    ultimately show ?thesis using ok assms(3) fd h(3) by (auto simp: rd_sound_def)
  qed
qed

interpretation source: message_source socket_methods "rd_sound fd good" good for fd good
  by unfold_locales (use rd_sound_read in \<open>simp add: socket_methods_def\<close>)

interpretation socket: transport_contract socket_methods "sock_live fd good" good for fd good
proof unfold_locales
  fix h h' :: sock and m m' :: "'a heap" and t err p l
  assume inv: "sock_live fd good h" and wf: "mem_wf m"
    and "t_read_msg socket_methods h t m = Some (err, p, l, h', m')"
  then have rd: "read_msg h t m = Some (err, p, l, h', m')" by (simp add: socket_methods_def)
  from inv have "rd_sound fd good h" by (simp add: sock_live_def)
  from rd_sound_read [OF this wf rd] socket_read_frame [OF rd] inv
  show "sock_live fd good h' \<and> mem_wf m' \<and>
        (err \<noteq> IO4E_OK \<and> m_store m' = m_store m \<or>
         err = IO4E_OK \<and> (\<exists>len data. l = Some len \<and> received m m' p len data \<and> (data \<noteq> [] \<longrightarrow> good data)))"
    by (simp add: sock_live_def wr_live_def)
next
  fix h :: sock and len :: u32 and buf :: bytes
  assume "sock_live fd good h" "unat len \<le> length buf"
  with write_msg_returns [of h len buf]
  show "\<exists>err h'. t_write_msg socket_methods h buf len = Some (err, h') \<and> sock_live fd good h'"
    by (auto simp: socket_methods_def sock_live_def rd_sound_def wr_live_def errno_wf_def)
qed


text \<open>A connection that never breaks and always drains again.\<close>

definition wr_reliable :: "sock \<Rightarrow> bool" where
  "wr_reliable s \<longleftrightarrow> wr_live s \<and> (\<forall>i e. s_wr s i = Wr_Err e \<longrightarrow> wr_retry e)"

lemma write_loop_no_FAIL:
  assumes "write_loop s buf = Some r" "\<forall>i e. s_wr s i = Wr_Err e \<longrightarrow> wr_retry e"
  shows "fst r = IO4E_OK"
proof -
  have "(\<forall>i e. s_wr s i = Wr_Err e \<longrightarrow> wr_retry e) \<longrightarrow> fst r = IO4E_OK"
  proof (rule write_loop.raw_induct [where
        P = "\<lambda>s buf r. (\<forall>i e. s_wr s i = Wr_Err e \<longrightarrow> wr_retry e) \<longrightarrow> fst r = IO4E_OK", OF _ assms(1)],
        goal_cases)
    case (1 f s buf r)
    obtain w t where w: "sys_write s buf = (w, t)" by fastforce
    note fr = sys_write_frame(5) [OF w]
    show ?case
    proof (intro impI)
      assume ok: "\<forall>i e. s_wr s i = Wr_Err e \<longrightarrow> wr_retry e"
      show "fst r = IO4E_OK"
      proof (cases w)
        case (Wr_Wrote n)
        with 1 w fr ok show ?thesis by (cases "buf = []") auto
      next
        case (Wr_Failed e)
        with sys_write_Failed(2) [of s buf e t] w ok have "wr_retry e" by blast
        with 1(2) w Wr_Failed have "buf = [] \<and> r = (IO4E_OK, s) \<or> f t buf = Some r"
          by (cases "buf = []") (auto simp: wr_retry_def)
        with 1(1) [of t buf r] fr ok show ?thesis by auto
      qed
    qed
  qed
  with assms(2) show ?thesis by blast
qed

lemma send_msgs_OK:
  "wr_reliable s \<Longrightarrow> \<forall>p \<in> set ps. FSTREAM_HEADER_SIZE + length p < 2 ^ 32 \<Longrightarrow>
     \<exists>s'. send_msgs s ps = Some (IO4E_OK, s')"
proof (induction ps arbitrary: s)
  case Nil
  then show ?case by simp
next
  case (Cons p ps)
  from Cons.prems(1) have live: "wr_live s" and ok: "\<forall>i e. s_wr s i = Wr_Err e \<longrightarrow> wr_retry e"
    by (simp_all add: wr_reliable_def)
  from write_loop_returns [OF live] obtain r where r: "write_loop s (frame p) = Some r" by blast
  with write_loop_no_FAIL [OF r ok] obtain t where t: "write_loop s (frame p) = Some (IO4E_OK, t)"
    by (cases r) auto
  with write_loop_result [OF t] Cons.prems(1) have "wr_reliable t"
    by (auto simp: wr_reliable_def wr_live_def)
  from Cons.IH [OF this] Cons.prems(2) t write_msg_send_buf [of p s] show ?case
    by (simp del: length_send_buf)
qed


section \<open>Properties\<close>

text \<open>C3 Messages survive the transport: whatever \<open>write_msg\<close> sends for a list of payloads of less
  than 64 KiB each, however the kernel cuts the stream into short writes and short reads,
  \<open>read_msg\<close> delivers the same payloads in the same order, consumes exactly the bytes sent and,
  once the reader has freed each buffer, leaves the heap as it was.\<close>

theorem transport_stream_roundtrip:
  assumes "\<forall>p \<in> set ps. length p < 2 ^ 16"
    and "send_msgs ws ps = Some (IO4E_OK, ws')" "s_out ws = []"
    and "rd_quiet rs" "s_sel rs = []" "s_in rs = s_out ws'" "fd_set_ok (s_fd rs)"
    and "mem_wf m" "m_fail m = []"
  shows "\<exists>rs' m'. recv_msgs (length ps) rs m = Some (IO4E_OK, ps, rs', m') \<and> s_in rs' = []
           \<and> m_store m' = m_store m"
proof -
  have "\<forall>p \<in> set ps. FSTREAM_HEADER_SIZE + length p < 2 ^ 32"
    using assms(1) by (auto simp: FSTREAM_HEADER_SIZE_def)
  from send_msgs_out [OF this assms(2)] assms(3,6) have "s_in rs = concat (map frame ps) @ []"
    by simp
  from recv_msgs_frames [OF assms(1,8,9,4,5,7) this] show ?thesis .
qed

definition demo_sock :: "bytes \<Rightarrow> sock" where
  "demo_sock input = \<lparr>s_fd = 3, s_in = input, s_open = False, s_rd = [Rd_Data 4, Rd_Data 1, Rd_Data 1], s_sel = [],
     s_out = [], s_wr = (\<lambda>i. if even i then Wr_Err EAGAIN else Wr_Data 7), s_wpos = 0\<rparr>"

definition demo_heap :: "nat heap" where
  "demo_heap = \<lparr>m_store = Map.empty, m_next = 1, m_fail = []\<rparr>"

lemmas demo_defs = demo_sock_def demo_heap_def

lemma demo_wf: "mem_wf demo_heap" "m_fail demo_heap = []" "rd_quiet (demo_sock x)"
    "errno_wf (demo_sock x)" "s_sel (demo_sock x) = []" "s_out (demo_sock x) = []"
    "s_in (demo_sock x) = x" "fd_set_ok (s_fd (demo_sock x))"
  by (simp_all add: demo_defs mem_wf_def rd_quiet_def errno_wf_def fd_set_ok_def FD_SETSIZE_def)

lemma demo_live: "wr_live (demo_sock x)"
  unfolding wr_live_def
proof
  fix i :: nat
  show "\<exists>n. wr_progress (s_wr (demo_sock x) (i + n))"
    by (rule exI [of _ "if even i then 1 else 0"]) (simp add: demo_sock_def wr_progress_def)
qed

lemma demo_reliable: "wr_reliable (demo_sock x)"
  by (auto simp: wr_reliable_def demo_live) (auto simp: demo_sock_def wr_retry_def split: if_splits)

theorem transport_stream_roundtrip_witness:
  "\<exists>rs' m'. recv_msgs (length [[1, 2, 3], [], [9 :: byte]])
      (demo_sock (concat (map frame [[1, 2, 3], [], [9]]))) demo_heap
      = Some (IO4E_OK, [[1, 2, 3], [], [9]], rs', m') \<and> s_in rs' = [] \<and> m_store m' = Map.empty"
proof -
  have small: "\<forall>p \<in> set [[1, 2, 3], [], [9 :: byte]]. FSTREAM_HEADER_SIZE + length p < 2 ^ 32"
    by (simp add: FSTREAM_HEADER_SIZE_def)
  from send_msgs_OK [OF demo_reliable small, of "[]"] obtain ws' where ws':
    "send_msgs (demo_sock []) [[1, 2, 3], [], [9]] = Some (IO4E_OK, ws')" by blast
  with send_msgs_out [OF small this] have out: "s_out ws' = concat (map frame [[1, 2, 3], [], [9]])"
    by (simp add: demo_wf)
  have e: "m_store demo_heap = Map.empty" by (simp add: demo_heap_def)
  show ?thesis
    unfolding e [symmetric]
    by (rule transport_stream_roundtrip [OF _ ws']) (simp_all only: demo_wf out, simp)
qed


text \<open>C28 On a live connection \<open>write_msg\<close> returns, and what it put on the wire is a prefix of the
  frame (header, then the payload that followed the reserved header room in the buffer): all of
  it for \<open>IO4E_OK\<close>, a proper prefix for \<open>IO4E_FAIL\<close>. It sends nothing else and returns nothing
  else.\<close>

theorem write_msg_total:
  assumes "wr_live s" "length buf = unat len" "FSTREAM_HEADER_SIZE \<le> unat len"
  shows "\<exists>err s' k. write_msg s buf len = Some (err, s') \<and>
    s_out s' = s_out s @ take k (put_header (len - of_nat FSTREAM_HEADER_SIZE)
                                   @ drop FSTREAM_HEADER_SIZE buf) \<and>
    (err = IO4E_OK \<and> k = length buf \<or> err = IO4E_FAIL \<and> k < length buf)"
proof -
  let ?f = "put_header (len - of_nat FSTREAM_HEADER_SIZE) @ drop FSTREAM_HEADER_SIZE buf"
  from write_loop_returns [OF assms(1)] obtain err s' where r: "write_loop s ?f = Some (err, s')"
    by fastforce
  have "length ?f = length buf" using assms(2,3) by simp
  with write_loop_result [OF r] obtain k where k: "s_out s' = s_out s @ take k ?f"
    "err = IO4E_OK \<and> k = length buf \<or> err = IO4E_FAIL \<and> k < length buf" by auto
  moreover have "write_msg s buf len = Some (err, s')"
    using r assms(2,3) by (simp add: write_msg_def)
  ultimately show ?thesis by blast
qed

theorem write_msg_total_witness:
  "\<exists>err s' k. write_msg (demo_sock []) [0, 0, 0, 0, 0, 0, 7] 7 = Some (err, s') \<and>
    s_out s' = s_out (demo_sock []) @ take k (put_header (7 - of_nat FSTREAM_HEADER_SIZE)
                 @ drop FSTREAM_HEADER_SIZE [0, 0, 0, 0, 0, 0, 7]) \<and>
    (err = IO4E_OK \<and> k = length [0, 0, 0, 0, 0, 0, 7 :: byte] \<or>
     err = IO4E_FAIL \<and> k < length [0, 0, 0, 0, 0, 0, 7 :: byte])"
  by (rule write_msg_total [OF demo_live]) (simp_all add: FSTREAM_HEADER_SIZE_def)

text \<open>C38 \<open>write_msg\<close> has no bound on its retries: on a connection on which every further write
  is refused with a retryable error or accepts no byte, it never returns.\<close>

theorem write_msg_spins:
  assumes "\<And>i. s_wpos s \<le> i \<Longrightarrow> \<not> wr_progress (s_wr s i)"
    and "unat len \<le> length buf" "FSTREAM_HEADER_SIZE \<le> unat len"
  shows "write_msg s buf len = None"
proof -
  have "put_header (len - of_nat FSTREAM_HEADER_SIZE)
      @ drop FSTREAM_HEADER_SIZE (take (unat len) buf) \<noteq> []"
    by (simp add: put_header_def)
  from write_loop_spins [OF assms(1) this] assms(2,3) show ?thesis
    by (simp add: write_msg_def)
qed

theorem write_msg_spins_witness:
  "write_msg ((demo_sock [])\<lparr>s_wr := \<lambda>_. Wr_Err EAGAIN\<rparr>) [0, 0, 0, 0, 0, 0, 7] 7 = None"
  by (rule write_msg_spins)
     (simp_all add: wr_progress_def wr_retry_def FSTREAM_HEADER_SIZE_def)

text \<open>C27 What \<open>read_msg\<close> does on every input stream and every script of failing calls, for a descriptor that
  fits into an \<open>fd_set\<close>. It can only fail to return when the peer keeps the connection open and has
  sent less than a header, or after a correct header less than the payload it announces: so it
  returns whenever the peer has sent a whole frame, something else than a header, or closes. When it
  returns with an error it hands out no buffer and leaks none. When it succeeds it has consumed one
  header with the magic bytes and exactly the number of bytes the header announces, and hands them
  out in one fresh buffer (none for an empty payload).\<close>

theorem read_msg_total:
  assumes "mem_wf m" "errno_wf s" "fd_set_ok (s_fd s)"
  shows "read_msg s t m = None \<and> s_open s \<and> (length (s_in s) < FSTREAM_HEADER_SIZE \<or> take 2 (s_in s) = magic_bytes \<and>
      length (s_in s) < FSTREAM_HEADER_SIZE + unat (hdr_len (take FSTREAM_HEADER_SIZE (s_in s)))) \<or>
    (\<exists>err p l s' m'. read_msg s t m = Some (err, p, l, s', m') \<and> mem_wf m' \<and>
    (err \<noteq> IO4E_OK \<and> p = NULL \<and> m_store m' = m_store m \<or>
     err = IO4E_OK \<and>
       (\<exists>hdr data. s_in s = hdr @ data @ s_in s' \<and> length hdr = FSTREAM_HEADER_SIZE \<and>
          take 2 hdr = magic_bytes \<and> l = Some (hdr_len hdr) \<and> length data = unat (hdr_len hdr) \<and>
          (if data = [] then p = NULL \<and> m_store m' = m_store m
           else p \<noteq> NULL \<and> p \<notin> live m \<and> m_store m' = (m_store m)(p \<mapsto> OBuf data)))))"
  using assms(1,2)
proof (cases rule: read_msg_cases [where t = t])
  case none
  with read_msg_blocks [OF none assms(3,1,2)] show ?thesis by blast
next
  case (error err s' m' bs)
  then show ?thesis by blast
next
  case (ok hdr data p len s' m')
  moreover have "data = [] \<longleftrightarrow> len = 0"
    using ok(6) by (auto simp: received_def unat_eq_zero)
  ultimately have "length data = unat (hdr_len hdr)"
    "if data = [] then p = NULL \<and> m_store m' = m_store m
     else p \<noteq> NULL \<and> p \<notin> live m \<and> m_store m' = (m_store m)(p \<mapsto> OBuf data)"
    by (auto simp: received_def)
  with ok show ?thesis
    by (intro disjI2 exI [of _ IO4E_OK] exI [of _ p] exI [of _ "Some len"] exI [of _ s'] exI [of _ m'])
       (intro conjI disjI2 exI [of _ hdr] exI [of _ data]; simp)
qed

theorem read_msg_total_witness:
  "\<exists>err p l s' m'. read_msg (demo_sock [0xFE, 0xED, 2, 0, 0, 0, 8, 9, 5]) 1 demo_heap
      = Some (err, p, l, s', m') \<and> mem_wf m' \<and>
    (err \<noteq> IO4E_OK \<and> p = NULL \<and> m_store m' = m_store demo_heap \<or>
     err = IO4E_OK \<and>
       (\<exists>hdr data. s_in (demo_sock [0xFE, 0xED, 2, 0, 0, 0, 8, 9, 5]) = hdr @ data @ s_in s' \<and>
          length hdr = FSTREAM_HEADER_SIZE \<and>
          take 2 hdr = magic_bytes \<and> l = Some (hdr_len hdr) \<and> length data = unat (hdr_len hdr) \<and>
          (if data = [] then p = NULL \<and> m_store m' = m_store demo_heap
           else p \<noteq> NULL \<and> p \<notin> live demo_heap \<and>
             m_store m' = (m_store demo_heap)(p \<mapsto> OBuf data))))"
  using read_msg_total [OF demo_wf(1,4,8), where t = 1] by (simp add: demo_sock_def)

text \<open>A peer that stops in the middle of a frame.\<close>

lemma read_msg_in_frame:
  assumes "mem_wf m" "m_fail m = []" "rd_quiet s" "s_sel s = []" "s_open s" "0 \<le> t"
    and "fd_set_ok (s_fd s)" "length p < 2 ^ 16" "0 < k" "k < length (frame p)" "s_in s = take k (frame p)"
  shows "read_msg s t m = None"
proof -
  let ?h = "put_header (of_nat (length p)) :: bytes"
  note hl = hdr_len_frame [OF assms(8)]
  have sel: "sys_select s t = (1, s)"
    using assms(4,6,9-11) by (auto simp: sys_select_def frame_def put_header_def magic_bytes_def)
  show ?thesis
  proof (cases "k < FSTREAM_HEADER_SIZE")
    case True
    then have "length (s_in s) < FSTREAM_HEADER_SIZE" using assms(11) by simp
    with read_complete_quiet [OF assms(3), of FSTREAM_HEADER_SIZE "[]"] assms(5)
    have "read_complete s FSTREAM_HEADER_SIZE [] = None" by simp
    with sel show ?thesis by (simp add: read_msg_def)
  next
    case False
    then have inp: "s_in s = ?h @ take (k - FSTREAM_HEADER_SIZE) p" using assms(11) by (simp add: frame_def)
    from read_complete_quiet [OF assms(3), of FSTREAM_HEADER_SIZE "[]"] inp
    obtain s1 where rd1: "read_complete s FSTREAM_HEADER_SIZE [] = Some (IO4E_OK, ?h, s1)"
      and in1: "s_in s1 = take (k - FSTREAM_HEADER_SIZE) p" by auto
    from read_complete_frame [OF rd1] assms(3,5) have q1: "rd_quiet s1" "s_open s1" by auto
    have less: "length (s_in s1) < length p" using in1 False assms(10) by (simp add: frame_def)
    with read_complete_quiet [OF q1(1), of "length p" "[]"] q1(2)
    have rd2: "read_complete s1 (length p) [] = None" by simp
    have pos: "0 < hdr_len ?h" using hl less by (simp add: word_gt_0 unat_eq_zero [symmetric] del: unat_eq_zero) auto
    obtain q m1 where ma: "malloc (OBuf []) m = (q, m1)" by fastforce
    with assms(1,2) have "q \<noteq> NULL" by (auto simp: malloc_def mem_wf_next_pos)
    with sel rd1 rd2 ma pos hl show ?thesis
      by (simp add: read_msg_def err_defs errno_defs)
  qed
qed

text \<open>C39 The timeout of \<open>read_msg\<close> is not one: a peer that stops in the middle of a frame, after at least one
  byte of it, and keeps the connection open holds \<open>read_msg\<close> for ever, whatever timeout it is called with
  and however the stream is cut into reads, because the timeout only bounds the wait for the first byte.\<close>

theorem read_msg_stalls:
  assumes "mem_wf m" "m_fail m = []" "rd_quiet s" "s_sel s = []" "s_open s" "0 \<le> t"
    and "fd_set_ok (s_fd s)" "length p < 2 ^ 16" "0 < k" "k < length (frame p)" "s_in s = take k (frame p)"
  shows "read_msg s t m = None"
  using assms by (rule read_msg_in_frame)

theorem read_msg_stalls_witness:
  "read_msg ((demo_sock [0xFE, 0xED, 3, 0, 0, 0, 7])\<lparr>s_open := True\<rparr>) 1 demo_heap = None"
  by (rule read_msg_stalls [where p = "[7, 8, 9]" and k = 7])
     (simp_all add: demo_wf demo_sock_def rd_quiet_def frame_def put_header_def magic_bytes_def fd_set_ok_def
       FD_SETSIZE_def)

text \<open>C32 The length field of the header \<open>write_msg\<close> puts in front of a payload is read back as
  the payload's length exactly when bits 24 to 31 of the length equal bits 16 to 23: the top
  byte is computed with a shift by 16 instead of 24. It is right below 64 KiB and announces
  16842752 bytes for a payload of 65536.\<close>

theorem put_header_length:
  "(hdr_len (put_header n) = n) = (drop_bit 24 n = drop_bit 16 n AND mask 8)
   \<and> hdr_len (put_header 65536) = 16842752"
  by (simp only: hdr_len_put_header_iff simp_thms)
     (simp add: hdr_len_put_header mask_eq_exp_minus_1)

text \<open>C37 How \<open>read_msg\<close> reports a read that fails, once \<open>select\<close> let it through. In the header, after any
  number of bytes of it: \<open>EAGAIN\<close> as a timeout, every other \<open>errno\<close> as the raw number. In the payload,
  after a correct header: every \<open>errno\<close> as the raw number, and the buffer is freed again. The numbers are
  also codes of the library: an interrupted read (\<open>EINTR\<close>, 4) comes out as
  \<open>IO4E_ERR_CONNECTION_CLOSED\<close>, and in the payload \<open>EAGAIN\<close> (11) as \<open>IO4E_ERR_FB_UNKNOWN_COMMAND\<close>.\<close>

theorem read_msg_errno:
  assumes "fd_set_ok (s_fd s)" "sys_select s t = (1, s0)" "mem_wf m" "m_fail m = []" "0 < e" "0 < k"
    and "s_in s = hdr @ rest" "length hdr = k" "s_rd s = Rd_Data k # Rd_Err e # r"
  shows "(k < FSTREAM_HEADER_SIZE \<longrightarrow>
      read_msg s t m = Some (if e = EAGAIN then IO4E_ERR_TIMEOUT else e, NULL, None,
        s0\<lparr>s_rd := r, s_in := rest\<rparr>, m)) \<and>
    (k = FSTREAM_HEADER_SIZE \<longrightarrow> take 2 hdr = magic_bytes \<longrightarrow> 0 < hdr_len hdr \<longrightarrow>
      (\<exists>m'. read_msg s t m = Some (e, NULL, None, s0\<lparr>s_rd := r, s_in := rest\<rparr>, m') \<and> m_store m' = m_store m))"
proof -
  note fr0 = sys_select_frame [OF assms(2)]
  let ?s1 = "s0\<lparr>s_rd := Rd_Err e # r, s_in := rest\<rparr>" and ?s2 = "s0\<lparr>s_rd := r, s_in := rest\<rparr>"
  have ne: "s_in s0 \<noteq> []" "s_in s0 = hdr @ rest" using assms(6-8) fr0 by auto
  have fail: "read_complete ?s1 n acc = Some (e, acc, ?s2)" if "0 < n" for n acc
    using that by (subst read_complete.simps) (simp add: sys_read_def)
  have got: "sys_read s0 FSTREAM_HEADER_SIZE = Some (Rd_Got hdr, ?s1)" if "k \<le> FSTREAM_HEADER_SIZE"
    using that assms(6,8,9) ne fr0 by (simp add: sys_read_def Let_def MAX_RW_COUNT_def FSTREAM_HEADER_SIZE_def)
  have "read_msg s t m = Some (if e = EAGAIN then IO4E_ERR_TIMEOUT else e, NULL, None, ?s2, m)"
    if "k < FSTREAM_HEADER_SIZE"
  proof -
    have "read_complete s0 FSTREAM_HEADER_SIZE [] = Some (e, hdr, ?s2)"
      using that got fail [of "FSTREAM_HEADER_SIZE - k" hdr] assms(8)
      by (subst read_complete.simps) (simp add: FSTREAM_HEADER_SIZE_def)
    with assms(1,2,5) show ?thesis by (simp add: read_msg_def err_defs errno_defs)
  qed
  moreover have "\<exists>m'. read_msg s t m = Some (e, NULL, None, ?s2, m') \<and> m_store m' = m_store m"
    if k: "k = FSTREAM_HEADER_SIZE" and magic: "take 2 hdr = magic_bytes" and pos: "0 < hdr_len hdr"
  proof -
    have rd1: "read_complete s0 FSTREAM_HEADER_SIZE [] = Some (IO4E_OK, hdr, ?s1)"
      using got k assms(8) by (subst read_complete.simps) (simp add: FSTREAM_HEADER_SIZE_def)
    obtain p m1 where ma: "malloc (OBuf []) m = (p, m1)" by fastforce
    with assms(3,4) have "p \<noteq> NULL" by (auto simp: malloc_def mem_wf_next_pos)
    moreover from assms(3) ma this obtain m2 where "free p m1 = Some m2" "m_store m2 = m_store m"
      by (rule free_payload)
    moreover have "read_complete ?s1 (unat (hdr_len hdr)) [] = Some (e, [], ?s2)"
      using pos by (intro fail) (simp add: word_gt_0 unat_gt_0)
    ultimately show ?thesis
      using assms(1,2,5) rd1 ma magic pos by (simp add: read_msg_def err_defs errno_defs)
  qed
  ultimately show ?thesis by blast
qed

theorem read_msg_errno_witness:
  "\<exists>m'. read_msg ((demo_sock [0xFE, 0xED, 2, 0, 0, 0, 7])\<lparr>s_rd := [Rd_Data 6, Rd_Err EINTR]\<rparr>) 1 demo_heap =
    Some (IO4E_ERR_CONNECTION_CLOSED, NULL, None, (demo_sock [7])\<lparr>s_rd := []\<rparr>, m') \<and> m_store m' = Map.empty"
  using read_msg_errno [of "(demo_sock [0xFE, 0xED, 2, 0, 0, 0, 7])\<lparr>s_rd := [Rd_Data 6, Rd_Err EINTR]\<rparr>" 1
      "(demo_sock [0xFE, 0xED, 2, 0, 0, 0, 7])\<lparr>s_rd := [Rd_Data 6, Rd_Err EINTR]\<rparr>" demo_heap EINTR 6
      "[0xFE, 0xED, 2, 0, 0, 0]" "[7]" "[]"]
  by (simp add: demo_wf demo_sock_def demo_heap_def mem_wf_def sys_select_def EINTR_def FSTREAM_HEADER_SIZE_def
      magic_bytes_def hdr_len_def fd_set_ok_def FD_SETSIZE_def IO4E_ERR_CONNECTION_CLOSED_def)


text \<open>\<open>io4edge_transport_new\<close> never leaks: on every failure (no memory, unknown host, no
  descriptor, connection refused) the open descriptors and live handles are as before and no
  handle is returned; on success exactly one of each was added, the handle carries the descriptor,
  and \<open>destroy\<close> gives both back. Only a host entry without any address is undefined.\<close>

theorem transport_new_resources:
  assumes "n_dns n host \<noteq> Some []"
  shows "\<exists>err h n'. io4edge_transport_new host port n = Some (err, h, n') \<and>
    (case h of
       None \<Rightarrow> err \<noteq> IO4E_OK \<and> n_open n' = n_open n \<and> n_handles n' = n_handles n
     | Some s \<Rightarrow> err = IO4E_OK \<and> s_fd s = n_next_fd n \<and> 0 \<le> s_fd s \<and>
         n_open n' = s_fd s # n_open n \<and> n_handles n' = Suc (n_handles n) \<and>
         (let d = snd (destroy h n') in n_open d = n_open n \<and> n_handles d = n_handles n))"
  using assms
  by (auto simp: io4edge_transport_new_def transport_connect_def sys_close_def destroy_def
      err_defs Let_def split: option.splits list.splits)

definition demo_net :: net where
  "demo_net = \<lparr>n_dns = (\<lambda>h. if h = ''device'' then Some [0x7F000001, 1] else None),
     n_peer = (\<lambda>a p. if a = 0x7F000001 \<and> p = 10000 then Some (demo_sock []) else None),
     n_next_fd = 5, n_calloc_ok = True, n_open = [0, 1, 2], n_handles = 0\<rparr>"

theorem transport_new_resources_witness:
  "\<exists>err h n'. io4edge_transport_new ''device'' 10000 demo_net = Some (err, h, n') \<and>
    (case h of
       None \<Rightarrow> err \<noteq> IO4E_OK \<and> n_open n' = n_open demo_net \<and> n_handles n' = n_handles demo_net
     | Some s \<Rightarrow> err = IO4E_OK \<and> s_fd s = n_next_fd demo_net \<and> 0 \<le> s_fd s \<and>
         n_open n' = s_fd s # n_open demo_net \<and> n_handles n' = Suc (n_handles demo_net) \<and>
         (let d = snd (destroy h n')
          in n_open d = n_open demo_net \<and> n_handles d = n_handles demo_net))"
  by (rule transport_new_resources) (simp add: demo_net_def)

text \<open>C33 A frame whose header arrives in two pieces with a would-block error in between is lost
  without a trace: \<open>read_msg\<close> reports an ordinary timeout, but the first piece has been consumed,
  and the next call takes the rest of the header for a new frame and, when that does not look
  like one, drops six more bytes of the stream.\<close>

theorem read_msg_partial_header:
  assumes "s_sel s = []" "s_rd s = Rd_Data k # Rd_Err EAGAIN # r" "rd_quiet (s\<lparr>s_rd := r\<rparr>)"
    and "s_in s = hd1 @ hd2 @ rest" "length hd1 = k" "0 < k" "k < FSTREAM_HEADER_SIZE"
    and "length hd2 = FSTREAM_HEADER_SIZE" "take 2 hd2 \<noteq> magic_bytes" "fd_set_ok (s_fd s)"
  shows "\<exists>s1 s2. read_msg s 1 m = Some (IO4E_ERR_TIMEOUT, NULL, None, s1, m) \<and>
    read_msg s1 1 m = Some (IO4E_FAIL, NULL, None, s2, m) \<and> s_in s2 = rest"
proof -
  define s0 where "s0 = s\<lparr>s_rd := Rd_Err EAGAIN # r, s_in := hd2 @ rest\<rparr>"
  define s1 where "s1 = s\<lparr>s_rd := r, s_in := hd2 @ rest\<rparr>"
  have ne: "s_in s \<noteq> []" using assms(4-6) by auto
  have "sys_read s FSTREAM_HEADER_SIZE = Some (Rd_Got hd1, s0)"
    using assms(2,4-7) ne by (simp add: sys_read_def Let_def s0_def MAX_RW_COUNT_def FSTREAM_HEADER_SIZE_def)
  moreover have "read_complete s0 (FSTREAM_HEADER_SIZE - k) hd1 = Some (EAGAIN, hd1, s1)"
    using assms(7) by (subst read_complete.simps) (simp add: s0_def s1_def sys_read_def)
  ultimately have "read_complete s FSTREAM_HEADER_SIZE [] = Some (EAGAIN, hd1, s1)"
    using assms(5) by (subst read_complete.simps) (simp add: FSTREAM_HEADER_SIZE_def)
  then have "read_msg s 1 m = Some (IO4E_ERR_TIMEOUT, NULL, None, s1, m)"
    using assms(1,10) ne by (simp add: read_msg_def sys_select_def err_defs errno_defs)
  moreover have "\<exists>s2. read_msg s1 1 m = Some (IO4E_FAIL, NULL, None, s2, m) \<and> s_in s2 = rest"
    using assms(1,3,8-10)
    by (intro read_msg_bad_magic [of _ _ hd2]) (auto simp: s1_def sys_select_def rd_quiet_def FSTREAM_HEADER_SIZE_def)
  ultimately show ?thesis by blast
qed

theorem read_msg_partial_header_witness:
  "\<exists>s1 s2. read_msg ((demo_sock [0xFE, 0xED, 1, 0, 0, 0, 7, 0xFE, 0xED])
        \<lparr>s_rd := [Rd_Data 3, Rd_Err EAGAIN]\<rparr>) 1 demo_heap
      = Some (IO4E_ERR_TIMEOUT, NULL, None, s1, demo_heap) \<and>
    read_msg s1 1 demo_heap = Some (IO4E_FAIL, NULL, None, s2, demo_heap) \<and> s_in s2 = []"
  by (rule read_msg_partial_header [of _ 3 "[]" "[0xFE, 0xED, 1]" "[0, 0, 0, 7, 0xFE, 0xED]"])
     (simp_all add: demo_sock_def rd_quiet_def FSTREAM_HEADER_SIZE_def magic_bytes_def fd_set_ok_def FD_SETSIZE_def)

end
