(* ===== verification/Functionblock.thy ===== *)
theory Functionblock
  imports Transport Streamq
begin

text \<open>
  The functionblock client (\<open>functionblock.c\<close>): a command sent over the transport and answered by the
  reader thread through \<open>cmd_response\<close> and \<open>cmd_sem\<close>, the requests built on it, and the stream.

  The protobuf code is generated and not part of the sources: \<open>pb_api\<close> has the functions of it that
  this file uses. The user's thread and the reader thread meet where \<open>command\<close> waits for
  \<open>cmd_sem\<close>; what the reader does between the write and the end of the wait is the argument \<open>env\<close>
  of \<open>command\<close>, in the executions of interest some iterations of \<open>read_thread\<close>. Theory
  \<open>Command_Conc\<close> interleaves the two threads statement by statement.
\<close>

section \<open>State\<close>

definition CONFIG_STREAMQ_CAPACITY :: nat where
  "CONFIG_STREAMQ_CAPACITY = 100"

definition IO4E_FOREVER :: u64 where
  "IO4E_FOREVER = 10000000000"

text \<open>\<open>io4edge_functionblock_client_t\<close>; a mutex is whether it is locked, a semaphore its value.\<close>

record 'h client =
  fb_transport :: 'h
  cmd_context :: bytes
  cmd_timeout :: int
  cmd_mutex :: bool
  cmd_response :: ptr
  cmd_sem :: nat
  fb_streamq :: streamq_t

text \<open>A client with the heap and the clock.\<close>

record ('h, 'fs) fbsys = "'h client" +
  fb_heap :: "'fs heap"
  fb_now :: int

text \<open>
  The generated code: packing a command, unpacking a response, and the number of entries of
  \<open>functionblock__status__descriptor.values\<close>.
\<close>

record pb_api =
  pb_pack_command :: "command_pb \<Rightarrow> bytes"
  pb_unpack_response :: "bytes \<Rightarrow> stream_data response_pb option"
  pb_n_status :: int


section \<open>Allocation by the generated code\<close>

text \<open>
  \<open>functionblock__response__unpack\<close> allocates the response and, when it is one, the stream data it
  points to; it returns \<open>NULL\<close> and keeps nothing when the bytes are no response or memory is out.
\<close>

definition response__unpack :: "pb_api \<Rightarrow> bytes \<Rightarrow> 'fs heap \<Rightarrow> ptr \<times> 'fs heap" where
  "response__unpack pb data m =
     (case pb_unpack_response pb data of
        None \<Rightarrow> (NULL, m)
      | Some r \<Rightarrow>
          (case res_type r of
             RESPONSE_STREAM d \<Rightarrow>
               (case malloc (OStreamData d) m of (sd, m1) \<Rightarrow>
                if sd = NULL then (NULL, m1)
                else case malloc (OResponse \<lparr>res_context = res_context r, res_status = res_status r,
                              res_error = res_error r, res_type = RESPONSE_STREAM sd\<rparr>) m1 of (p, m2) \<Rightarrow>
                if p = NULL then (NULL, m2\<lparr>m_store := (m_store m2)(sd := None)\<rparr>) else (p, m2))
           | RESPONSE_CONFIGURATION a \<Rightarrow>
               malloc (OResponse \<lparr>res_context = res_context r, res_status = res_status r,
                         res_error = res_error r, res_type = RESPONSE_CONFIGURATION a\<rparr>) m
           | RESPONSE_FUNCTION_CONTROL a \<Rightarrow>
               malloc (OResponse \<lparr>res_context = res_context r, res_status = res_status r,
                         res_error = res_error r, res_type = RESPONSE_FUNCTION_CONTROL a\<rparr>) m
           | RESPONSE_OTHER \<Rightarrow>
               malloc (OResponse \<lparr>res_context = res_context r, res_status = res_status r,
                         res_error = res_error r, res_type = RESPONSE_OTHER\<rparr>) m))"

text \<open>\<open>functionblock__response__free_unpacked\<close>, which frees the stream data with the response.\<close>

definition response__free_unpacked :: "ptr \<Rightarrow> 'fs heap \<Rightarrow> 'fs heap option" where
  "response__free_unpacked p m =
     (if p = NULL then Some m
      else do {
        r \<leftarrow> get_response p m;
        m1 \<leftarrow> (case res_type r of RESPONSE_STREAM sd \<Rightarrow> free sd m | _ \<Rightarrow> Some m);
        free p m1 })"

text \<open>An \<open>io4edge_unpack_t\<close>: unpacks a function specific message to the heap.\<close>

definition fs_unpack :: "(bytes \<Rightarrow> 'fs option) \<Rightarrow> bytes \<Rightarrow> 'fs heap \<Rightarrow> ptr \<times> 'fs heap" where
  "fs_unpack unpack data m =
     (case unpack data of None \<Rightarrow> (NULL, m) | Some x \<Rightarrow> malloc (OFs x) m)"


section \<open>Commands\<close>

fun map_fb_error :: "fb_status \<Rightarrow> io4e_err_t" where
  "map_fb_error STATUS_OK = IO4E_OK"
| "map_fb_error STATUS_UNSPECIFIC_ERROR = IO4E_ERR_FB_UNSPECIFIC_ERROR"
| "map_fb_error STATUS_UNKNOWN_COMMAND = IO4E_ERR_FB_UNKNOWN_COMMAND"
| "map_fb_error STATUS_NOT_IMPLEMENTED = IO4E_ERR_FB_NOT_IMPLEMENTED"
| "map_fb_error STATUS_WRONG_CLIENT = IO4E_ERR_FB_WRONG_CLIENT"
| "map_fb_error STATUS_INVALID_PARAMETER = IO4E_ERR_FB_INVALID_PARAMETER"
| "map_fb_error STATUS_HW_FAULT = IO4E_ERR_FB_HW_FAULT"
| "map_fb_error STATUS_STREAM_ALREADY_STARTED = IO4E_ERR_FB_STREAM_ALREADY_STARTED"
| "map_fb_error STATUS_STREAM_ALREADY_STOPPED = IO4E_ERR_FB_STREAM_ALREADY_STOPPED"
| "map_fb_error STATUS_STREAM_START_FAILED = IO4E_ERR_FB_STREAM_START_FAILED"
| "map_fb_error STATUS_TEMPORARILY_UNAVAILABLE = IO4E_ERR_FB_TEMPORARILY_UNAVAILABLE"
| "map_fb_error (STATUS_OTHER n) = IO4E_ERR_FB_UNKNOWN"

text \<open>
  \<open>functionblock__status__descriptor.values[res->status]\<close> is inside the table for the values the
  enumeration names; the wire can carry any other.
\<close>

definition status_in_table :: "pb_api \<Rightarrow> fb_status \<Rightarrow> bool" where
  "status_in_table pb st =
     (case st of STATUS_OTHER n \<Rightarrow> 0 \<le> n \<and> n < pb_n_status pb | _ \<Rightarrow> True)"

text \<open>\<open>h->cmd_context[0]++\<close>\<close>

definition command_advance :: "('h, 'fs) fbsys \<Rightarrow> ('h, 'fs) fbsys option" where
  "command_advance s = do {
     c \<leftarrow> array_get (cmd_context s) 0;
     ctx \<leftarrow> array_put (cmd_context s) 0 (c + 1);
     Some (s\<lparr>cmd_context := ctx\<rparr>) }"

text \<open>
  \<open>command\<close> up to the write: take the mutex, advance the context id, pack the command behind room
  for the transport's header (the header bytes are uninitialised; zeros stand for them), write.
\<close>

definition command_send ::
  "('h, 'fs) transport_t \<Rightarrow> pb_api \<Rightarrow> command_pb \<Rightarrow> ('h, 'fs) fbsys \<Rightarrow> (io4e_err_t \<times> ('h, 'fs) fbsys) option"
where
  "command_send methods pb cmd s =
     (if cmd_mutex s then None
      else do {
        s \<leftarrow> command_advance (s\<lparr>cmd_mutex := True\<rparr>);
        let cmd = cmd\<lparr>cmd_ctx := Some (c_str (cmd_context s))\<rparr>;
        let marshaled = pb_pack_command pb cmd;
        let header_size = t_get_write_offset methods (fb_transport s);
        (err, h) \<leftarrow> t_write_msg methods (fb_transport s)
                     (replicate (unat header_size) 0 @ marshaled)
                     (of_nat (length marshaled) + header_size);
        Some (err, s\<lparr>fb_transport := h\<rparr>) })"

text \<open>
  \<open>command\<close> after the wait: take the response (\<open>command_finish\<close>), compare contexts, advance the
  context, check the status (\<open>command_check\<close>). \<open>want\<close> is whether the caller passed a \<open>res_p\<close>; the pointer returned is what \<open>*res_p\<close> holds
  at the end. A response without context, a failed one without error message and a status outside
  the name table are dereferenced all the same.
\<close>

definition command_check ::
  "pb_api \<Rightarrow> bool \<Rightarrow> ptr \<Rightarrow> ('h, 'fs) fbsys \<Rightarrow> (io4e_err_t \<times> ptr \<times> ('h, 'fs) fbsys) option" where
  "command_check pb want res s =
     (if res = NULL then Some (IO4E_FAIL, NULL, s)
      else do {
        r \<leftarrow> get_response res (fb_heap s);
        value \<leftarrow> res_context r;
        if \<not> strcmp_eq value (cmd_context s) then do {
          m \<leftarrow> response__free_unpacked res (fb_heap s);
          Some (IO4E_FAIL, NULL, s\<lparr>fb_heap := m\<rparr>) }
        else do {
          c \<leftarrow> array_get (cmd_context s) 0;
          ctx \<leftarrow> array_put (cmd_context s) 0 (if c + 1 = 90 then 65 else c + 1);
          let s = s\<lparr>cmd_context := ctx\<rparr>;
          if res_status r \<noteq> STATUS_OK then
            (if status_in_table pb (res_status r) \<and> res_error r \<noteq> None then do {
               m \<leftarrow> response__free_unpacked res (fb_heap s);
               Some (map_fb_error (res_status r), NULL, s\<lparr>fb_heap := m\<rparr>) }
             else None)
          else if want then Some (IO4E_OK, res, s)
          else do {
            m \<leftarrow> response__free_unpacked res (fb_heap s);
            Some (IO4E_OK, NULL, s\<lparr>fb_heap := m\<rparr>) } } })"

definition command_finish ::
  "pb_api \<Rightarrow> bool \<Rightarrow> ('h, 'fs) fbsys \<Rightarrow> (io4e_err_t \<times> ptr \<times> ('h, 'fs) fbsys) option" where
  "command_finish pb want s =
     (let res = cmd_response s; s = s\<lparr>cmd_response := NULL\<rparr> in command_check pb want res s)"

text \<open>\<open>command\<close>. \<open>sem_timedwait\<close> is decided on the state that \<open>env\<close>, the reader thread's work, leaves.\<close>

definition command ::
  "('h, 'fs) transport_t \<Rightarrow> pb_api \<Rightarrow> (('h, 'fs) fbsys \<Rightarrow> ('h, 'fs) fbsys option) \<Rightarrow> command_pb \<Rightarrow> bool \<Rightarrow>
   ('h, 'fs) fbsys \<Rightarrow> (io4e_err_t \<times> ptr \<times> ('h, 'fs) fbsys) option" where
  "command methods pb env cmd want s = do {
     (err, s) \<leftarrow> command_send methods pb cmd s;
     if err \<noteq> IO4E_OK then Some (err, NULL, s\<lparr>cmd_mutex := False\<rparr>)
     else do {
       let ts = fb_now s + cmd_timeout s;
       s \<leftarrow> env s;
       case sem_timedwait (cmd_sem s) ts (fb_now s) of (ret, v, now) \<Rightarrow>
       let s = s\<lparr>cmd_sem := v, fb_now := now\<rparr> in
       if ret = -1 then Some (IO4E_ERR_TIMEOUT, NULL, s\<lparr>cmd_mutex := False\<rparr>)
       else do {
         (err, res, s) \<leftarrow> command_finish pb want s;
         Some (err, res, s\<lparr>cmd_mutex := False\<rparr>) } } }"


section \<open>Requests\<close>

text \<open>The tags of the \<open>oneof\<close>s of a response, and the member that the tag selects.\<close>

datatype response_type_case = TYPE_CONFIGURATION | TYPE_FUNCTION_CONTROL | TYPE_STREAM | TYPE_OTHER

datatype response_action_case = ACTION_SET | ACTION_GET | ACTION_DESCRIBE | ACTION_OTHER

fun type_case :: "'s response_type \<Rightarrow> response_type_case" where
  "type_case (RESPONSE_CONFIGURATION a) = TYPE_CONFIGURATION"
| "type_case (RESPONSE_FUNCTION_CONTROL a) = TYPE_FUNCTION_CONTROL"
| "type_case (RESPONSE_STREAM sd) = TYPE_STREAM"
| "type_case RESPONSE_OTHER = TYPE_OTHER"

fun config_action_case :: "configuration_response_action \<Rightarrow> response_action_case" where
  "config_action_case (CONFIGURATION_RESPONSE_GET any) = ACTION_GET"
| "config_action_case (CONFIGURATION_RESPONSE_DESCRIBE any) = ACTION_DESCRIBE"
| "config_action_case CONFIGURATION_RESPONSE_OTHER = ACTION_OTHER"

fun fc_action_case :: "function_control_response_action \<Rightarrow> response_action_case" where
  "fc_action_case (FUNCTION_CONTROL_RESPONSE_SET any) = ACTION_SET"
| "fc_action_case (FUNCTION_CONTROL_RESPONSE_GET any) = ACTION_GET"
| "fc_action_case FUNCTION_CONTROL_RESPONSE_OTHER = ACTION_OTHER"

definition is_correct_response_type_case :: "response \<Rightarrow> response_type_case \<Rightarrow> bool" where
  "is_correct_response_type_case res tc \<longleftrightarrow> type_case (res_type res) = tc"

definition is_correct_config_response :: "response \<Rightarrow> response_action_case \<Rightarrow> bool" where
  "is_correct_config_response res action \<longleftrightarrow>
     is_correct_response_type_case res TYPE_CONFIGURATION \<and>
     (case res_type res of RESPONSE_CONFIGURATION a \<Rightarrow> config_action_case a = action | _ \<Rightarrow> False)"

definition is_correct_fc_response :: "response \<Rightarrow> response_action_case \<Rightarrow> bool" where
  "is_correct_fc_response res action \<longleftrightarrow>
     is_correct_response_type_case res TYPE_FUNCTION_CONTROL \<and>
     (case res_type res of RESPONSE_FUNCTION_CONTROL a \<Rightarrow> fc_action_case a = action | _ \<Rightarrow> False)"

fun response_any :: "'s response_type \<Rightarrow> any_pb option" where
  "response_any (RESPONSE_CONFIGURATION (CONFIGURATION_RESPONSE_GET any)) = Some any"
| "response_any (RESPONSE_CONFIGURATION (CONFIGURATION_RESPONSE_DESCRIBE any)) = Some any"
| "response_any (RESPONSE_FUNCTION_CONTROL (FUNCTION_CONTROL_RESPONSE_SET any)) = Some any"
| "response_any (RESPONSE_FUNCTION_CONTROL (FUNCTION_CONTROL_RESPONSE_GET any)) = Some any"
| "response_any _ = None"

text \<open>
  The ends that the requests share, word for word, in the code: unpack the member into the heap
  and free the response, or free it and give up. The result has what \<open>*fs_res_p\<close> was set to
  (\<open>None\<close> where it was not written).
\<close>

definition exit_proto ::
  "ptr \<Rightarrow> ('h, 'fs) fbsys \<Rightarrow> (io4e_err_t \<times> ptr option \<times> ('h, 'fs) fbsys) option" where
  "exit_proto pb_res s = do {
     m \<leftarrow> response__free_unpacked pb_res (fb_heap s);
     Some (IO4E_ERR_PROTOBUF, None, s\<lparr>fb_heap := m\<rparr>) }"

definition unpack_and_free ::
  "(bytes \<Rightarrow> 'fs option) \<Rightarrow> ptr \<Rightarrow> ('h, 'fs) fbsys \<Rightarrow> (io4e_err_t \<times> ptr option \<times> ('h, 'fs) fbsys) option"
where
  "unpack_and_free unpack pb_res s = do {
     r \<leftarrow> get_response pb_res (fb_heap s);
     any \<leftarrow> response_any (res_type r);
     case fs_unpack unpack (any_value any) (fb_heap s) of (fs_res, m) \<Rightarrow>
     let s = s\<lparr>fb_heap := m\<rparr> in
     if fs_res = NULL then exit_proto pb_res s
     else do {
       m \<leftarrow> response__free_unpacked pb_res (fb_heap s);
       Some (IO4E_OK, Some fs_res, s\<lparr>fb_heap := m\<rparr>) } }"

definition io4e_functionblock_upload_configuration ::
  "('h, 'fs) transport_t \<Rightarrow> pb_api \<Rightarrow> (('h, 'fs) fbsys \<Rightarrow> ('h, 'fs) fbsys option) \<Rightarrow> io4e_protomsg_t \<Rightarrow>
   ('h, 'fs) fbsys \<Rightarrow> (io4e_err_t \<times> ('h, 'fs) fbsys) option" where
  "io4e_functionblock_upload_configuration methods pb env fs_msg s = do {
     let pb_cmd = \<lparr>cmd_ctx = None,
       cmd_type = COMMAND_CONFIGURATION (CONFIGURATION_SET (MAKE_ANYPB fs_msg))\<rparr>;
     (err, res, s) \<leftarrow> command methods pb env pb_cmd False s;
     Some (err, s) }"

definition io4e_functionblock_download_configuration ::
  "('h, 'fs) transport_t \<Rightarrow> pb_api \<Rightarrow> (('h, 'fs) fbsys \<Rightarrow> ('h, 'fs) fbsys option) \<Rightarrow> io4e_protomsg_t \<Rightarrow>
   (bytes \<Rightarrow> 'fs option) \<Rightarrow> ('h, 'fs) fbsys \<Rightarrow> (io4e_err_t \<times> ptr option \<times> ('h, 'fs) fbsys) option" where
  "io4e_functionblock_download_configuration methods pb env fs_req unpack s = do {
     let pb_cmd = \<lparr>cmd_ctx = None,
       cmd_type = COMMAND_CONFIGURATION (CONFIGURATION_GET (MAKE_ANYPB fs_req))\<rparr>;
     (err, pb_res, s) \<leftarrow> command methods pb env pb_cmd True s;
     if err \<noteq> IO4E_OK then Some (err, None, s)
     else do {
       r \<leftarrow> get_response pb_res (fb_heap s);
       if \<not> is_correct_config_response r ACTION_GET then exit_proto pb_res s
       else unpack_and_free unpack pb_res s } }"

definition io4e_functionblock_describe ::
  "('h, 'fs) transport_t \<Rightarrow> pb_api \<Rightarrow> (('h, 'fs) fbsys \<Rightarrow> ('h, 'fs) fbsys option) \<Rightarrow> io4e_protomsg_t \<Rightarrow>
   (bytes \<Rightarrow> 'fs option) \<Rightarrow> ('h, 'fs) fbsys \<Rightarrow> (io4e_err_t \<times> ptr option \<times> ('h, 'fs) fbsys) option" where
  "io4e_functionblock_describe methods pb env fs_req unpack s = do {
     let pb_cmd = \<lparr>cmd_ctx = None,
       cmd_type = COMMAND_CONFIGURATION (CONFIGURATION_DESCRIBE (MAKE_ANYPB fs_req))\<rparr>;
     (err, pb_res, s) \<leftarrow> command methods pb env pb_cmd True s;
     if err \<noteq> IO4E_OK then Some (err, None, s)
     else do {
       r \<leftarrow> get_response pb_res (fb_heap s);
       if \<not> is_correct_config_response r ACTION_DESCRIBE then exit_proto pb_res s
       else unpack_and_free unpack pb_res s } }"

text \<open>\<open>unpack\<close> is \<open>None\<close> when the caller passes null for \<open>fs_res_p\<close>.\<close>

definition io4e_functionblock_function_control_set ::
  "('h, 'fs) transport_t \<Rightarrow> pb_api \<Rightarrow> (('h, 'fs) fbsys \<Rightarrow> ('h, 'fs) fbsys option) \<Rightarrow> io4e_protomsg_t \<Rightarrow>
   (bytes \<Rightarrow> 'fs option) option \<Rightarrow> ('h, 'fs) fbsys \<Rightarrow> (io4e_err_t \<times> ptr option \<times> ('h, 'fs) fbsys) option"
where
  "io4e_functionblock_function_control_set methods pb env fs_req unpack s = do {
     let pb_cmd = \<lparr>cmd_ctx = None,
       cmd_type = COMMAND_FUNCTION_CONTROL (FUNCTION_CONTROL_SET (MAKE_ANYPB fs_req))\<rparr>;
     (err, pb_res, s) \<leftarrow> command methods pb env pb_cmd True s;
     if err \<noteq> IO4E_OK then Some (err, None, s)
     else do {
       r \<leftarrow> get_response pb_res (fb_heap s);
       if \<not> is_correct_fc_response r ACTION_SET then exit_proto pb_res s
       else
         (case unpack of
            Some u \<Rightarrow> unpack_and_free u pb_res s
          | None \<Rightarrow> do {
              m \<leftarrow> response__free_unpacked pb_res (fb_heap s);
              Some (IO4E_OK, None, s\<lparr>fb_heap := m\<rparr>) }) } }"

definition io4e_functionblock_function_control_get ::
  "('h, 'fs) transport_t \<Rightarrow> pb_api \<Rightarrow> (('h, 'fs) fbsys \<Rightarrow> ('h, 'fs) fbsys option) \<Rightarrow> io4e_protomsg_t \<Rightarrow>
   (bytes \<Rightarrow> 'fs option) \<Rightarrow> ('h, 'fs) fbsys \<Rightarrow> (io4e_err_t \<times> ptr option \<times> ('h, 'fs) fbsys) option" where
  "io4e_functionblock_function_control_get methods pb env fs_req unpack s = do {
     let pb_cmd = \<lparr>cmd_ctx = None,
       cmd_type = COMMAND_FUNCTION_CONTROL (FUNCTION_CONTROL_GET (MAKE_ANYPB fs_req))\<rparr>;
     (err, pb_res, s) \<leftarrow> command methods pb env pb_cmd True s;
     if err \<noteq> IO4E_OK then Some (err, None, s)
     else do {
       r \<leftarrow> get_response pb_res (fb_heap s);
       if \<not> is_correct_fc_response r ACTION_GET then exit_proto pb_res s
       else unpack_and_free unpack pb_res s } }"


section \<open>The stream\<close>

text \<open>
  \<open>start_stream\<close> also returns the caller's configuration, whose \<open>Any\<close> member it sets (to a variable
  of its own stack frame: the caller must not read it again).
\<close>

definition io4e_functionblock_start_stream ::
  "('h, 'fs) transport_t \<Rightarrow> pb_api \<Rightarrow> (('h, 'fs) fbsys \<Rightarrow> ('h, 'fs) fbsys option) \<Rightarrow> io4e_protomsg_t \<Rightarrow>
   stream_control_start \<Rightarrow> ('h, 'fs) fbsys \<Rightarrow> (io4e_err_t \<times> stream_control_start \<times> ('h, 'fs) fbsys) option"
where
  "io4e_functionblock_start_stream methods pb env fs_config fb_config s = do {
     let fb_config = fb_config\<lparr>functionspecificstreamcontrolstart := Some (MAKE_ANYPB fs_config)\<rparr>;
     let pb_cmd = \<lparr>cmd_ctx = None,
       cmd_type = COMMAND_STREAM_CONTROL (STREAM_CONTROL_START fb_config)\<rparr>;
     (err, res, s) \<leftarrow> command methods pb env pb_cmd False s;
     Some (err, fb_config, s) }"

definition io4edge_functionblock_stop_stream ::
  "('h, 'fs) transport_t \<Rightarrow> pb_api \<Rightarrow> (('h, 'fs) fbsys \<Rightarrow> ('h, 'fs) fbsys option) \<Rightarrow>
   ('h, 'fs) fbsys \<Rightarrow> (io4e_err_t \<times> ('h, 'fs) fbsys) option" where
  "io4edge_functionblock_stop_stream methods pb env s = do {
     let pb_cmd = \<lparr>cmd_ctx = None, cmd_type = COMMAND_STREAM_CONTROL STREAM_CONTROL_STOP\<rparr>;
     (err, res, s) \<leftarrow> command methods pb env pb_cmd False s;
     Some (err, s) }"

text \<open>
  \<open>read_stream\<close>; the result has \<open>*sd_p\<close> and \<open>*fs_data_p\<close>. \<open>timeout\<close> is a \<open>long\<close> and becomes the
  queue's \<open>uint64_t\<close>. \<open>sz\<close> is \<open>sizeof(time_t)\<close>.
\<close>

definition io4edge_functionblock_read_stream ::
  "nat \<Rightarrow> (bytes \<Rightarrow> 'fs option) \<Rightarrow> int \<Rightarrow> ('h, 'fs) fbsys \<Rightarrow>
   (io4e_err_t \<times> ptr \<times> ptr \<times> ('h, 'fs) fbsys) option" where
  "io4edge_functionblock_read_stream sz unpack timeout s = do {
     (err, msg, q, now) \<leftarrow> io4e_streamq_pop sz (fb_now s) (fb_streamq s) (word_of_int timeout);
     let s = s\<lparr>fb_streamq := q, fb_now := now\<rparr>;
     if err \<noteq> IO4E_OK then Some (err, NULL, NULL, s)
     else do {
       sd \<leftarrow> msg;
       d \<leftarrow> get_stream_data sd (fb_heap s);
       case functionspecificstreamdata d of
         None \<Rightarrow> Some (IO4E_ERR_PROTOBUF, NULL, NULL, s)
       | Some any \<Rightarrow>
           (case fs_unpack unpack (any_value any) (fb_heap s) of (fs_data, m) \<Rightarrow>
            let s = s\<lparr>fb_heap := m\<rparr> in
            if fs_data = NULL then Some (IO4E_ERR_PROTOBUF, NULL, NULL, s)
            else Some (IO4E_OK, sd, fs_data, s)) } }"


section \<open>The reader thread\<close>

text \<open>
  One iteration of \<open>read_thread\<close>, in two parts; the boolean is whether the loop goes on. When
  \<open>sem_post\<close> fails the response is freed with plain \<open>free\<close> and the thread ends.
\<close>

definition read_thread_dispatch ::
  "nat \<Rightarrow> ptr \<Rightarrow> ('h, 'fs) fbsys \<Rightarrow> (bool \<times> ('h, 'fs) fbsys) option" where
  "read_thread_dispatch sz res s = do {
     r \<leftarrow> get_response res (fb_heap s);
     case res_type r of
       RESPONSE_STREAM sd \<Rightarrow> do {
         let m = (fb_heap s)\<lparr>m_store := (m_store (fb_heap s))
                    (res \<mapsto> OResponse (r\<lparr>res_type := RESPONSE_STREAM NULL\<rparr>))\<rparr>;
         m \<leftarrow> response__free_unpacked res m;
         (err, q, now) \<leftarrow> io4e_streamq_push sz (fb_now s) (fb_streamq s) sd IO4E_FOREVER;
         Some (True, s\<lparr>fb_heap := m, fb_streamq := q, fb_now := now\<rparr>) }
     | _ \<Rightarrow> do {
         m \<leftarrow> (if cmd_response s \<noteq> NULL
               then response__free_unpacked (cmd_response s) (fb_heap s) else Some (fb_heap s));
         let s = s\<lparr>fb_heap := m, cmd_response := res\<rparr>;
         if cmd_sem s < SEM_VALUE_MAX then Some (True, s\<lparr>cmd_sem := sem_post (cmd_sem s)\<rparr>)
         else do {
           m \<leftarrow> free res (fb_heap s);
           Some (False, s\<lparr>fb_heap := m\<rparr>) } } }"

definition read_thread_body ::
  "('h, 'fs) transport_t \<Rightarrow> pb_api \<Rightarrow> nat \<Rightarrow> ('h, 'fs) fbsys \<Rightarrow> (bool \<times> ('h, 'fs) fbsys) option" where
  "read_thread_body methods pb sz s = do {
     (err, res_buffer, len, h, m) \<leftarrow> t_read_msg methods (fb_transport s) 1 (fb_heap s);
     let s = s\<lparr>fb_transport := h, fb_heap := m\<rparr>;
     if err \<noteq> IO4E_OK then Some (True, s)
     else do {
       res_len \<leftarrow> len;
       if res_len = 0 then Some (True, s)
       else do {
         data \<leftarrow> get_buf res_buffer (fb_heap s);
         let (res, m) = response__unpack pb (take (unat res_len) data) (fb_heap s);
         m \<leftarrow> free res_buffer m;
         let s = s\<lparr>fb_heap := m\<rparr>;
         if res = NULL then Some (True, s)
         else read_thread_dispatch sz res s } } }"

text \<open>At most \<open>n\<close> iterations.\<close>

fun read_thread ::
  "nat \<Rightarrow> ('h, 'fs) transport_t \<Rightarrow> pb_api \<Rightarrow> nat \<Rightarrow> ('h, 'fs) fbsys \<Rightarrow> ('h, 'fs) fbsys option" where
  "read_thread 0 methods pb sz s = Some s"
| "read_thread (Suc n) methods pb sz s = do {
     (go_on, s) \<leftarrow> read_thread_body methods pb sz s;
     if go_on then read_thread n methods pb sz s else Some s }"


section \<open>Creating and deleting a client\<close>

text \<open>
  \<open>client_new\<close> over the socket transport. \<open>n\<close> has the network, \<open>b\<close> the client's own blocks (the
  client, the queue and its array), \<open>thread_ok\<close> whether \<open>pthread_create\<close> succeeds.
\<close>

definition io4edge_functionblock_client_new_from_host_port ::
  "string \<Rightarrow> int \<Rightarrow> int \<Rightarrow> bool \<Rightarrow> net \<Rightarrow> blocks \<Rightarrow>
   (io4e_err_t \<times> sock client option \<times> net \<times> blocks) option" where
  "io4edge_functionblock_client_new_from_host_port host port cmd_timeout_seconds thread_ok n b =
     (case calloc_block b of (ok, b) \<Rightarrow>
      if \<not> ok then Some (IO4E_ERR_NO_MEM, None, n, b)
      else do {
        (err, transport, n) \<leftarrow> io4edge_transport_new host port n;
        if err \<noteq> IO4E_OK then
          (let (_, n) = (if transport \<noteq> None then destroy transport n else (None, n))
           in Some (err, None, n, free_block b))
        else do {
          let (err, q, b) = io4e_streamq_new CONFIG_STREAMQ_CAPACITY b;
          let err = (if err = IO4E_OK \<and> \<not> thread_ok then IO4E_FAIL else err);
          if err \<noteq> IO4E_OK then do {
            let (_, n) = (if transport \<noteq> None then destroy transport n else (None, n));
            let (_, b) = (if q \<noteq> None then io4e_streamq_delete q b else (None, b));
            Some (err, None, n, free_block b) }
          else do {
            h \<leftarrow> transport;
            streamq \<leftarrow> q;
            Some (IO4E_OK,
                  Some \<lparr>fb_transport = h, cmd_context = [65, 0], cmd_timeout = cmd_timeout_seconds,
                        cmd_mutex = False, cmd_response = NULL, cmd_sem = sem_init_value 0,
                        fb_streamq = streamq\<rparr>, n, b) } } })"

text \<open>\<open>client_delete\<close>: neither the messages in the queue nor \<open>cmd_response\<close> are freed.\<close>

definition io4edge_functionblock_client_delete ::
  "sock client option \<Rightarrow> net \<Rightarrow> blocks \<Rightarrow> io4e_err_t \<times> sock client option \<times> net \<times> blocks" where
  "io4edge_functionblock_client_delete handle n b =
     (case handle of
        None \<Rightarrow> (IO4E_OK, None, n, b)
      | Some h \<Rightarrow>
          let (_, b) = io4e_streamq_delete (Some (fb_streamq h)) b;
              (_, n) = destroy (Some (fb_transport h)) n
          in (IO4E_OK, None, n, free_block b))"


section \<open>Facts about the operations\<close>

lemma response__unpack_cases:
  assumes "mem_wf m" "response__unpack pb data m = (p, m')"
  obtains (none) "p = NULL" "mem_wf m'" "m_store m' = m_store m"
  | (stream) r sd d where "p \<noteq> NULL" "mem_wf m'" "p \<notin> live m" "sd \<notin> live m" "sd \<noteq> NULL" "sd \<noteq> p"
      "m_store m' = (m_store m)(sd \<mapsto> OStreamData d, p \<mapsto> OResponse r)"
      "res_type r = RESPONSE_STREAM sd"
      "\<exists>w. pb_unpack_response pb data = Some w \<and> res_type w = RESPONSE_STREAM d"
  | (plain) r where "p \<noteq> NULL" "mem_wf m'" "p \<notin> live m"
      "m_store m' = (m_store m)(p \<mapsto> OResponse r)" "type_case (res_type r) \<noteq> TYPE_STREAM"
      "\<exists>w. pb_unpack_response pb data = Some w \<and> type_case (res_type w) = type_case (res_type r) \<and>
         map_response_type (\<lambda>x. ()) (res_type w) = map_response_type (\<lambda>x. ()) (res_type r) \<and>
         response_any (res_type w) = response_any (res_type r) \<and> res_context w = res_context r \<and>
         res_status w = res_status r \<and> res_error w = res_error r"
proof (cases "pb_unpack_response pb data")
  case None
  with assms none show ?thesis by (auto simp: response__unpack_def)
next
  case (Some w)
  have single: ?thesis
    if eq: "malloc (OResponse r) m = (p, m')" and tc: "type_case (res_type r) \<noteq> TYPE_STREAM"
      and w: "type_case (res_type w) = type_case (res_type r)"
        "map_response_type (\<lambda>x. ()) (res_type w) = map_response_type (\<lambda>x. ()) (res_type r)"
        "response_any (res_type w) = response_any (res_type r)" "res_context w = res_context r"
        "res_status w = res_status r" "res_error w = res_error r" for r
    using assms(1) eq
  proof (cases rule: malloc_cases)
    case fail
    with malloc_wf [OF assms(1) eq] show ?thesis by (intro none) simp_all
  next
    case ok
    with malloc_wf [OF assms(1) eq] tc w Some show ?thesis by (intro plain [of r]) auto
  qed
  show ?thesis
  proof (cases "res_type w")
    case (RESPONSE_STREAM d)
    obtain sd m1 where a: "malloc (OStreamData d) m = (sd, m1)" by fastforce
    note wf1 = malloc_wf [OF assms(1) a]
    let ?r = "\<lparr>res_context = res_context w, res_status = res_status w, res_error = res_error w,
      res_type = RESPONSE_STREAM sd\<rparr>"
    obtain p' m2 where b: "malloc (OResponse ?r) m1 = (p', m2)" by fastforce
    note wf2 = malloc_wf [OF wf1 b]
    from assms(1) a show ?thesis
    proof (cases rule: malloc_cases)
      case fail
      with assms(2) Some RESPONSE_STREAM a none wf1 show ?thesis by (simp add: response__unpack_def)
    next
      case ok1: ok
      from wf1 b show ?thesis
      proof (cases rule: malloc_cases)
        case fail
        with assms(2) Some RESPONSE_STREAM a b ok1 have
          "p = NULL" "m' = m2\<lparr>m_store := (m_store m2)(sd := None)\<rparr>"
          by (simp_all add: response__unpack_def)
        with none wf2 fail ok1 show ?thesis by (auto simp: mem_wf_def)
      next
        case ok2: ok
        with assms(2) Some RESPONSE_STREAM a b ok1 have "p = p'" "m' = m2"
          by (simp_all add: response__unpack_def)
        with stream [of sd d ?r] ok1 ok2 wf2 Some RESPONSE_STREAM show ?thesis by auto
      qed
    qed
  next
    case (RESPONSE_CONFIGURATION a)
    with assms(2) Some show ?thesis
      by (intro single [of "\<lparr>res_context = res_context w, res_status = res_status w,
            res_error = res_error w, res_type = RESPONSE_CONFIGURATION a\<rparr>"])
         (simp_all add: response__unpack_def, cases a, simp_all)
  next
    case (RESPONSE_FUNCTION_CONTROL a)
    with assms(2) Some show ?thesis
      by (intro single [of "\<lparr>res_context = res_context w, res_status = res_status w,
            res_error = res_error w, res_type = RESPONSE_FUNCTION_CONTROL a\<rparr>"])
         (simp_all add: response__unpack_def, cases a, simp_all)
  next
    case RESPONSE_OTHER
    with assms(2) Some show ?thesis
      by (intro single [of "\<lparr>res_context = res_context w, res_status = res_status w,
            res_error = res_error w, res_type = RESPONSE_OTHER\<rparr>"])
         (simp_all add: response__unpack_def)
  qed
qed

lemma free_response:
  assumes "mem_wf m" "m_store m p = Some (OResponse r)" "type_case (res_type r) \<noteq> TYPE_STREAM"
  shows "response__free_unpacked p m = Some (m\<lparr>m_store := (m_store m)(p := None)\<rparr>)"
  using assms mem_wf_live_not_NULL [of m p]
  by (cases "res_type r") (auto simp: response__free_unpacked_def get_response_def)

lemma free_response_NULL_stream:
  assumes "mem_wf m" "m_store m p = Some (OResponse r)" "res_type r = RESPONSE_STREAM NULL"
  shows "response__free_unpacked p m = Some (m\<lparr>m_store := (m_store m)(p := None)\<rparr>)"
  using assms mem_wf_live_not_NULL [of m p]
  by (auto simp: response__free_unpacked_def get_response_def)

lemma fs_unpack_cases:
  assumes "mem_wf m" "fs_unpack u data m = (p, m')"
  obtains (none) "p = NULL" "mem_wf m'" "m_store m' = m_store m"
  | (some) x where "u data = Some x" "p \<noteq> NULL" "mem_wf m'" "p \<notin> live m"
      "m_store m' = (m_store m)(p \<mapsto> OFs x)"
proof (cases "u data")
  case None
  with assms none show ?thesis by (simp add: fs_unpack_def)
next
  case (Some x)
  with assms(2) have "malloc (OFs x) m = (p, m')" by (simp add: fs_unpack_def)
  from assms(1) this malloc_wf [OF assms(1) this] Some none some show ?thesis
    by (cases rule: malloc_cases) auto
qed

lemma mem_wf_remove: "mem_wf m \<Longrightarrow> mem_wf (m\<lparr>m_store := (m_store m)(p := None)\<rparr>)"
  by (auto simp: mem_wf_def)

lemma get_response_live:
  "mem_wf m \<Longrightarrow> m_store m p = Some (OResponse r) \<Longrightarrow> get_response p m = Some r"
  by (simp add: get_response_def)


section \<open>Ownership\<close>

text \<open>
  The heap objects the client owns: the pending command response and the messages in the queue.
  The invariant says that they are what they should be and that none is owned twice.
\<close>

definition fb_owned :: "('h, 'fs, 'z) fbsys_scheme \<Rightarrow> ptr set" where
  "fb_owned s =
     (if cmd_response s = NULL then {} else {cmd_response s}) \<union> set (sq_list (fb_streamq s))"

definition fb_inv :: "('h, 'fs) fbsys \<Rightarrow> bool" where
  "fb_inv s \<longleftrightarrow>
     mem_wf (fb_heap s) \<and> sq_inv (fb_streamq s) \<and> distinct (sq_list (fb_streamq s)) \<and>
     (\<forall>sd \<in> set (sq_list (fb_streamq s)). \<exists>d. m_store (fb_heap s) sd = Some (OStreamData d)) \<and>
     (cmd_response s \<noteq> NULL \<longrightarrow>
        (\<exists>r. m_store (fb_heap s) (cmd_response s) = Some (OResponse r) \<and>
             type_case (res_type r) \<noteq> TYPE_STREAM)) \<and>
     (\<exists>c. cmd_context s = [c, 0]) \<and> cmd_sem s \<le> SEM_VALUE_MAX"

lemma fb_invD:
  assumes "fb_inv s"
  shows "mem_wf (fb_heap s)" "sq_inv (fb_streamq s)" "distinct (sq_list (fb_streamq s))"
    "sd \<in> set (sq_list (fb_streamq s)) \<Longrightarrow> \<exists>d. m_store (fb_heap s) sd = Some (OStreamData d)"
    "cmd_response s \<noteq> NULL \<Longrightarrow> \<exists>r. m_store (fb_heap s) (cmd_response s) = Some (OResponse r) \<and>
       type_case (res_type r) \<noteq> TYPE_STREAM"
    "\<exists>c. cmd_context s = [c, 0]" "cmd_sem s \<le> SEM_VALUE_MAX"
  using assms by (simp_all add: fb_inv_def)

lemma NULL_not_live: "mem_wf m \<Longrightarrow> m_store m NULL = None"
  by (metis domIff mem_wf_live_not_NULL)

lemma fb_owned_live: "fb_inv s \<Longrightarrow> fb_owned s \<subseteq> live (fb_heap s)"
  by (force simp: fb_owned_def dest: fb_invD split: if_splits)

text \<open>The old response, if any, is freed without trouble.\<close>

lemma free_old_response:
  assumes "fb_inv s" "mem_wf m" "m_store m (cmd_response s) = m_store (fb_heap s) (cmd_response s)"
  shows "(if cmd_response s \<noteq> NULL then response__free_unpacked (cmd_response s) m else Some m)
     = Some (m\<lparr>m_store := (m_store m)(cmd_response s := None)\<rparr>)"
proof (cases "cmd_response s = NULL")
  case True
  with NULL_not_live [OF assms(2)] show ?thesis by (simp add: fun_upd_idem)
next
  case False
  with fb_invD(5) [OF assms(1)] obtain r where
    "m_store m (cmd_response s) = Some (OResponse r)" "type_case (res_type r) \<noteq> TYPE_STREAM"
    using assms(3) by auto
  from free_response [OF assms(2) this] False show ?thesis by simp
qed

lemma mem_upd_id [simp]: "m\<lparr>m_store := m_store m\<rparr> = m"
  by (cases m) simp

text \<open>The second half of an iteration, on a response that is in the heap and owned by nobody.\<close>

lemma dispatch_plain:
  assumes inv: "fb_inv s" and m: "mem_wf m" "m_store m = (m_store (fb_heap s))(p \<mapsto> OResponse r)"
    and p: "p \<notin> live (fb_heap s)" "p \<noteq> NULL" and tc: "type_case (res_type r) \<noteq> TYPE_STREAM"
  obtains m' where "mem_wf m'"
    "m_store m' = (m_store (fb_heap s))(cmd_response s := None, p \<mapsto> OResponse r)"
    "cmd_sem s < SEM_VALUE_MAX \<longrightarrow> read_thread_dispatch sz p (s\<lparr>fb_transport := h, fb_heap := m\<rparr>)
       = Some (True, s\<lparr>fb_transport := h, fb_heap := m', cmd_response := p, cmd_sem := Suc (cmd_sem s)\<rparr>)"
    "cmd_sem s = SEM_VALUE_MAX \<longrightarrow> read_thread_dispatch sz p (s\<lparr>fb_transport := h, fb_heap := m\<rparr>)
       = Some (False, s\<lparr>fb_transport := h, cmd_response := p,
                       fb_heap := m'\<lparr>m_store := (m_store m')(p := None)\<rparr>\<rparr>)"
    "m_fail m' = m_fail m"
proof -
  note I = fb_invD [OF inv]
  let ?m = "m\<lparr>m_store := (m_store m)(cmd_response s := None)\<rparr>"
  have neq: "cmd_response s \<noteq> p" using p I(5) by (cases "cmd_response s = NULL") auto
  have r: "get_response p m = Some r" using m by (simp add: get_response_live)
  have free: "(if cmd_response s \<noteq> NULL then response__free_unpacked (cmd_response s) m else Some m)
      = Some ?m"
    using neq m by (intro free_old_response [OF inv]) simp_all
  have wf: "mem_wf ?m" using m(1) by (rule mem_wf_remove)
  have st: "m_store ?m = (m_store (fb_heap s))(cmd_response s := None, p \<mapsto> OResponse r)"
    using m(2) neq by (simp add: fun_upd_twist)
  from wf st have fp: "free p ?m = Some (?m\<lparr>m_store := (m_store ?m)(p := None)\<rparr>)" by simp
  have body: "read_thread_dispatch sz p (s\<lparr>fb_transport := h, fb_heap := m\<rparr>) =
    (if cmd_sem s < SEM_VALUE_MAX
     then Some (True, s\<lparr>fb_transport := h, fb_heap := ?m, cmd_response := p,
                        cmd_sem := sem_post (cmd_sem s)\<rparr>)
     else Some (False, s\<lparr>fb_transport := h, cmd_response := p,
                        fb_heap := ?m\<lparr>m_store := (m_store ?m)(p := None)\<rparr>\<rparr>))"
  proof (cases "cmd_response s = NULL")
    case True
    then have "(m_store m)(NULL := None) = m_store m" "?m = m"
      using NULL_not_live [OF m(1)] by (simp_all add: fun_upd_idem)
    with True r tc fp show ?thesis
      by (cases "res_type r") (simp_all add: read_thread_dispatch_def Let_def)
  next
    case False
    with free r tc fp show ?thesis
      by (cases "res_type r") (simp_all add: read_thread_dispatch_def Let_def)
  qed
  show ?thesis
    by (rule that [OF wf st]) (simp_all add: body sem_post_def)
qed

lemma dispatch_stream:
  assumes inv: "fb_inv s" and m: "mem_wf m"
    "m_store m = (m_store (fb_heap s))(sd \<mapsto> OStreamData d, p \<mapsto> OResponse r)"
    and p: "p \<notin> live (fb_heap s)" "p \<noteq> sd" and tc: "res_type r = RESPONSE_STREAM sd"
  obtains m' where "mem_wf m'" "m_store m' = (m_store (fb_heap s))(sd \<mapsto> OStreamData d)"
    "read_thread_dispatch sz p (s\<lparr>fb_transport := h, fb_heap := m\<rparr>) =
       map_option (\<lambda>(err, q, now). (True, s\<lparr>fb_transport := h, fb_heap := m', fb_streamq := q,
                                            fb_now := now\<rparr>))
         (io4e_streamq_push sz (fb_now s) (fb_streamq s) sd IO4E_FOREVER)"
proof -
  let ?r = "r\<lparr>res_type := RESPONSE_STREAM NULL\<rparr>"
  let ?m1 = "m\<lparr>m_store := (m_store m)(p \<mapsto> OResponse ?r)\<rparr>"
  let ?m = "?m1\<lparr>m_store := (m_store ?m1)(p := None)\<rparr>"
  have wf1: "mem_wf ?m1" using m by (auto simp: mem_wf_def split: if_splits)
  have r: "get_response p m = Some r" using m by (simp add: get_response_live)
  have free: "response__free_unpacked p ?m1 = Some ?m"
    using wf1 by (intro free_response_NULL_stream [of ?m1 p ?r]) simp_all
  have st: "m_store ?m = (m_store (fb_heap s))(sd \<mapsto> OStreamData d)"
    using m(2) p(2) p(1) [unfolded domIff not_not] by (simp add: fun_eq_iff)
  show ?thesis
    by (rule that [OF mem_wf_remove [OF wf1] st])
       (use r tc free in \<open>simp add: read_thread_dispatch_def Let_def split_def map_conv_bind_option o_def\<close>)
qed


context message_source
begin

lemma read_thread_body_cases:
  assumes "invar (fb_transport s)" "fb_inv s"
  obtains
    (blocked) "t_read_msg methods (fb_transport s) 1 (fb_heap s) = None"
      "read_thread_body methods pb sz s = None"
  | (idle) h m where
      "read_thread_body methods pb sz s = Some (True, s\<lparr>fb_transport := h, fb_heap := m\<rparr>)"
      "invar h" "mem_wf m" "m_store m = m_store (fb_heap s)"
  | (pushed) h m sd d q where
      "read_thread_body methods pb sz s
         = Some (True, s\<lparr>fb_transport := h, fb_heap := m, fb_streamq := q, fb_now := fb_now s\<rparr>)"
      "invar h" "mem_wf m" "sd \<notin> live (fb_heap s)" "sd \<noteq> NULL"
      "m_store m = (m_store (fb_heap s))(sd \<mapsto> OStreamData d)"
      "sq_inv q" "sq_list q = sq_list (fb_streamq s) @ [sd]"
      "q_capacity q = q_capacity (fb_streamq s)"
      "\<exists>bs w. good bs \<and> pb_unpack_response pb bs = Some w \<and> res_type w = RESPONSE_STREAM d"
  | (dropped) h m sd d t where
      "read_thread_body methods pb sz s = Some (True,
         s\<lparr>fb_transport := h, fb_heap := m, fb_streamq := fb_streamq s, fb_now := t\<rparr>)"
      "invar h" "mem_wf m" "sd \<notin> live (fb_heap s)" "sd \<noteq> NULL"
      "m_store m = (m_store (fb_heap s))(sd \<mapsto> OStreamData d)"
      "length (sq_list (fb_streamq s)) = q_capacity (fb_streamq s)"
  | (response) h m p r where
      "read_thread_body methods pb sz s
         = Some (True, s\<lparr>fb_transport := h, fb_heap := m, cmd_response := p,
                         cmd_sem := Suc (cmd_sem s)\<rparr>)"
      "invar h" "mem_wf m" "p \<notin> live (fb_heap s)" "p \<noteq> NULL"
      "m_store m = (m_store (fb_heap s))(cmd_response s := None, p \<mapsto> OResponse r)"
      "type_case (res_type r) \<noteq> TYPE_STREAM" "cmd_sem s < SEM_VALUE_MAX"
      "\<exists>bs w. good bs \<and> pb_unpack_response pb bs = Some w \<and> type_case (res_type w) = type_case (res_type r) \<and>
         res_context w = res_context r \<and> res_status w = res_status r \<and> res_error w = res_error r"
  | (dead) h m p where
      "read_thread_body methods pb sz s
         = Some (False, s\<lparr>fb_transport := h, cmd_response := p, fb_heap := m\<rparr>)"
      "invar h" "mem_wf m" "p \<notin> live (fb_heap s)" "p \<noteq> NULL"
      "m_store m = (m_store (fb_heap s))(cmd_response s := None, p := None)"
      "cmd_sem s = SEM_VALUE_MAX"
proof -
  note I = fb_invD [OF assms(2)]
  from assms(1) I(1) show ?thesis
  proof (cases rule: read_cases [where t = 1])
    case blocked
    then show ?thesis by (intro that(1)) (simp_all add: read_thread_body_def)
  next
    case (error err p l h m)
    then show ?thesis by (intro idle [where h = h and m = m]) (simp_all add: read_thread_body_def)
  next
    case (empty h m)
    then show ?thesis by (intro idle [where h = h and m = m]) (simp_all add: read_thread_body_def)
  next
    case (data buf len data h m)
    obtain res m1 where u: "response__unpack pb data m = (res, m1)" by fastforce
    have buf: "get_buf buf m = Some data" using data(3,8) by (simp add: get_buf_def)
    have old: "(m_store m)(buf := None) = m_store (fb_heap s)" "m_store (fb_heap s) buf = None"
      using data(7) [unfolded domIff not_not] data(8) by (simp_all add: fun_eq_iff)
    have pre: "read_thread_body methods pb sz s = do {
        m \<leftarrow> free buf m1;
        if res = NULL then Some (True, s\<lparr>fb_transport := h, fb_heap := m\<rparr>)
        else read_thread_dispatch sz res (s\<lparr>fb_transport := h, fb_heap := m\<rparr>) }"
      using data(1,4,5) u buf by (simp add: read_thread_body_def Let_def)
    from data(3) u show ?thesis
    proof (cases rule: response__unpack_cases)
      case none
      then have "free buf m1 = Some (m1\<lparr>m_store := (m_store m1)(buf := None)\<rparr>)"
        using data(8) by simp
      with pre none data(2) old mem_wf_remove [OF none(2), of buf] show ?thesis
        by (intro idle [where h = h and m = "m1\<lparr>m_store := (m_store m1)(buf := None)\<rparr>"]) simp_all
    next
      case (stream r sd d)
      let ?m = "m1\<lparr>m_store := (m_store m1)(buf := None)\<rparr>"
      have neq: "buf \<noteq> res" "buf \<noteq> sd" using stream(3,4) data(8) by auto
      have fr: "free buf m1 = Some ?m" using stream(2,7) data(8) neq by simp
      have st: "m_store ?m = (m_store (fb_heap s))(sd \<mapsto> OStreamData d, res \<mapsto> OResponse r)"
        using stream(7) old neq by (simp add: fun_upd_twist)
      have fresh: "res \<notin> live (fb_heap s)" "sd \<notin> live (fb_heap s)"
        using stream(3,4) data(8) by (auto split: if_splits)
      obtain m' where m': "mem_wf m'" "m_store m' = (m_store (fb_heap s))(sd \<mapsto> OStreamData d)"
        "read_thread_dispatch sz res (s\<lparr>fb_transport := h, fb_heap := ?m\<rparr>) =
           map_option (\<lambda>(err, q, now). (True, s\<lparr>fb_transport := h, fb_heap := m', fb_streamq := q,
                                                fb_now := now\<rparr>))
             (io4e_streamq_push sz (fb_now s) (fb_streamq s) sd IO4E_FOREVER)"
        by (rule dispatch_stream [where sz = sz and h = h, OF assms(2) mem_wf_remove [OF stream(2)] st fresh(1)
            stream(6) [symmetric] stream(8)])
      show ?thesis
      proof (cases "length (sq_list (fb_streamq s)) < q_capacity (fb_streamq s)")
        case True
        from I(2) True obtain q where
          "io4e_streamq_push sz (fb_now s) (fb_streamq s) sd IO4E_FOREVER = Some (IO4E_OK, q, fb_now s)"
          "sq_inv q" "sq_list q = sq_list (fb_streamq s) @ [sd]"
          "q_capacity q = q_capacity (fb_streamq s)" by (rule push_ok)
        with pre fr m' fresh stream(1,5,9) data(2,9) show ?thesis
          by (intro pushed [where h = h and m = m' and sd = sd and d = d and q = q]) auto
      next
        case False
        then have full: "length (sq_list (fb_streamq s)) = q_capacity (fb_streamq s)"
          using length_sq_list_le [OF I(2)] by simp
        from push_full [OF I(2) full] pre fr m' fresh stream(1,5) data(2) full show ?thesis
          by (intro dropped [where h = h and m = m' and sd = sd and d = d]) simp_all
      qed
    next
      case (plain r)
      let ?m = "m1\<lparr>m_store := (m_store m1)(buf := None)\<rparr>"
      have neq: "buf \<noteq> res" using plain(3) data(8) by auto
      have fr: "free buf m1 = Some ?m" using plain(2,4) data(8) neq by simp
      have st: "m_store ?m = (m_store (fb_heap s))(res \<mapsto> OResponse r)"
        using plain(4) old neq by (simp add: fun_upd_twist)
      have fresh: "res \<notin> live (fb_heap s)" using plain(3) data(8) by (auto split: if_splits)
      obtain m' where m': "mem_wf m'"
        "m_store m' = (m_store (fb_heap s))(cmd_response s := None, res \<mapsto> OResponse r)"
        "cmd_sem s < SEM_VALUE_MAX \<longrightarrow>
           read_thread_dispatch sz res (s\<lparr>fb_transport := h, fb_heap := ?m\<rparr>)
           = Some (True, s\<lparr>fb_transport := h, fb_heap := m', cmd_response := res,
                           cmd_sem := Suc (cmd_sem s)\<rparr>)"
        "cmd_sem s = SEM_VALUE_MAX \<longrightarrow>
           read_thread_dispatch sz res (s\<lparr>fb_transport := h, fb_heap := ?m\<rparr>)
           = Some (False, s\<lparr>fb_transport := h, cmd_response := res,
                           fb_heap := m'\<lparr>m_store := (m_store m')(res := None)\<rparr>\<rparr>)"
        "m_fail m' = m_fail ?m"
        by (rule dispatch_plain [where sz = sz and h = h, OF assms(2) mem_wf_remove [OF plain(2)] st fresh plain(1,5)])
      show ?thesis
      proof (cases "cmd_sem s < SEM_VALUE_MAX")
        case True
        with pre fr m' fresh plain(1,5) data(2,9) plain(6) show ?thesis
          by (intro response [where h = h and m = m' and p = res and r = r]) auto
      next
        case False
        with I(7) have max: "cmd_sem s = SEM_VALUE_MAX" by simp
        with pre fr m' fresh plain(1,5) data(2) mem_wf_remove [OF m'(1), of res] show ?thesis
          
          by (intro dead [where h = h and p = res and m = "m'\<lparr>m_store := (m_store m')(res := None)\<rparr>"])
             simp_all
      qed
    qed
  qed
qed

end


section \<open>What the reader keeps\<close>

text \<open>The live objects that the client does not own: the user holds them, or nobody does.\<close>

definition fb_loose :: "('h, 'fs) fbsys \<Rightarrow> ptr set" where
  "fb_loose s = live (fb_heap s) - fb_owned s"

text \<open>
  A response that \<open>command\<close> can look at without reading through a null pointer or outside the table
  of status names; the code checks none of this.
\<close>

definition response_wf :: "pb_api \<Rightarrow> 's response_pb \<Rightarrow> bool" where
  "response_wf pb r \<longleftrightarrow>
     res_context r \<noteq> None \<and>
     (res_status r \<noteq> STATUS_OK \<longrightarrow> status_in_table pb (res_status r) \<and> res_error r \<noteq> None)"

text \<open>
  What is asked of a message that a device sends: that it does not unpack (the reader skips it), is
  stream data with \<open>ok\<close>, which says what the program relies on, or a command response that \<open>command\<close> can
  look at. This is about the bytes of one message, not about the unpacking function.
\<close>

definition msg_wf :: "pb_api \<Rightarrow> (stream_data \<Rightarrow> bool) \<Rightarrow> bytes \<Rightarrow> bool" where
  "msg_wf pb ok bs =
     (case pb_unpack_response pb bs of
        None \<Rightarrow> True
      | Some w \<Rightarrow> (case res_type w of RESPONSE_STREAM d \<Rightarrow> ok d | _ \<Rightarrow> response_wf pb w))"

text \<open>The same of the messages that the client has received: the pending response and the queue.\<close>

definition pending_wf :: "pb_api \<Rightarrow> (stream_data \<Rightarrow> bool) \<Rightarrow> ('h, 'fs) fbsys \<Rightarrow> bool" where
  "pending_wf pb ok s \<longleftrightarrow>
     (\<forall>r. m_store (fb_heap s) (cmd_response s) = Some (OResponse r) \<longrightarrow> response_wf pb r) \<and>
     (\<forall>p \<in> set (sq_list (fb_streamq s)). \<forall>d. m_store (fb_heap s) p = Some (OStreamData d) \<longrightarrow> ok d)"

lemma msg_wf_mono: "msg_wf pb ok bs \<Longrightarrow> (\<And>d. ok d \<Longrightarrow> ok' d) \<Longrightarrow> msg_wf pb ok' bs"
  by (auto simp: msg_wf_def split: option.splits response_type.splits)

text \<open>What another thread may rely on while the reader works.\<close>

definition reader_frame :: "('h, 'fs) fbsys \<Rightarrow> ('h, 'fs) fbsys \<Rightarrow> bool" where
  "reader_frame s s' \<longleftrightarrow>
     cmd_context s' = cmd_context s \<and> cmd_timeout s' = cmd_timeout s \<and> cmd_mutex s' = cmd_mutex s \<and>
     fb_loose s' = fb_loose s \<and> set (sq_list (fb_streamq s)) \<subseteq> set (sq_list (fb_streamq s')) \<and>
     (\<forall>p \<in> fb_loose s \<union> set (sq_list (fb_streamq s)). m_store (fb_heap s') p = m_store (fb_heap s) p)"

lemma reader_frame_refl: "reader_frame s s"
  by (simp add: reader_frame_def)

lemma reader_frame_trans: "reader_frame s t \<Longrightarrow> reader_frame t u \<Longrightarrow> reader_frame s u"
  unfolding reader_frame_def by auto

lemma response_wf_cong:
  "res_context w = res_context r \<Longrightarrow> res_status w = res_status r \<Longrightarrow> res_error w = res_error r \<Longrightarrow>
     response_wf pb w = response_wf pb r"
  by (simp add: response_wf_def)

lemma owned_not_fresh: "fb_inv s \<Longrightarrow> p \<notin> live (fb_heap s) \<Longrightarrow> p \<notin> fb_owned s"
  using fb_owned_live by blast

lemma response_not_queued:
  assumes "fb_inv s" "cmd_response s \<noteq> NULL"
  shows "cmd_response s \<notin> set (sq_list (fb_streamq s))"
  using fb_invD(4) [OF assms(1), of "cmd_response s"] fb_invD(5) [OF assms] by auto

lemma pending_not_queued:
  assumes "fb_inv s"
  shows "cmd_response s \<notin> set (sq_list (fb_streamq s))"
  using response_not_queued [OF assms] fb_invD(1,4) [OF assms] NULL_not_live
  by (cases "cmd_response s = NULL") force+

text \<open>
  One iteration of the reader, on any message. It goes on with the client's invariant kept; or the queue
  was full and the message, of the stream, is lost; or \<open>cmd_sem\<close> was at its maximum, the response
  is freed and the thread ends. When the peer's messages are what the program relies on, what the
  client then holds is so, too.
\<close>

context message_source
begin

lemma read_thread_body_outcome:
  assumes "invar (fb_transport s)" "fb_inv s"
  obtains
    (blocked) "t_read_msg methods (fb_transport s) 1 (fb_heap s) = None"
      "read_thread_body methods pb sz s = None"
  | (goes_on) s' where "read_thread_body methods pb sz s = Some (True, s')" "invar (fb_transport s')"
      "fb_inv s'" "reader_frame s s'" "good = msg_wf pb ok \<Longrightarrow> pending_wf pb ok s \<Longrightarrow> pending_wf pb ok s'"
  | (dropped) s' sd d where "read_thread_body methods pb sz s = Some (True, s')" "invar (fb_transport s')"
      "fb_inv s'" "fb_loose s' = insert sd (fb_loose s)" "sd \<notin> live (fb_heap s)"
      "m_store (fb_heap s') = (m_store (fb_heap s))(sd \<mapsto> OStreamData d)"
      "length (sq_list (fb_streamq s)) = q_capacity (fb_streamq s)" "fb_streamq s' = fb_streamq s"
  | (dead) s' where "read_thread_body methods pb sz s = Some (False, s')" "invar (fb_transport s')"
      "mem_wf (fb_heap s')" "m_store (fb_heap s') = (m_store (fb_heap s))(cmd_response s := None)"
      "fb_streamq s' = fb_streamq s" "cmd_sem s = SEM_VALUE_MAX" "cmd_response s' \<noteq> NULL"
      "cmd_response s' \<notin> live (fb_heap s')"
proof -
  note I = fb_invD [OF assms(2)]
  from assms(1,2) show ?thesis
  proof (cases rule: read_thread_body_cases [where sz = sz and pb = pb])
    case blocked
    with that(1) show ?thesis by simp
  next
    case (idle h m)
    show ?thesis
      by (rule goes_on [OF idle(1)])
         (use idle I in \<open>simp_all add: fb_inv_def pending_wf_def
            reader_frame_def fb_loose_def fb_owned_def\<close>)
  next
    case (pushed h m sd d q)
    have new: "sd \<notin> fb_owned s" using assms(2) pushed(4) by (rule owned_not_fresh)
    have neq: "cmd_response s \<noteq> sd" using new pushed(5) by (auto simp: fb_owned_def)
    let ?s = "s\<lparr>fb_transport := h, fb_heap := m, fb_streamq := q, fb_now := fb_now s\<rparr>"
    have "fb_inv ?s" using I pushed neq new by (auto simp: fb_inv_def fb_owned_def split: if_splits)
    moreover have "pending_wf pb ok ?s" if "good = msg_wf pb ok" "pending_wf pb ok s"
    proof -
      from that(1) pushed(10) have "ok d" by (auto simp: msg_wf_def)
      with that(2) neq new pushed(6,8) show ?thesis by (auto simp: pending_wf_def fb_owned_def)
    qed
    moreover have "reader_frame s ?s"
      using new pushed(4-6,8) by (auto simp: reader_frame_def fb_loose_def fb_owned_def)
    ultimately show ?thesis using pushed(1,2) by (intro goes_on [of ?s]) simp_all
  next
    case (dropped h m sd d t)
    let ?s = "s\<lparr>fb_transport := h, fb_heap := m, fb_streamq := fb_streamq s, fb_now := t\<rparr>"
    have new: "sd \<notin> fb_owned s" using assms(2) dropped(4) by (rule owned_not_fresh)
    have "fb_inv ?s" using I dropped new by (auto simp: fb_inv_def fb_owned_def split: if_splits)
    moreover have "fb_loose ?s = insert sd (fb_loose s)"
      using new dropped(6) by (auto simp: fb_loose_def fb_owned_def)
    ultimately show ?thesis using dropped by (intro that(3) [of ?s sd d]) simp_all
  next
    case (response h m p r)
    let ?s = "s\<lparr>fb_transport := h, fb_heap := m, cmd_response := p, cmd_sem := Suc (cmd_sem s)\<rparr>"
    have new: "p \<notin> fb_owned s" using assms(2) response(4) by (rule owned_not_fresh)
    have old: "cmd_response s \<notin> set (sq_list (fb_streamq s))" using assms(2) by (rule pending_not_queued)
    have "pending_wf pb ok ?s" if "good = msg_wf pb ok" "pending_wf pb ok s"
    proof -
      from response(9) that(1) obtain bs w where w: "msg_wf pb ok bs" "pb_unpack_response pb bs = Some w"
        "type_case (res_type w) = type_case (res_type r)" "res_context w = res_context r"
        "res_status w = res_status r" "res_error w = res_error r" by blast
      then have "response_wf pb w" using response(7)
        by (cases "res_type w") (simp_all add: msg_wf_def)
      then have "response_wf pb r" using response_wf_cong [OF w(4-6)] by blast
      with that(2) response(6) new old show ?thesis by (auto simp: pending_wf_def fb_owned_def)
    qed
    moreover have "fb_inv ?s"
      using I response(3,5-8) new old by (auto simp: fb_inv_def fb_owned_def split: if_splits)
    moreover have "reader_frame s ?s"
      using new old response(4-6) NULL_not_live [OF I(1)]
      by (auto simp: reader_frame_def fb_loose_def fb_owned_def split: if_splits)
    ultimately show ?thesis using response(1,2) by (intro goes_on [of ?s]) simp_all
  next
    case (dead h m p)
    then have "m_store m = (m_store (fb_heap s))(cmd_response s := None)" by (simp add: fun_eq_iff domIff)
    with dead that(4) show ?thesis by auto
  qed
qed

end


section \<open>What a command does\<close>

text \<open>The specification of the second half of \<open>command\<close> on a response.\<close>

definition command_verdict :: "bytes \<Rightarrow> 's response_pb \<Rightarrow> io4e_err_t" where
  "command_verdict ctx r =
     (if strcmp_eq (the (res_context r)) ctx then map_fb_error (res_status r) else IO4E_FAIL)"

definition context_next :: "byte \<Rightarrow> byte" where
  "context_next c = (if c + 1 = 90 then 65 else c + 1)"

definition context_after :: "bytes \<Rightarrow> 's response_pb \<Rightarrow> bytes" where
  "context_after ctx r =
     (if strcmp_eq (the (res_context r)) ctx then ctx[0 := context_next (ctx ! 0)] else ctx)"

lemma map_fb_error_OK [simp]: "map_fb_error st = IO4E_OK \<longleftrightarrow> st = STATUS_OK"
  by (cases st) (simp_all add: err_defs fb_err_defs)

lemma command_finish_empty:
  "cmd_response s = NULL \<Longrightarrow> command_finish pb want s = Some (IO4E_FAIL, NULL, s)"
  by (simp add: command_finish_def command_check_def)

lemma command_check_response:
  assumes wf: "mem_wf (fb_heap s)" and r: "m_store (fb_heap s) res = Some (OResponse r)"
    and tc: "type_case (res_type r) \<noteq> TYPE_STREAM" and c: "cmd_context s = [c, 0]"
  shows "command_check pb want res s =
    (if res_context r = None \<or>
        strcmp_eq (the (res_context r)) (cmd_context s) \<and> \<not> response_wf pb r then None
     else Some (command_verdict (cmd_context s) r,
            if command_verdict (cmd_context s) r = IO4E_OK \<and> want then res else NULL,
            s\<lparr>cmd_context := context_after (cmd_context s) r,
              fb_heap := (if command_verdict (cmd_context s) r = IO4E_OK \<and> want then fb_heap s
                else (fb_heap s)\<lparr>m_store := (m_store (fb_heap s))(res := None)\<rparr>)\<rparr>))"
proof -
  note get = get_response_live [OF wf r] and free = free_response [OF wf r tc]
  have nn: "res \<noteq> NULL" using wf r mem_wf_live_not_NULL by blast
  have idx: "array_get [c, 0] 0 = Some c" "array_put [c, 0] 0 x = Some [x, 0]" for x :: byte
    by (simp_all add: array_get_def array_put_def)
  show ?thesis
  proof (cases "res_context r")
    case None
    with nn get show ?thesis by (simp add: command_check_def)
  next
    case (Some v)
    show ?thesis
    proof (cases "strcmp_eq v (cmd_context s)")
      case False
      with Some nn get free show ?thesis
        by (simp add: command_check_def command_verdict_def context_after_def err_defs)
    next
      case True
      with Some nn get free idx c show ?thesis
        by (cases "res_status r = STATUS_OK")
           (simp_all add: command_check_def command_verdict_def context_after_def context_next_def
             response_wf_def Let_def)
    qed
  qed
qed

lemma command_finish_pending:
  assumes "fb_inv s" "cmd_response s \<noteq> NULL"
    and r: "m_store (fb_heap s) (cmd_response s) = Some (OResponse r)"
  shows "command_finish pb want s =
    (if res_context r = None \<or>
        strcmp_eq (the (res_context r)) (cmd_context s) \<and> \<not> response_wf pb r then None
     else Some (command_verdict (cmd_context s) r,
            if command_verdict (cmd_context s) r = IO4E_OK \<and> want then cmd_response s else NULL,
            s\<lparr>cmd_response := NULL, cmd_context := context_after (cmd_context s) r,
              fb_heap := (if command_verdict (cmd_context s) r = IO4E_OK \<and> want then fb_heap s
                else (fb_heap s)\<lparr>m_store := (m_store (fb_heap s))(cmd_response s := None)\<rparr>)\<rparr>))"
proof -
  note I = fb_invD [OF assms(1)]
  from I(6) obtain c where c: "cmd_context s = [c, 0]" by blast
  from I(5) [OF assms(2)] r have tc: "type_case (res_type r) \<noteq> TYPE_STREAM" by simp
  let ?s = "s\<lparr>cmd_response := NULL\<rparr>"
  have "mem_wf (fb_heap ?s)" "m_store (fb_heap ?s) (cmd_response s) = Some (OResponse r)"
    "cmd_context ?s = [c, 0]" using I(1) r c by simp_all
  from command_check_response [OF this(1,2) tc this(3), of pb want] show ?thesis
    by (simp add: command_finish_def)
qed


text \<open>A response in the user's hands: live, not owned by the client, not a stream response.\<close>

definition held_response :: "ptr \<Rightarrow> ('h, 'fs) fbsys \<Rightarrow> bool" where
  "held_response p s \<longleftrightarrow>
     p \<in> fb_loose s \<and>
     (\<exists>r. m_store (fb_heap s) p = Some (OResponse r) \<and> type_case (res_type r) \<noteq> TYPE_STREAM)"

lemma command_finish_keeps:
  assumes inv: "fb_inv s" and wf: "pending_wf pb ok s"
  obtains err res s' where "command_finish pb want s = Some (err, res, s')" "fb_inv s'" "pending_wf pb ok s'"
    "cmd_response s' = NULL" "res \<noteq> NULL \<longleftrightarrow> err = IO4E_OK \<and> want"
    "res \<noteq> NULL \<Longrightarrow> held_response res s'"
    "fb_loose s' = (if res = NULL then fb_loose s else insert res (fb_loose s))"
    "fb_transport s' = fb_transport s" "cmd_mutex s' = cmd_mutex s" "cmd_timeout s' = cmd_timeout s"
proof (cases "cmd_response s = NULL")
  case True
  show ?thesis
    by (rule that [OF command_finish_empty [OF True] inv wf]) (use True in \<open>simp_all add: err_defs\<close>)
next
  case False
  note I = fb_invD [OF inv]
  from I(5) [OF False] obtain r where r: "m_store (fb_heap s) (cmd_response s) = Some (OResponse r)"
    "type_case (res_type r) \<noteq> TYPE_STREAM" by blast
  from wf r(1) have rwf: "response_wf pb r" by (simp add: pending_wf_def)
  then have ctx: "res_context r \<noteq> None" by (simp add: response_wf_def)
  let ?p = "cmd_response s" and ?v = "command_verdict (cmd_context s) r"
  let ?keep = "?v = IO4E_OK \<and> want"
  let ?s = "s\<lparr>cmd_response := NULL, cmd_context := context_after (cmd_context s) r,
    fb_heap := (if ?keep then fb_heap s else (fb_heap s)\<lparr>m_store := (m_store (fb_heap s))(?p := None)\<rparr>)\<rparr>"
  have eq: "command_finish pb want s = Some (?v, if ?keep then ?p else NULL, ?s)"
    using command_finish_pending [OF inv False r(1), of pb want] rwf ctx by simp
  have nq: "?p \<notin> set (sq_list (fb_streamq s))" using inv by (rule pending_not_queued)
  have "\<exists>c. context_after (cmd_context s) r = [c, 0]" using I(6) by (auto simp: context_after_def)
  then have inv': "fb_inv ?s" using I(1-4,7) nq mem_wf_remove [OF I(1)] by (auto simp: fb_inv_def)
  have wf': "pending_wf pb ok ?s"
    using wf nq NULL_not_live [OF I(1)] by (auto simp: pending_wf_def)
  have live: "?p \<in> live (fb_heap s)" using r(1) by blast
  show ?thesis
  proof (rule that [OF eq inv' wf'])
    show "fb_loose ?s
        = (if (if ?keep then ?p else NULL) = NULL then fb_loose s
           else insert (if ?keep then ?p else NULL) (fb_loose s))"
      using False nq live by (auto simp: fb_loose_def fb_owned_def)
    show "held_response (if ?keep then ?p else NULL) ?s" if "(if ?keep then ?p else NULL) \<noteq> NULL"
      using that False nq r by (auto simp: held_response_def fb_loose_def fb_owned_def split: if_splits)
  qed (use False in simp_all)
qed

text \<open>
  What leaves the client alone: the connection, the pending response, the queue, and the objects that the
  client owns are as before.
\<close>

definition client_kept :: "('h, 'fs) fbsys \<Rightarrow> ('h, 'fs) fbsys \<Rightarrow> bool" where
  "client_kept s s' \<longleftrightarrow>
     fb_transport s' = fb_transport s \<and> cmd_response s' = cmd_response s \<and> fb_streamq s' = fb_streamq s \<and>
     (\<forall>p \<in> fb_owned s. m_store (fb_heap s') p = m_store (fb_heap s) p)"

lemma pending_wf_kept:
  assumes "client_kept s s'" "fb_inv s'" "pending_wf pb ok s"
  shows "pending_wf pb ok s'"
  using assms NULL_not_live [OF fb_invD(1) [OF assms(2)]]
  by (cases "cmd_response s = NULL") (auto simp: client_kept_def pending_wf_def fb_owned_def)

text \<open>The two common ends of a request.\<close>

lemma exit_proto_keeps:
  assumes "fb_inv s" "held_response p s"
  obtains s' where "exit_proto p s = Some (IO4E_ERR_PROTOBUF, None, s')" "fb_inv s'"
    "fb_loose s' = fb_loose s - {p}" "client_kept s s'" "cmd_mutex s' = cmd_mutex s"
proof -
  note I = fb_invD [OF assms(1)]
  from assms(2) obtain r where r: "m_store (fb_heap s) p = Some (OResponse r)"
    "type_case (res_type r) \<noteq> TYPE_STREAM" and loose: "p \<in> fb_loose s"
    by (auto simp: held_response_def)
  let ?m = "(fb_heap s)\<lparr>m_store := (m_store (fb_heap s))(p := None)\<rparr>"
  have free: "response__free_unpacked p (fb_heap s) = Some ?m" using I(1) r by (rule free_response)
  have nq: "p \<notin> set (sq_list (fb_streamq s))" "cmd_response s \<noteq> NULL \<Longrightarrow> p \<noteq> cmd_response s"
    using loose by (auto simp: fb_loose_def fb_owned_def split: if_splits)
  have "fb_inv (s\<lparr>fb_heap := ?m\<rparr>)"
    using I nq mem_wf_remove [OF I(1)] by (auto simp: fb_inv_def)
  with free show ?thesis
    by (intro that [of "s\<lparr>fb_heap := ?m\<rparr>"])
       (use nq in \<open>auto simp: exit_proto_def client_kept_def fb_loose_def fb_owned_def split: if_splits\<close>)
qed

lemma fb_inv_alloc:
  assumes "fb_inv s" "mem_wf m" "p \<notin> live (fb_heap s)" "m_store m = (m_store (fb_heap s))(p \<mapsto> x)"
  shows "fb_inv (s\<lparr>fb_heap := m\<rparr>)" "fb_loose (s\<lparr>fb_heap := m\<rparr>) = insert p (fb_loose s)"
proof -
  note I = fb_invD [OF assms(1)]
  have "p \<notin> fb_owned s" using assms(1,3) by (rule owned_not_fresh)
  then show "fb_inv (s\<lparr>fb_heap := m\<rparr>)" "fb_loose (s\<lparr>fb_heap := m\<rparr>) = insert p (fb_loose s)"
    using I assms(2-4) by (auto simp: fb_inv_def fb_owned_def fb_loose_def split: if_splits)
qed

lemma unpack_and_free_keeps:
  assumes "fb_inv s" "held_response p s" and r: "m_store (fb_heap s) p = Some (OResponse r)"
    "response_any (res_type r) = Some any"
  obtains (ok) fs x s' where "unpack_and_free u p s = Some (IO4E_OK, Some fs, s')" "fb_inv s'"
      "fb_loose s' = insert fs (fb_loose s - {p})" "fs \<notin> fb_loose s"
      "u (any_value any) = Some x" "m_store (fb_heap s') fs = Some (OFs x)"
      "client_kept s s'" "cmd_mutex s' = cmd_mutex s"
    | (proto) s' where "unpack_and_free u p s = Some (IO4E_ERR_PROTOBUF, None, s')" "fb_inv s'"
      "fb_loose s' = fb_loose s - {p}"
      "client_kept s s'" "cmd_mutex s' = cmd_mutex s"
proof -
  note I = fb_invD [OF assms(1)]
  obtain fs m where u: "fs_unpack u (any_value any) (fb_heap s) = (fs, m)" by fastforce
  have get: "get_response p (fb_heap s) = Some r" using I(1) r(1) by (rule get_response_live)
  let ?s = "s\<lparr>fb_heap := m\<rparr>"
  from I(1) u show ?thesis
  proof (cases rule: fs_unpack_cases)
    case none
    have inv': "fb_inv ?s" using I none(2,3) by (simp add: fb_inv_def)
    have held: "held_response p ?s" "fb_loose ?s = fb_loose s"
      using assms(2) none(3) by (auto simp: held_response_def fb_loose_def fb_owned_def)
    from inv' held(1) obtain s' where "exit_proto p ?s = Some (IO4E_ERR_PROTOBUF, None, s')" "fb_inv s'"
      "fb_loose s' = fb_loose ?s - {p}" "client_kept ?s s'"
      "cmd_mutex s' = cmd_mutex ?s" by (rule exit_proto_keeps)
    moreover from this(4) none(3) have "client_kept s s'" by (simp add: client_kept_def fb_owned_def)
    ultimately show ?thesis using get r(2) u none held(2)
      by (intro proto [of s']) (simp_all add: unpack_and_free_def)
  next
    case (some x)
    note alloc = fb_inv_alloc [OF assms(1) some(3,4,5)]
    from assms(2) have "p \<noteq> fs" using some(4) by (auto simp: held_response_def)
    have held: "held_response p ?s"
      using assms(2) alloc(2) some(5) \<open>p \<noteq> fs\<close> by (auto simp: held_response_def)
    from alloc(1) held obtain s' where ex: "exit_proto p ?s = Some (IO4E_ERR_PROTOBUF, None, s')"
      "fb_inv s'" "fb_loose s' = fb_loose ?s - {p}" "client_kept ?s s'"
      "cmd_mutex s' = cmd_mutex ?s" by (rule exit_proto_keeps)
    have "client_kept s s'"
      using ex(4) some(5) owned_not_fresh [OF assms(1) some(4)] by (auto simp: client_kept_def fb_owned_def)
    from ex(1) obtain m' where m': "response__free_unpacked p m = Some m'" "s' = ?s\<lparr>fb_heap := m'\<rparr>"
      by (auto simp: exit_proto_def bind_eq_Some_conv)
    from held obtain r' where "m_store m p = Some (OResponse r')" "type_case (res_type r') \<noteq> TYPE_STREAM"
      by (auto simp: held_response_def)
    with some(3) have "response__free_unpacked p m = Some (m\<lparr>m_store := (m_store m)(p := None)\<rparr>)"
      by (intro free_response)
    with m' some(5) \<open>p \<noteq> fs\<close> have "m_store (fb_heap s') fs = Some (OFs x)" by auto
    moreover have "fs \<notin> fb_loose s" using some(4) by (simp add: fb_loose_def)
    ultimately show ?thesis
      using get r(2) u some m' ex(2,3,5) \<open>client_kept s s'\<close> alloc(2) \<open>p \<noteq> fs\<close>
      by (intro ok [of fs s' x]) (auto simp: unpack_and_free_def)
  qed
qed


text \<open>Fields that ownership and the invariant do not depend on.\<close>

lemma fb_loose_simps [simp]:
  "fb_loose (s\<lparr>fb_transport := x0\<rparr>) = fb_loose s"
  "fb_loose (s\<lparr>cmd_timeout := x1\<rparr>) = fb_loose s"
  "fb_loose (s\<lparr>cmd_mutex := x2\<rparr>) = fb_loose s"
  "fb_loose (s\<lparr>fb_now := x3\<rparr>) = fb_loose s"
  "fb_loose (s\<lparr>cmd_context := x4\<rparr>) = fb_loose s"
  "fb_loose (s\<lparr>cmd_sem := x5\<rparr>) = fb_loose s"
  by (simp_all add: fb_loose_def fb_owned_def)

lemma fb_inv_simps [simp]:
  "fb_inv (s\<lparr>fb_transport := x0\<rparr>) = fb_inv s"
  "fb_inv (s\<lparr>cmd_timeout := x1\<rparr>) = fb_inv s"
  "fb_inv (s\<lparr>cmd_mutex := x2\<rparr>) = fb_inv s"
  "fb_inv (s\<lparr>fb_now := x3\<rparr>) = fb_inv s"
  by (simp_all add: fb_inv_def)

lemma pending_wf_simps [simp]:
  "pending_wf pb ok (s\<lparr>fb_transport := x0\<rparr>) = pending_wf pb ok s"
  "pending_wf pb ok (s\<lparr>cmd_timeout := x1\<rparr>) = pending_wf pb ok s"
  "pending_wf pb ok (s\<lparr>cmd_mutex := x2\<rparr>) = pending_wf pb ok s"
  "pending_wf pb ok (s\<lparr>fb_now := x3\<rparr>) = pending_wf pb ok s"
  "pending_wf pb ok (s\<lparr>cmd_context := x4\<rparr>) = pending_wf pb ok s"
  "pending_wf pb ok (s\<lparr>cmd_sem := x5\<rparr>) = pending_wf pb ok s"
  by (simp_all add: pending_wf_def)

lemma held_response_simps [simp]:
  "held_response p (s\<lparr>fb_transport := x0\<rparr>) = held_response p s"
  "held_response p (s\<lparr>cmd_timeout := x1\<rparr>) = held_response p s"
  "held_response p (s\<lparr>cmd_mutex := x2\<rparr>) = held_response p s"
  "held_response p (s\<lparr>fb_now := x3\<rparr>) = held_response p s"
  "held_response p (s\<lparr>cmd_context := x4\<rparr>) = held_response p s"
  "held_response p (s\<lparr>cmd_sem := x5\<rparr>) = held_response p s"
  by (simp_all add: held_response_def)

lemma fb_inv_sem: "fb_inv s \<Longrightarrow> v \<le> cmd_sem s \<Longrightarrow> fb_inv (s\<lparr>cmd_sem := v\<rparr>)"
  by (simp add: fb_inv_def)

lemma fb_inv_context: "fb_inv s \<Longrightarrow> fb_inv (s\<lparr>cmd_context := [c, 0]\<rparr>)"
  by (simp add: fb_inv_def)

lemma correct_config_any:
  "is_correct_config_response r ACTION_GET \<Longrightarrow> \<exists>any. response_any (res_type r) = Some any"
  "is_correct_config_response r ACTION_DESCRIBE \<Longrightarrow> \<exists>any. response_any (res_type r) = Some any"
  by (auto simp: is_correct_config_response_def split: response_type.splits
      elim: config_action_case.elims)

lemma correct_fc_any:
  "is_correct_fc_response r ACTION_GET \<Longrightarrow> \<exists>any. response_any (res_type r) = Some any"
  "is_correct_fc_response r ACTION_SET \<Longrightarrow> \<exists>any. response_any (res_type r) = Some any"
  by (auto simp: is_correct_fc_response_def split: response_type.splits elim: fc_action_case.elims)


section \<open>The contract between a command and the reader\<close>

text \<open>
  \<open>command\<close> on a transport and with a reader thread \<open>env\<close> that returns, keeps the client's invariant
  and frees nothing it does not own. The lemmas here hold for every such pair; the interpretation, in
  \<open>Client_State\<close>, is the socket transport with iterations of the reader's loop.
\<close>

locale command_contract = transport_contract methods invar good
  for methods :: "('h, 'fs) transport_t" and invar :: "'h \<Rightarrow> bool" and good :: "bytes \<Rightarrow> bool" +
  fixes pb :: pb_api
    and ok :: "stream_data \<Rightarrow> bool"
    and env :: "('h, 'fs) fbsys \<Rightarrow> ('h, 'fs) fbsys option"
  assumes env_returns: "invar (fb_transport s) \<Longrightarrow> fb_inv s \<Longrightarrow> pending_wf pb ok s \<Longrightarrow>
      \<exists>s'. env s = Some s' \<and> invar (fb_transport s') \<and> fb_inv s' \<and> pending_wf pb ok s' \<and>
        reader_frame s s'"
begin

definition ready :: "('h, 'fs) fbsys \<Rightarrow> bool" where
  "ready s \<longleftrightarrow> invar (fb_transport s) \<and> fb_inv s \<and> pending_wf pb ok s \<and> \<not> cmd_mutex s"

lemma command_send_returns:
  assumes "invar (fb_transport s)" "fb_inv s" "\<not> cmd_mutex s"
  obtains err c h where "command_send methods pb cmd s
      = Some (err, s\<lparr>cmd_mutex := True, cmd_context := [c + 1, 0], fb_transport := h\<rparr>)"
    "invar h" "cmd_context s = [c, 0]"
proof -
  from fb_invD(6) [OF assms(2)] obtain c where c: "cmd_context s = [c, 0]" by blast
  let ?data = "pb_pack_command pb (cmd\<lparr>cmd_ctx := Some (c_str [c + 1, 0])\<rparr>)"
  let ?h = "t_get_write_offset methods (fb_transport s)"
  have "unat (of_nat (length ?data) + ?h) \<le> length (replicate (unat ?h) 0 @ ?data)"
    by (simp add: unat_word_ariths unat_of_nat)
  from write_returns [OF assms(1) this] obtain err h where
    "t_write_msg methods (fb_transport s) (replicate (unat ?h) 0 @ ?data)
       (of_nat (length ?data) + ?h) = Some (err, h)" "invar h" by blast
  with assms(3) c show ?thesis
    by (intro that [where err = err and c = c and h = h])
       (simp_all add: command_send_def command_advance_def array_get_def array_put_def Let_def)
qed

lemma command_keeps:
  assumes "ready s"
  obtains err res s' where "command methods pb env cmd want s = Some (err, res, s')"
    "fb_inv s'" "\<not> cmd_mutex s'" "invar (fb_transport s')"
    "res \<noteq> NULL \<Longrightarrow> want \<and> err = IO4E_OK \<and> held_response res s' \<and> res \<notin> fb_loose s"
    "want \<and> err = IO4E_OK \<Longrightarrow> res \<noteq> NULL"
    "fb_loose s' = (if res = NULL then fb_loose s else insert res (fb_loose s))"
    "pending_wf pb ok s'" "err = IO4E_OK \<Longrightarrow> cmd_response s' = NULL"
proof -
  from assms have s: "invar (fb_transport s)" "fb_inv s" "pending_wf pb ok s" "\<not> cmd_mutex s"
    by (simp_all add: ready_def)
  from s(1,2,4) obtain err c h where send: "command_send methods pb cmd s
      = Some (err, s\<lparr>cmd_mutex := True, cmd_context := [c + 1, 0], fb_transport := h\<rparr>)"
    "invar h" "cmd_context s = [c, 0]" by (rule command_send_returns [where cmd = cmd])
  let ?s0 = "s\<lparr>cmd_mutex := True, cmd_context := [c + 1, 0], fb_transport := h\<rparr>"
  have s0: "fb_inv ?s0" "pending_wf pb ok ?s0" "fb_loose ?s0 = fb_loose s"
    using s(2,3) by (simp_all add: fb_inv_context)
  show ?thesis
  proof (cases "err = IO4E_OK")
    case False
    let ?s1 = "?s0\<lparr>cmd_mutex := False\<rparr>"
    have "fb_inv ?s1" using s(2) by (simp add: fb_inv_def)
    moreover have "fb_loose ?s1 = fb_loose s" by simp
    ultimately have "fb_inv ?s1" "fb_loose ?s1 = fb_loose s" "pending_wf pb ok ?s1"
      using s(3) by simp_all
    with False send show ?thesis by (intro that [of err NULL ?s1]) (simp_all add: command_def)
  next
    case True
    from env_returns [OF _ s0(1,2)] send(2) obtain s1 where
      s1: "env ?s0 = Some s1" "invar (fb_transport s1)" "fb_inv s1" "pending_wf pb ok s1"
        "reader_frame ?s0 s1" by auto
    have loose1: "fb_loose s1 = fb_loose s" using s1(5) s0(3) by (simp add: reader_frame_def)
    obtain ret v now where sem: "sem_timedwait (cmd_sem s1) (fb_now s + cmd_timeout s) (fb_now s1)
        = (ret, v, now)" by (metis prod_cases3)
    let ?s2 = "s1\<lparr>cmd_sem := v, fb_now := now\<rparr>"
    have v: "v \<le> cmd_sem s1" using sem by (auto simp: sem_timedwait_def split: if_splits)
    have s2: "fb_inv ?s2" "pending_wf pb ok ?s2" "fb_loose ?s2 = fb_loose s"
      using s1(3,4) v loose1 by (simp_all add: fb_inv_sem)
    have cmd: "command methods pb env cmd want s =
      (if ret = -1 then Some (IO4E_ERR_TIMEOUT, NULL, ?s2\<lparr>cmd_mutex := False\<rparr>)
       else map_option (\<lambda>(err, res, s). (err, res, s\<lparr>cmd_mutex := False\<rparr>))
              (command_finish pb want ?s2))"
      using send(1) s1(1) sem True
      by (simp add: command_def Let_def split_def map_conv_bind_option o_def)
    show ?thesis
    proof (cases "ret = -1")
      case True
      let ?s3 = "?s2\<lparr>cmd_mutex := False\<rparr>"
      have "fb_inv ?s3" "fb_loose ?s3 = fb_loose s" "pending_wf pb ok ?s3"
        using s2 by simp_all
      with True cmd s1(2) show ?thesis
        by (intro that [of IO4E_ERR_TIMEOUT NULL ?s3]) (simp_all add: err_defs)
    next
      case False
      from s2(1,2) obtain e res s3 where fin: "command_finish pb want ?s2 = Some (e, res, s3)"
        "fb_inv s3" "pending_wf pb ok s3" "cmd_response s3 = NULL" "res \<noteq> NULL \<longleftrightarrow> e = IO4E_OK \<and> want"
        "res \<noteq> NULL \<Longrightarrow> held_response res s3"
        "fb_loose s3 = (if res = NULL then fb_loose ?s2 else insert res (fb_loose ?s2))"
        "fb_transport s3 = fb_transport ?s2" by (rule command_finish_keeps [where want = want]) blast
      let ?s4 = "s3\<lparr>cmd_mutex := False\<rparr>"
      have s4: "fb_inv ?s4" "fb_loose ?s4 = fb_loose s3" "held_response res ?s4 = held_response res s3"
        using fin(2) by simp_all
      have pend: "cmd_response ?s4 = NULL" "pending_wf pb ok ?s4"
        using fin(3,4) by simp_all
      have new: "res \<notin> fb_loose s" if "res \<noteq> NULL"
      proof -
        from fin(1) that have "res = cmd_response s1"
          by (auto simp: command_finish_def command_check_def Let_def bind_eq_Some_conv split: if_splits)
        with that loose1 show ?thesis by (auto simp: fb_loose_def fb_owned_def)
      qed
      have "fb_loose ?s4 = (if res = NULL then fb_loose s else insert res (fb_loose s))"
        using s4(2) fin(7) s2(3) by simp
      moreover have "command methods pb env cmd want s = Some (e, res, ?s4)"
        using cmd False fin(1) by simp
      ultimately show ?thesis
        by (intro that [of e res ?s4]) (use fin(2,5,6,8) s4(1,3) s1(2) new pend in simp_all)
    qed
  qed
qed

end


text \<open>
  What a request leaves: the invariant, a free mutex, and either nothing new or one new object in
  the user's hands, the unpacked message that \<open>*fs_res_p\<close> points to.
\<close>

definition request_done ::
  "('h, 'fs) fbsys \<Rightarrow> io4e_err_t \<Rightarrow> ptr option \<Rightarrow> ('h, 'fs) fbsys \<Rightarrow> bool" where
  "request_done s err fs s' \<longleftrightarrow>
     fb_inv s' \<and> \<not> cmd_mutex s' \<and>
     (case fs of
        None \<Rightarrow> fb_loose s' = fb_loose s
      | Some p \<Rightarrow> err = IO4E_OK \<and> p \<notin> fb_loose s \<and> fb_loose s' = insert p (fb_loose s) \<and>
          (\<exists>x. m_store (fb_heap s') p = Some (OFs x)))"

text \<open>The message handed out is one that \<open>u\<close> made of some bytes.\<close>

definition unpacked_by :: "(bytes \<Rightarrow> 'fs option) \<Rightarrow> ptr option \<Rightarrow> ('h, 'fs) fbsys \<Rightarrow> bool" where
  "unpacked_by u fs s \<longleftrightarrow>
     (\<forall>p. fs = Some p \<longrightarrow> (\<exists>bs x. u bs = Some x \<and> m_store (fb_heap s) p = Some (OFs x)))"

lemma held_responseE:
  assumes "held_response p s" "fb_inv s"
  obtains r where "m_store (fb_heap s) p = Some (OResponse r)" "type_case (res_type r) \<noteq> TYPE_STREAM"
    "get_response p (fb_heap s) = Some r"
  using assms get_response_live fb_invD(1) unfolding held_response_def by blast

lemma exit_proto_done:
  assumes "fb_inv s1" "\<not> cmd_mutex s1" "held_response p s1" "p \<notin> fb_loose s"
    "fb_loose s1 = insert p (fb_loose s)"
  shows "\<exists>s'. exit_proto p s1 = Some (IO4E_ERR_PROTOBUF, None, s') \<and>
    request_done s IO4E_ERR_PROTOBUF None s' \<and> client_kept s1 s'"
proof -
  from assms(1,3) obtain s' where "exit_proto p s1 = Some (IO4E_ERR_PROTOBUF, None, s')" "fb_inv s'"
    "fb_loose s' = fb_loose s1 - {p}" "client_kept s1 s'"
    "cmd_mutex s' = cmd_mutex s1" by (rule exit_proto_keeps) blast
  with assms show ?thesis by (auto simp: request_done_def)
qed

lemma unpack_and_free_done:
  assumes "fb_inv s1" "\<not> cmd_mutex s1" "held_response p s1" "p \<notin> fb_loose s"
    "fb_loose s1 = insert p (fb_loose s)"
    and r: "m_store (fb_heap s1) p = Some (OResponse r)" "response_any (res_type r) = Some any"
  shows "\<exists>err fs s'. unpack_and_free u p s1 = Some (err, fs, s') \<and> request_done s err fs s' \<and>
    (err = IO4E_OK \<longleftrightarrow> fs \<noteq> None) \<and> unpacked_by u fs s' \<and> client_kept s1 s'"
  using assms(1,3) r
proof (cases rule: unpack_and_free_keeps [where u = u])
  case (ok fs x s')
  with assms(2,4,5) show ?thesis by (auto simp: request_done_def unpacked_by_def)
next
  case (proto s')
  with assms(2,4,5) show ?thesis by (auto simp: request_done_def unpacked_by_def err_defs)
qed

context command_contract
begin

lemma ready_kept: "ready s \<Longrightarrow> client_kept s s' \<Longrightarrow> request_done s0 err fs s' \<Longrightarrow> ready s'"
  using pending_wf_kept [of s s' pb ok] by (auto simp: ready_def client_kept_def request_done_def)

text \<open>Requests without a result.\<close>

lemma command_done:
  assumes "ready s"
  obtains err s' where "command methods pb env cmd False s = Some (err, NULL, s')"
    "request_done s err None s'" "ready s'"
proof -
  from assms obtain err res s' where c: "command methods pb env cmd False s = Some (err, res, s')"
    "fb_inv s'" "\<not> cmd_mutex s'" "res \<noteq> NULL \<Longrightarrow> False" "ready s'"
    "fb_loose s' = (if res = NULL then fb_loose s else insert res (fb_loose s))"
    by (rule command_keeps [where cmd = cmd and want = False]) (auto simp: ready_def)
  then have "res = NULL" by blast
  with c show ?thesis by (intro that [of err s']) (simp_all add: request_done_def)
qed

text \<open>Requests with a result: \<open>check\<close> stands for the test of the response's tags.\<close>

lemma fetch_done:
  assumes "ready s"
    and check: "\<And>r. check r \<Longrightarrow> \<exists>any. response_any (res_type r) = Some any"
  shows "\<exists>err fs s'. (do {
      (err, pb_res, s) \<leftarrow> command methods pb env cmd True s;
      if err \<noteq> IO4E_OK then Some (err, None, s)
      else do {
        r \<leftarrow> get_response pb_res (fb_heap s);
        if \<not> check r then exit_proto pb_res s else unpack_and_free u pb_res s } })
      = Some (err, fs, s') \<and> request_done s err fs s' \<and> (err = IO4E_OK \<longleftrightarrow> fs \<noteq> None) \<and>
     unpacked_by u fs s' \<and> ready s'"
proof -
  from assms(1) obtain err res s1 where c: "command methods pb env cmd True s = Some (err, res, s1)"
    "fb_inv s1" "\<not> cmd_mutex s1"
    "res \<noteq> NULL \<Longrightarrow> err = IO4E_OK \<and> held_response res s1 \<and> res \<notin> fb_loose s"
    "err = IO4E_OK \<Longrightarrow> res \<noteq> NULL"
    "fb_loose s1 = (if res = NULL then fb_loose s else insert res (fb_loose s))"
    "invar (fb_transport s1)" "pending_wf pb ok s1"
    by (rule command_keeps [where cmd = cmd and want = True]) blast
  then have ready: "ready s1" by (simp add: ready_def)
  show ?thesis
  proof (cases "err = IO4E_OK")
    case False
    with c(4) have "res = NULL" by blast
    with False c ready show ?thesis by (simp add: request_done_def unpacked_by_def)
  next
    case True
    with c(4,5) have res: "res \<noteq> NULL" "held_response res s1" "res \<notin> fb_loose s" by blast+
    from res(2) c(2) obtain r where r: "m_store (fb_heap s1) res = Some (OResponse r)"
      "type_case (res_type r) \<noteq> TYPE_STREAM" "get_response res (fb_heap s1) = Some r"
      by (rule held_responseE)
    have loose: "fb_loose s1 = insert res (fb_loose s)" using c(6) res(1) by simp
    show ?thesis
    proof (cases "check r")
      case False
      with exit_proto_done [OF c(2,3) res(2,3) loose] c(1) True r(3) ready_kept [OF ready] show ?thesis
        by (auto simp: err_defs unpacked_by_def)
    next
      case ok: True
      with check obtain any where "response_any (res_type r) = Some any" by blast
      from unpack_and_free_done [OF c(2,3) res(2,3) loose r(1) this, of u] c(1) True r(3) ok ready_kept [OF ready]
      show ?thesis by auto
    qed
  qed
qed

lemma upload_configuration_done:
  "ready s \<Longrightarrow> \<exists>err s'. io4e_functionblock_upload_configuration methods pb env msg s = Some (err, s') \<and>
     request_done s err None s' \<and> ready s'"
  by (erule command_done [where cmd = "\<lparr>cmd_ctx = None,
        cmd_type = COMMAND_CONFIGURATION (CONFIGURATION_SET (MAKE_ANYPB msg))\<rparr>"])
     (simp add: io4e_functionblock_upload_configuration_def)

lemma start_stream_done:
  "ready s \<Longrightarrow> \<exists>err s'. io4e_functionblock_start_stream methods pb env msg cfg s
       = Some (err, cfg\<lparr>functionspecificstreamcontrolstart := Some (MAKE_ANYPB msg)\<rparr>, s') \<and>
     request_done s err None s' \<and> ready s'"
  by (erule command_done [where cmd = "\<lparr>cmd_ctx = None,
        cmd_type = COMMAND_STREAM_CONTROL (STREAM_CONTROL_START
          (cfg\<lparr>functionspecificstreamcontrolstart := Some (MAKE_ANYPB msg)\<rparr>))\<rparr>"])
     (simp add: io4e_functionblock_start_stream_def)

lemma stop_stream_done:
  "ready s \<Longrightarrow> \<exists>err s'. io4edge_functionblock_stop_stream methods pb env s = Some (err, s') \<and>
     request_done s err None s' \<and> ready s'"
  by (erule command_done [where cmd = "\<lparr>cmd_ctx = None,
        cmd_type = COMMAND_STREAM_CONTROL STREAM_CONTROL_STOP\<rparr>"])
     (simp add: io4edge_functionblock_stop_stream_def)

lemma download_configuration_done:
  "ready s \<Longrightarrow> \<exists>err fs s'. io4e_functionblock_download_configuration methods pb env msg u s
       = Some (err, fs, s') \<and> request_done s err fs s' \<and> (err = IO4E_OK \<longleftrightarrow> fs \<noteq> None) \<and>
     unpacked_by u fs s' \<and> ready s'"
  unfolding io4e_functionblock_download_configuration_def Let_def
  by (rule fetch_done) (auto dest: correct_config_any)

lemma describe_done:
  "ready s \<Longrightarrow> \<exists>err fs s'. io4e_functionblock_describe methods pb env msg u s
       = Some (err, fs, s') \<and> request_done s err fs s' \<and> (err = IO4E_OK \<longleftrightarrow> fs \<noteq> None) \<and>
     unpacked_by u fs s' \<and> ready s'"
  unfolding io4e_functionblock_describe_def Let_def
  by (rule fetch_done) (auto dest: correct_config_any)

lemma function_control_get_done:
  "ready s \<Longrightarrow> \<exists>err fs s'. io4e_functionblock_function_control_get methods pb env msg u s
       = Some (err, fs, s') \<and> request_done s err fs s' \<and> (err = IO4E_OK \<longleftrightarrow> fs \<noteq> None) \<and>
     unpacked_by u fs s' \<and> ready s'"
  unfolding io4e_functionblock_function_control_get_def Let_def
  by (rule fetch_done) (auto dest: correct_fc_any)

lemma function_control_set_Some:
  "io4e_functionblock_function_control_set methods pb env msg (Some u) s = (do {
      (err, pb_res, s) \<leftarrow> command methods pb env \<lparr>cmd_ctx = None,
         cmd_type = COMMAND_FUNCTION_CONTROL (FUNCTION_CONTROL_SET (MAKE_ANYPB msg))\<rparr> True s;
      if err \<noteq> IO4E_OK then Some (err, None, s)
      else do {
        r \<leftarrow> get_response pb_res (fb_heap s);
        if \<not> is_correct_fc_response r ACTION_SET then exit_proto pb_res s
        else unpack_and_free u pb_res s } })"
  by (simp only: io4e_functionblock_function_control_set_def Let_def option.case)

lemma function_control_set_unpack_done:
  "ready s \<Longrightarrow> \<exists>err fs s'. io4e_functionblock_function_control_set methods pb env msg (Some u) s
       = Some (err, fs, s') \<and> request_done s err fs s' \<and> (err = IO4E_OK \<longleftrightarrow> fs \<noteq> None) \<and>
     unpacked_by u fs s' \<and> ready s'"
  unfolding function_control_set_Some
  by (rule fetch_done) (auto dest: correct_fc_any)

lemma function_control_set_plain_done:
  assumes "ready s"
  shows "\<exists>err s'. io4e_functionblock_function_control_set methods pb env msg None s
       = Some (err, None, s') \<and> request_done s err None s' \<and> ready s'"
proof -
  let ?cmd = "\<lparr>cmd_ctx = None,
    cmd_type = COMMAND_FUNCTION_CONTROL (FUNCTION_CONTROL_SET (MAKE_ANYPB msg))\<rparr>"
  from assms obtain err res s1 where c: "command methods pb env ?cmd True s = Some (err, res, s1)"
    "fb_inv s1" "\<not> cmd_mutex s1"
    "res \<noteq> NULL \<Longrightarrow> err = IO4E_OK \<and> held_response res s1 \<and> res \<notin> fb_loose s"
    "err = IO4E_OK \<Longrightarrow> res \<noteq> NULL"
    "fb_loose s1 = (if res = NULL then fb_loose s else insert res (fb_loose s))"
    "invar (fb_transport s1)" "pending_wf pb ok s1"
    by (rule command_keeps [where cmd = ?cmd and want = True]) blast
  then have ready: "ready s1" by (simp add: ready_def)
  show ?thesis
  proof (cases "err = IO4E_OK")
    case False
    with c(4) have "res = NULL" by blast
    with False c ready show ?thesis
      by (simp add: request_done_def io4e_functionblock_function_control_set_def)
  next
    case True
    with c(4,5) have res: "res \<noteq> NULL" "held_response res s1" "res \<notin> fb_loose s" by blast+
    from res(2) c(2) obtain r where r: "m_store (fb_heap s1) res = Some (OResponse r)"
      "type_case (res_type r) \<noteq> TYPE_STREAM" "get_response res (fb_heap s1) = Some r"
      by (rule held_responseE)
    have loose: "fb_loose s1 = insert res (fb_loose s)" using c(6) res(1) by simp
    from exit_proto_done [OF c(2,3) res(2,3) loose] obtain s' where
      ex: "exit_proto res s1 = Some (IO4E_ERR_PROTOBUF, None, s')"
        "request_done s IO4E_ERR_PROTOBUF None s'" "client_kept s1 s'" by blast
    then have "ready s'" using ready_kept [OF ready] by blast
    from ex obtain m where m: "response__free_unpacked res (fb_heap s1) = Some m"
      "s' = s1\<lparr>fb_heap := m\<rparr>" by (auto simp: exit_proto_def bind_eq_Some_conv)
    have "request_done s IO4E_OK None s'" using ex(2) by (simp add: request_done_def)
    with c(1) True r(3) ex m \<open>ready s'\<close> show ?thesis
      by (cases "is_correct_fc_response r ACTION_SET")
         (auto simp: io4e_functionblock_function_control_set_def err_defs)
  qed
qed

end

end
