(* ===== verification/Command_Conc.thy ===== *)
theory Command_Conc
  imports Functionblock
begin

text \<open>
  \<open>command\<close> and \<open>read_thread\<close> statement by statement: any number of threads call \<open>command\<close> on one client
  while the reader thread runs, and a schedule says whose statement is executed next. The shared state
  is the client and the heap of \<open>Functionblock\<close>, and the statements are its definitions; the
  connection is reduced to the commands that the device has not answered and the responses that
  the reader has not read (stream messages touch nothing that commands use, \<open>Streamq_Conc\<close> has them).
\<close>

section \<open>Threads\<close>

text \<open>A thread stands before the statement; \<open>nat\<close> is the number of the command, for the record only.\<close>

datatype caller_pc =
    Call_Idle
  | Call_Lock
  | Call_Advance
  | Call_Write
  | Call_Wait nat
  | Call_Take nat                      \<comment> \<open>\<open>res = h->cmd_response\<close>\<close>
  | Call_Clear nat ptr                 \<comment> \<open>\<open>h->cmd_response = NULL\<close>\<close>
  | Call_Check nat ptr
  | Call_Unlock io4e_err_t ptr
  | Call_Returned io4e_err_t ptr

datatype reader_pc =
    Reader_Read
  | Reader_Test ptr                    \<comment> \<open>\<open>if (h->cmd_response != NULL)\<close>\<close>
  | Reader_Free ptr
  | Reader_Set ptr                     \<comment> \<open>\<open>h->cmd_response = res\<close>\<close>
  | Reader_Post ptr
  | Reader_Exited

text \<open>
  \<open>c_next\<close>, \<open>c_tag\<close>, \<open>c_log\<close> and \<open>c_timeouts\<close> are records: the number of commands sent, the command
  that each response in memory answers, what each command took and returned, and how many timed out.
\<close>

record 'fs csys =
  c_fb :: "(unit, 'fs) fbsys"
  c_callers :: "caller_pc list"
  c_reader :: reader_pc
  c_sent :: "(nat \<times> bytes) list"
  c_wire :: "(nat \<times> response) list"
  c_next :: nat
  c_tag :: "ptr \<Rightarrow> nat"
  c_log :: "(nat \<times> nat option \<times> io4e_err_t) list"
  c_timeouts :: nat

text \<open>What is executed next. \<open>want\<close> is whether the caller passed a \<open>res_p\<close>.\<close>

datatype event =
    Ev_Caller nat bool
  | Ev_Write_Error nat io4e_err_t
  | Ev_Timeout nat
  | Ev_Reader
  | Ev_Device response

datatype 's outcome = Blocked | Undefined | Next 's

abbreviation set_caller :: "nat \<Rightarrow> caller_pc \<Rightarrow> 'fs csys \<Rightarrow> 'fs csys" where
  "set_caller i pc s \<equiv> s\<lparr>c_callers := (c_callers s)[i := pc]\<rparr>"

definition caller_step :: "pb_api \<Rightarrow> nat \<Rightarrow> bool \<Rightarrow> 'fs csys \<Rightarrow> 'fs csys outcome" where
  "caller_step pb i want s =
     (let fb = c_fb s in
      case c_callers s ! i of
        Call_Idle \<Rightarrow> Next (set_caller i Call_Lock s)
      | Call_Lock \<Rightarrow>
          if cmd_mutex fb then Blocked
          else Next (set_caller i Call_Advance (s\<lparr>c_fb := fb\<lparr>cmd_mutex := True\<rparr>\<rparr>))
      | Call_Advance \<Rightarrow>
          (case command_advance fb of
             None \<Rightarrow> Undefined
           | Some fb' \<Rightarrow> Next (set_caller i Call_Write (s\<lparr>c_fb := fb'\<rparr>)))
      | Call_Write \<Rightarrow>
          Next (set_caller i (Call_Wait (c_next s))
            (s\<lparr>c_sent := c_sent s @ [(c_next s, c_str (cmd_context fb))], c_next := Suc (c_next s)\<rparr>))
      | Call_Wait k \<Rightarrow>
          if 0 < cmd_sem fb
          then Next (set_caller i (Call_Take k) (s\<lparr>c_fb := fb\<lparr>cmd_sem := cmd_sem fb - 1\<rparr>\<rparr>))
          else Blocked
      | Call_Take k \<Rightarrow> Next (set_caller i (Call_Clear k (cmd_response fb)) s)
      | Call_Clear k res \<Rightarrow>
          Next (set_caller i (Call_Check k res) (s\<lparr>c_fb := fb\<lparr>cmd_response := NULL\<rparr>\<rparr>))
      | Call_Check k res \<Rightarrow>
          (case command_check pb want res fb of
             None \<Rightarrow> Undefined
           | Some (err, r, fb') \<Rightarrow>
               Next (set_caller i (Call_Unlock err r) (s\<lparr>c_fb := fb',
                 c_log := c_log s @ [(k, if res = NULL then None else Some (c_tag s res), err)]\<rparr>)))
      | Call_Unlock err r \<Rightarrow>
          Next (set_caller i (Call_Returned err r) (s\<lparr>c_fb := fb\<lparr>cmd_mutex := False\<rparr>\<rparr>))
      | Call_Returned err r \<Rightarrow> Next (set_caller i Call_Lock s))"

definition reader_step :: "'fs csys \<Rightarrow> 'fs csys outcome" where
  "reader_step s =
     (let fb = c_fb s in
      case c_reader s of
        Reader_Read \<Rightarrow>
          (case c_wire s of
             [] \<Rightarrow> Blocked
           | (k, r) # rest \<Rightarrow>
               (case malloc (OResponse r) (fb_heap fb) of (p, m) \<Rightarrow>
                let s = s\<lparr>c_wire := rest, c_fb := fb\<lparr>fb_heap := m\<rparr>\<rparr> in
                if p = NULL then Next s
                else Next (s\<lparr>c_reader := Reader_Test p, c_tag := (c_tag s)(p := k)\<rparr>)))
      | Reader_Test p \<Rightarrow>
          Next (s\<lparr>c_reader := (if cmd_response fb \<noteq> NULL then Reader_Free p else Reader_Set p)\<rparr>)
      | Reader_Free p \<Rightarrow>
          (case response__free_unpacked (cmd_response fb) (fb_heap fb) of
             None \<Rightarrow> Undefined
           | Some m \<Rightarrow> Next (s\<lparr>c_reader := Reader_Set p, c_fb := fb\<lparr>fb_heap := m\<rparr>\<rparr>))
      | Reader_Set p \<Rightarrow> Next (s\<lparr>c_reader := Reader_Post p, c_fb := fb\<lparr>cmd_response := p\<rparr>\<rparr>)
      | Reader_Post p \<Rightarrow>
          if cmd_sem fb < SEM_VALUE_MAX
          then Next (s\<lparr>c_reader := Reader_Read, c_fb := fb\<lparr>cmd_sem := sem_post (cmd_sem fb)\<rparr>\<rparr>)
          else (case free p (fb_heap fb) of
             None \<Rightarrow> Undefined
           | Some m \<Rightarrow> Next (s\<lparr>c_reader := Reader_Exited, c_fb := fb\<lparr>fb_heap := m\<rparr>\<rparr>))
      | Reader_Exited \<Rightarrow> Blocked)"

text \<open>An honest device answers the commands in order, each once and with its context.\<close>

definition honest :: "pb_api \<Rightarrow> bytes \<Rightarrow> response \<Rightarrow> bool" where
  "honest pb ctx r \<longleftrightarrow>
     res_context r = Some ctx \<and> response_wf pb r \<and> type_case (res_type r) \<noteq> TYPE_STREAM"

text \<open>The thread waits for its response.\<close>

definition waiting :: "caller_pc \<Rightarrow> bool" where
  "waiting pc \<longleftrightarrow> (case pc of Call_Wait k \<Rightarrow> True | _ \<Rightarrow> False)"

text \<open>\<open>sem_timedwait\<close> may time out whenever the semaphore is zero: any amount of time may have passed.\<close>

fun conc_step :: "pb_api \<Rightarrow> event \<Rightarrow> 'fs csys \<Rightarrow> 'fs csys outcome" where
  "conc_step pb (Ev_Caller i want) s =
     (if i < length (c_callers s) then caller_step pb i want s else Blocked)"
| "conc_step pb (Ev_Write_Error i err) s =
     (if i < length (c_callers s) \<and> c_callers s ! i = Call_Write \<and> err \<noteq> IO4E_OK
      then Next (set_caller i (Call_Unlock err NULL) s) else Blocked)"
| "conc_step pb (Ev_Timeout i) s =
     (if i < length (c_callers s) \<and> waiting (c_callers s ! i) \<and> cmd_sem (c_fb s) = 0
      then Next (set_caller i (Call_Unlock IO4E_ERR_TIMEOUT NULL) (s\<lparr>c_timeouts := Suc (c_timeouts s)\<rparr>))
      else Blocked)"
| "conc_step pb Ev_Reader s = reader_step s"
| "conc_step pb (Ev_Device r) s =
     (case c_sent s of
        [] \<Rightarrow> Blocked
      | (k, ctx) # rest \<Rightarrow>
          if honest pb ctx r then Next (s\<lparr>c_sent := rest, c_wire := c_wire s @ [(k, r)]\<rparr>) else Blocked)"

text \<open>A schedule; it ends where a statement is blocked or undefined.\<close>

fun conc_run :: "pb_api \<Rightarrow> event list \<Rightarrow> 'fs csys \<Rightarrow> 'fs csys outcome" where
  "conc_run pb [] s = Next s"
| "conc_run pb (e # es) s =
     (case conc_step pb e s of Next s' \<Rightarrow> conc_run pb es s' | Blocked \<Rightarrow> Blocked | Undefined \<Rightarrow> Undefined)"

text \<open>A new client with \<open>n\<close> threads that use it.\<close>

definition conc_init :: "nat \<Rightarrow> (unit, 'fs) fbsys \<Rightarrow> 'fs csys" where
  "conc_init n fb = \<lparr>c_fb = fb, c_callers = replicate n Call_Idle, c_reader = Reader_Read, c_sent = [],
     c_wire = [], c_next = 0, c_tag = (\<lambda>_. 0), c_log = [], c_timeouts = 0\<rparr>"

definition new_fb :: "(unit, 'fs) fbsys \<Rightarrow> bool" where
  "new_fb fb \<longleftrightarrow> mem_wf (fb_heap fb) \<and> cmd_context fb = [65, 0] \<and> \<not> cmd_mutex fb \<and>
     cmd_response fb = NULL \<and> cmd_sem fb = 0"


section \<open>Invariant\<close>

text \<open>The threads inside the mutex, and the statement of the one that is (\<open>Call_Idle\<close> if none is).\<close>

definition critical :: "caller_pc \<Rightarrow> bool" where
  "critical pc \<longleftrightarrow>
     (case pc of Call_Idle \<Rightarrow> False | Call_Lock \<Rightarrow> False | Call_Returned e r \<Rightarrow> False | _ \<Rightarrow> True)"

definition phase :: "caller_pc list \<Rightarrow> caller_pc" where
  "phase pcs = (case filter critical pcs of [] \<Rightarrow> Call_Idle | pc # _ \<Rightarrow> pc)"

lemma critical_simps [simp]:
  "\<not> critical Call_Idle" "\<not> critical Call_Lock" "\<not> critical (Call_Returned e r)"
  "critical Call_Advance" "critical Call_Write" "critical (Call_Wait k)" "critical (Call_Take k)"
  "critical (Call_Clear k p)" "critical (Call_Check k p)" "critical (Call_Unlock e r)"
  by (simp_all add: critical_def)

lemma waiting_iff: "waiting pc \<longleftrightarrow> (\<exists>k. pc = Call_Wait k)"
  by (simp add: waiting_def split: caller_pc.splits)

lemma filter_update_unique:
  "i < length xs \<Longrightarrow> length (filter P xs) \<le> 1 \<Longrightarrow> P (xs ! i) \<Longrightarrow>
     filter P xs = [xs ! i] \<and> filter P (xs[i := x]) = (if P x then [x] else [])"
proof (induction xs arbitrary: i)
  case (Cons a xs)
  show ?case
  proof (cases i)
    case 0
    with Cons.prems show ?thesis by simp
  next
    case (Suc j)
    with Cons.prems have "filter P xs \<noteq> []" by (auto simp: filter_empty_conv)
    with Cons.prems(2) have "\<not> P a" by (cases "filter P xs") auto
    with Suc Cons show ?thesis by simp
  qed
qed simp

lemma phase_critical:
  assumes "i < length pcs" "cnt critical pcs \<le> 1" "critical (pcs ! i)"
  shows "phase pcs = pcs ! i" "phase (pcs[i := pc]) = (if critical pc then pc else Call_Idle)"
    "cnt critical (pcs[i := pc]) = (if critical pc then 1 else 0)"
  using filter_update_unique [of i pcs critical pc] assms by (auto simp: phase_def cnt_def)

lemma phase_enter:
  assumes "i < length pcs" "cnt critical pcs = 0" "critical pc"
  shows "phase (pcs[i := pc]) = pc" "cnt critical (pcs[i := pc]) = 1" "phase pcs = Call_Idle"
proof -
  have none: "\<not> critical (pcs ! i)" using assms(1,2) cnt_pos [of i pcs critical] by auto
  then show one: "cnt critical (pcs[i := pc]) = 1"
    using cnt_update [OF assms(1), of critical pc] assms(2,3) by simp
  show "phase pcs = Call_Idle" using assms(2) by (simp add: phase_def cnt_def)
  have "critical (pcs[i := pc] ! i)" using assms(1,3) by simp
  with phase_critical(1) [of i "pcs[i := pc]"] one assms(1) show "phase (pcs[i := pc]) = pc" by simp
qed

lemma phase_outside:
  assumes "i < length pcs" "\<not> critical (pcs ! i)" "\<not> critical pc"
  shows "phase (pcs[i := pc]) = phase pcs" "cnt critical (pcs[i := pc]) = cnt critical pcs"
proof -
  have "filter critical (pcs[i := pc]) = filter critical pcs"
    using assms
  proof (induction pcs arbitrary: i)
    case (Cons a pcs)
    then show ?case by (cases i) simp_all
  qed simp
  then show "phase (pcs[i := pc]) = phase pcs" "cnt critical (pcs[i := pc]) = cnt critical pcs"
    by (simp_all add: phase_def cnt_def)
qed

text \<open>A response in memory that answers the current command, number \<open>k\<close>.\<close>

definition answers :: "pb_api \<Rightarrow> 'fs csys \<Rightarrow> nat \<Rightarrow> ptr \<Rightarrow> bool" where
  "answers pb s k p \<longleftrightarrow>
     (\<exists>r. m_store (fb_heap (c_fb s)) p = Some (OResponse r) \<and>
          honest pb (c_str (cmd_context (c_fb s))) r) \<and> c_tag s p = k"

definition in_hand :: "reader_pc \<Rightarrow> nat" where
  "in_hand rd = (case rd of Reader_Read \<Rightarrow> 0 | Reader_Exited \<Rightarrow> 0 | _ \<Rightarrow> 1)"

lemma in_hand_simps [simp]:
  "in_hand Reader_Read = 0" "in_hand Reader_Exited = 0" "in_hand (Reader_Test p) = 1"
  "in_hand (Reader_Free p) = 1" "in_hand (Reader_Set p) = 1" "in_hand (Reader_Post p) = 1"
  by (simp_all add: in_hand_def)

text \<open>The commands and responses on their way.\<close>

definition tokens :: "'fs csys \<Rightarrow> nat" where
  "tokens s = length (c_sent s) + length (c_wire s) + in_hand (c_reader s) + cmd_sem (c_fb s)"

definition reader_ok :: "pb_api \<Rightarrow> 'fs csys \<Rightarrow> nat \<Rightarrow> bool" where
  "reader_ok pb s k \<longleftrightarrow>
     (case c_reader s of
        Reader_Read \<Rightarrow> (if cmd_sem (c_fb s) = 0 then cmd_response (c_fb s) = NULL
                        else answers pb s k (cmd_response (c_fb s)))
      | Reader_Test p \<Rightarrow> cmd_response (c_fb s) = NULL \<and> answers pb s k p
      | Reader_Set p \<Rightarrow> cmd_response (c_fb s) = NULL \<and> answers pb s k p
      | Reader_Post p \<Rightarrow> cmd_response (c_fb s) = p \<and> answers pb s k p
      | Reader_Free p \<Rightarrow> False
      | Reader_Exited \<Rightarrow> False)"

text \<open>What holds while the thread in the mutex stands at \<open>pc\<close>.\<close>

definition phase_ok :: "pb_api \<Rightarrow> 'fs csys \<Rightarrow> caller_pc \<Rightarrow> bool" where
  "phase_ok pb s pc \<longleftrightarrow>
     (case pc of
        Call_Wait k \<Rightarrow> k + 1 = c_next s \<and> tokens s \<le> 1 \<and> reader_ok pb s k \<and>
          (\<forall>(k', ctx) \<in> set (c_sent s). k' = k \<and> ctx = c_str (cmd_context (c_fb s))) \<and>
          (\<forall>(k', r) \<in> set (c_wire s). k' = k \<and> honest pb (c_str (cmd_context (c_fb s))) r)
      | _ \<Rightarrow> tokens s = 0 \<and> c_reader s = Reader_Read \<and>
          (case pc of
             Call_Take k \<Rightarrow> answers pb s k (cmd_response (c_fb s))
           | Call_Clear k res \<Rightarrow> res = cmd_response (c_fb s) \<and> answers pb s k res
           | Call_Check k res \<Rightarrow> cmd_response (c_fb s) = NULL \<and> answers pb s k res
           | _ \<Rightarrow> cmd_response (c_fb s) = NULL))"

definition conc_inv :: "pb_api \<Rightarrow> 'fs csys \<Rightarrow> bool" where
  "conc_inv pb s \<longleftrightarrow>
     mem_wf (fb_heap (c_fb s)) \<and> (\<exists>c. cmd_context (c_fb s) = [c, 0]) \<and>
     cnt critical (c_callers s) = (if cmd_mutex (c_fb s) then 1 else 0) \<and>
     phase_ok pb s (phase (c_callers s)) \<and>
     (\<forall>(k, t, err) \<in> set (c_log s). t = Some k \<and> err \<noteq> IO4E_FAIL)"


text \<open>None of this looks at the other threads.\<close>

lemma callers_irrelevant [simp]:
  "answers pb (s\<lparr>c_callers := x\<rparr>) k p = answers pb s k p"
  "tokens (s\<lparr>c_callers := x\<rparr>) = tokens s"
  "reader_ok pb (s\<lparr>c_callers := x\<rparr>) k = reader_ok pb s k"
  "phase_ok pb (s\<lparr>c_callers := x\<rparr>) pc = phase_ok pb s pc"
proof -
  show a: "answers pb (s\<lparr>c_callers := x\<rparr>) k p = answers pb s k p" for k p
    by (simp add: answers_def)
  show b: "tokens (s\<lparr>c_callers := x\<rparr>) = tokens s" by (simp add: tokens_def)
  show c: "reader_ok pb (s\<lparr>c_callers := x\<rparr>) k = reader_ok pb s k" for k
    by (cases "c_reader s") (simp_all add: reader_ok_def a)
  show "phase_ok pb (s\<lparr>c_callers := x\<rparr>) pc = phase_ok pb s pc"
    by (cases pc) (simp_all add: phase_ok_def a b c)
qed

lemma map_fb_error_not_FAIL: "map_fb_error st \<noteq> IO4E_FAIL"
  by (cases st) (simp_all add: err_defs fb_err_defs)

lemma answers_live: "mem_wf (fb_heap (c_fb s)) \<Longrightarrow> answers pb s k p \<Longrightarrow> p \<noteq> NULL"
  by (auto simp: answers_def dest: mem_wf_live_not_NULL)

lemma init_inv: "new_fb fb \<Longrightarrow> conc_inv pb (conc_init n fb)"
  by (simp add: conc_inv_def conc_init_def new_fb_def cnt_replicate_0 phase_def phase_ok_def tokens_def
      in_hand_def del: c_str_simps)

text \<open>The check of the response: it is the answer to the command, so nothing goes wrong.\<close>

lemma check_keeps:
  assumes inv: "conc_inv pb s" and i: "i < length (c_callers s)" "c_callers s ! i = Call_Check k res"
  obtains err r s' where "caller_step pb i want s = Next s'" "conc_inv pb s'"
    "c_log s' = c_log s @ [(k, Some k, err)]" "err \<noteq> IO4E_FAIL" "c_timeouts s' = c_timeouts s"
proof -
  let ?fb = "c_fb s"
  from inv obtain c where I: "mem_wf (fb_heap ?fb)" "cmd_context ?fb = [c, 0]"
    "cnt critical (c_callers s) = (if cmd_mutex ?fb then 1 else 0)" "phase_ok pb s (phase (c_callers s))"
    "\<forall>(k, t, err) \<in> set (c_log s). t = Some k \<and> err \<noteq> IO4E_FAIL"
    unfolding conc_inv_def by blast
  have le: "cnt critical (c_callers s) \<le> 1" using I(3) by simp
  have crit: "critical (c_callers s ! i)" using i(2) by simp
  have locked: "cmd_mutex ?fb" using I(3) cnt_pos [OF i(1), of critical] crit by (simp split: if_splits)
  note ph = phase_critical [OF i(1) le crit]
  from I(4) ph(1) i(2) have P: "tokens s = 0" "c_reader s = Reader_Read" "cmd_response ?fb = NULL"
    "answers pb s k res" by (simp_all add: phase_ok_def)
  from P(4) obtain r where r: "m_store (fb_heap ?fb) res = Some (OResponse r)"
    "honest pb (c_str (cmd_context ?fb)) r" "c_tag s res = k" by (auto simp: answers_def)
  have nn: "res \<noteq> NULL" using I(1) P(4) by (rule answers_live)
  have ver: "command_verdict (cmd_context ?fb) r = map_fb_error (res_status r)"
    "strcmp_eq (the (res_context r)) (cmd_context ?fb)" "res_context r \<noteq> None" "response_wf pb r"
    "type_case (res_type r) \<noteq> TYPE_STREAM"
    using r(2) by (simp_all add: honest_def command_verdict_def strcmp_eq_def)
  note chk = command_check_response [OF I(1) r(1) ver(5) I(2), of pb want]
  let ?err = "map_fb_error (res_status r)"
  let ?keep = "?err = IO4E_OK \<and> want"
  let ?fb' = "?fb\<lparr>cmd_context := context_after (cmd_context ?fb) r,
    fb_heap := (if ?keep then fb_heap ?fb
                else (fb_heap ?fb)\<lparr>m_store := (m_store (fb_heap ?fb))(res := None)\<rparr>)\<rparr>"
  let ?r = "if ?keep then res else NULL"
  let ?s' = "set_caller i (Call_Unlock ?err ?r) (s\<lparr>c_fb := ?fb', c_log := c_log s @ [(k, Some k, ?err)]\<rparr>)"
  have step: "caller_step pb i want s = Next ?s'"
    using i(2) chk ver nn r(3) by (simp add: caller_step_def Let_def)
  have "mem_wf (fb_heap ?fb')" using I(1) mem_wf_remove [OF I(1), of res] by simp
  moreover have "\<exists>c. cmd_context ?fb' = [c, 0]" using I(2) by (simp add: context_after_def)
  moreover have "phase_ok pb ?s' (Call_Unlock ?err ?r)"
    using P(1-3) by (simp add: phase_ok_def tokens_def)
  ultimately have "conc_inv pb ?s'"
    using I(3,5) ph i(2) locked map_fb_error_not_FAIL [of "res_status r"] by (auto simp: conc_inv_def)
  with step show ?thesis by (intro that [of ?s' ?err]) (simp_all add: map_fb_error_not_FAIL)
qed

lemma caller_keeps:
  assumes inv: "conc_inv pb s" and i: "i < length (c_callers s)"
  shows "caller_step pb i want s = Blocked \<or>
    (\<exists>s'. caller_step pb i want s = Next s' \<and> conc_inv pb s' \<and> c_timeouts s' = c_timeouts s)"
proof -
  let ?fb = "c_fb s"
  from inv obtain c where I: "mem_wf (fb_heap ?fb)" "cmd_context ?fb = [c, 0]"
    "cnt critical (c_callers s) = (if cmd_mutex ?fb then 1 else 0)" "phase_ok pb s (phase (c_callers s))"
    "\<forall>(k, t, err) \<in> set (c_log s). t = Some k \<and> err \<noteq> IO4E_FAIL"
    unfolding conc_inv_def by blast
  have le: "cnt critical (c_callers s) \<le> 1" using I(3) by simp
  have locked: "critical (c_callers s ! i) \<Longrightarrow> cmd_mutex ?fb"
    using I(3) cnt_pos [OF i, of critical] by (simp split: if_splits)
  note crit = phase_critical [OF i le] locked and out = phase_outside [OF i]
  show ?thesis
  proof (cases "c_callers s ! i")
    case Call_Idle
    with I out [of Call_Lock] show ?thesis
      by (simp add: caller_step_def conc_inv_def)
  next
    case Call_Lock
    show ?thesis
    proof (cases "cmd_mutex ?fb")
      case True
      with Call_Lock show ?thesis by (simp add: caller_step_def)
    next
      case False
      with I(3) have "cnt critical (c_callers s) = 0" by simp
      from phase_enter [OF i this, of Call_Advance] Call_Lock False I show ?thesis
        by (simp add: caller_step_def conc_inv_def phase_ok_def tokens_def)
    qed
  next
    case Call_Advance
    with I crit show ?thesis
      by (simp add: caller_step_def command_advance_def array_get_def array_put_def conc_inv_def
          phase_ok_def tokens_def)
  next
    case Call_Write
    with I crit show ?thesis
      by (simp add: caller_step_def conc_inv_def phase_ok_def tokens_def reader_ok_def in_hand_def
          del: c_str_simps)
  next
    case (Call_Wait k)
    show ?thesis
    proof (cases "cmd_sem ?fb = 0")
      case True
      with Call_Wait show ?thesis by (simp add: caller_step_def)
    next
      case False
      from I(4) crit(1) Call_Wait have P: "k + 1 = c_next s" "tokens s \<le> 1" "reader_ok pb s k"
        by (simp_all add: phase_ok_def)
      from P(2) False have "length (c_sent s) = 0 \<and> length (c_wire s) = 0 \<and> cmd_sem ?fb = 1 \<and>
          in_hand (c_reader s) = 0" unfolding tokens_def by linarith
      then have T: "c_sent s = []" "c_wire s = []" "cmd_sem ?fb = 1" "in_hand (c_reader s) = 0"
        by simp_all
      with P(3) have R: "c_reader s = Reader_Read" "answers pb s k (cmd_response ?fb)"
        by (cases "c_reader s"; simp add: reader_ok_def)+
      from R(2) have "answers pb (s\<lparr>c_fb := ?fb\<lparr>cmd_sem := 0\<rparr>\<rparr>) k (cmd_response ?fb)"
        by (simp add: answers_def)
      with I crit Call_Wait T R(1) show ?thesis
        by (simp add: caller_step_def conc_inv_def phase_ok_def tokens_def)
    qed
  next
    case (Call_Take k)
    with I crit show ?thesis
      by (auto simp: caller_step_def conc_inv_def phase_ok_def tokens_def answers_def simp del: c_str_simps)
  next
    case (Call_Clear k res)
    with I crit show ?thesis
      by (auto simp: caller_step_def conc_inv_def phase_ok_def tokens_def answers_def simp del: c_str_simps)
  next
    case (Call_Check k res)
    with check_keeps [OF inv i this, of want] show ?thesis by metis
  next
    case (Call_Unlock err r)
    with I crit show ?thesis
      by (simp add: caller_step_def conc_inv_def phase_ok_def tokens_def)
  next
    case (Call_Returned err r)
    with I out [of Call_Lock] show ?thesis
      by (simp add: caller_step_def conc_inv_def)
  qed
qed


lemma reader_keeps:
  assumes inv: "conc_inv pb s"
  shows "reader_step s = Blocked \<or>
    (\<exists>s'. reader_step s = Next s' \<and> conc_inv pb s' \<and> c_timeouts s' = c_timeouts s)"
proof (cases "phase (c_callers s)")
  case (Call_Wait k)
  let ?fb = "c_fb s"
  from inv Call_Wait obtain c where I: "mem_wf (fb_heap ?fb)" "cmd_context ?fb = [c, 0]"
    "cnt critical (c_callers s) = (if cmd_mutex ?fb then 1 else 0)"
    "\<forall>(k, t, err) \<in> set (c_log s). t = Some k \<and> err \<noteq> IO4E_FAIL"
    and P: "k + 1 = c_next s" "tokens s \<le> 1" "reader_ok pb s k"
      "\<forall>(k', ctx) \<in> set (c_sent s). k' = k \<and> ctx = c_str (cmd_context ?fb)"
      "\<forall>(k', r) \<in> set (c_wire s). k' = k \<and> honest pb (c_str (cmd_context ?fb)) r"
    unfolding conc_inv_def phase_ok_def by auto
  have keeps: "conc_inv pb s'"
    if "c_callers s' = c_callers s" "c_log s' = c_log s" "c_sent s' = c_sent s" "c_next s' = c_next s"
      "mem_wf (fb_heap (c_fb s'))" "cmd_context (c_fb s') = cmd_context ?fb"
      "cmd_mutex (c_fb s') = cmd_mutex ?fb" "tokens s' \<le> 1" "set (c_wire s') \<subseteq> set (c_wire s)"
      "reader_ok pb s' k" for s'
  proof -
    have "\<forall>(k', r) \<in> set (c_wire s'). k' = k \<and> honest pb (c_str (cmd_context ?fb)) r"
      using P(5) that(9) by blast
    with I P Call_Wait that show ?thesis
      by (simp add: conc_inv_def phase_ok_def del: c_str_simps)
  qed
  show ?thesis
  proof (cases "c_reader s")
    case Reader_Read
    show ?thesis
    proof (cases "c_wire s")
      case Nil
      with Reader_Read show ?thesis by (simp add: reader_step_def)
    next
      case (Cons kr rest)
      obtain k' r where kr: "kr = (k', r)" by fastforce
      with Cons P(5) have r: "k' = k" "honest pb (c_str (cmd_context ?fb)) r" by simp_all
      from P(2) Cons have T: "length (c_sent s) = 0 \<and> length rest = 0 \<and> cmd_sem ?fb = 0"
        by (simp add: tokens_def)
      with P(3) Reader_Read have nul: "cmd_response ?fb = NULL" by (simp add: reader_ok_def)
      obtain p m where al: "malloc (OResponse r) (fb_heap ?fb) = (p, m)" by fastforce
      note wf = malloc_wf [OF I(1) al]
      from I(1) al show ?thesis
      proof (cases rule: malloc_cases)
        case fail
        let ?s = "s\<lparr>c_wire := rest, c_fb := ?fb\<lparr>fb_heap := m\<rparr>\<rparr>"
        have "reader_step s = Next ?s" using Reader_Read Cons kr al fail by (simp add: reader_step_def)
        moreover have "conc_inv pb ?s"
          using T nul wf Cons Reader_Read by (intro keeps) (auto simp: tokens_def reader_ok_def)
        ultimately show ?thesis by simp
      next
        case ok
        let ?s = "s\<lparr>c_wire := rest, c_fb := ?fb\<lparr>fb_heap := m\<rparr>, c_reader := Reader_Test p,
          c_tag := (c_tag s)(p := k')\<rparr>"
        have "reader_step s = Next ?s"
          using Reader_Read Cons kr al ok by (simp add: reader_step_def Let_def)
        moreover have "conc_inv pb ?s"
          using T nul wf Cons ok r
          by (intro keeps) (auto simp: tokens_def reader_ok_def answers_def simp del: c_str_simps)
        ultimately show ?thesis by simp
      qed
    qed
  next
    case (Reader_Test p)
    let ?s = "s\<lparr>c_reader := Reader_Set p\<rparr>"
    have "reader_step s = Next ?s" using Reader_Test P(3) by (simp add: reader_step_def reader_ok_def)
    moreover have "conc_inv pb ?s"
      using Reader_Test P(2,3) I(1)
      by (intro keeps) (auto simp: tokens_def reader_ok_def answers_def)
    ultimately show ?thesis by simp
  next
    case (Reader_Set p)
    let ?s = "s\<lparr>c_reader := Reader_Post p, c_fb := ?fb\<lparr>cmd_response := p\<rparr>\<rparr>"
    have "reader_step s = Next ?s" using Reader_Set by (simp add: reader_step_def)
    moreover have "conc_inv pb ?s"
      using Reader_Set P(2,3) I(1)
      by (intro keeps) (auto simp: tokens_def reader_ok_def answers_def)
    ultimately show ?thesis by simp
  next
    case (Reader_Post p)
    from P(2) Reader_Post have sem: "cmd_sem ?fb = 0" by (simp add: tokens_def)
    let ?s = "s\<lparr>c_reader := Reader_Read, c_fb := ?fb\<lparr>cmd_sem := sem_post (cmd_sem ?fb)\<rparr>\<rparr>"
    have "reader_step s = Next ?s" using Reader_Post sem by (simp add: reader_step_def SEM_VALUE_MAX_def)
    moreover have "conc_inv pb ?s"
      using Reader_Post P(2,3) I(1) sem
      by (intro keeps) (auto simp: tokens_def reader_ok_def answers_def sem_post_def SEM_VALUE_MAX_def)
    ultimately show ?thesis by simp
  qed (use P(3) in \<open>simp_all add: reader_ok_def\<close>)
qed (use inv in \<open>auto simp: conc_inv_def phase_ok_def tokens_def reader_step_def\<close>)


lemma device_keeps:
  assumes inv: "conc_inv pb s" and step: "conc_step pb (Ev_Device r) s = Next s'"
  shows "conc_inv pb s' \<and> c_timeouts s' = c_timeouts s"
proof -
  let ?fb = "c_fb s"
  from step obtain k ctx rest where e: "c_sent s = (k, ctx) # rest" "honest pb ctx r"
    "s' = s\<lparr>c_sent := rest, c_wire := c_wire s @ [(k, r)]\<rparr>"
    by (auto split: list.splits if_splits)
  show ?thesis
  proof (cases "phase (c_callers s)")
    case (Call_Wait k')
    with inv e(1) have P: "k = k'" "ctx = c_str (cmd_context ?fb)" "reader_ok pb s k'"
      by (simp_all add: conc_inv_def phase_ok_def del: c_str_simps)
    have t: "tokens s' = tokens s" using e(1,3) by (simp add: tokens_def)
    have "reader_ok pb s' k'"
      using P(3) e(3) by (cases "c_reader s") (simp_all add: reader_ok_def answers_def split: if_splits)
    with inv e P Call_Wait t show ?thesis
      by (auto simp: conc_inv_def phase_ok_def simp del: c_str_simps)
  qed (use inv e(1) in \<open>simp_all add: conc_inv_def phase_ok_def tokens_def\<close>)
qed

lemma write_error_keeps:
  assumes inv: "conc_inv pb s" and step: "conc_step pb (Ev_Write_Error i err) s = Next s'"
  shows "conc_inv pb s' \<and> c_timeouts s' = c_timeouts s"
proof -
  from step have e: "i < length (c_callers s)" "c_callers s ! i = Call_Write"
    "s' = set_caller i (Call_Unlock err NULL) s" by (auto split: if_splits)
  have le: "cnt critical (c_callers s) \<le> 1" using inv by (simp add: conc_inv_def)
  have "critical (c_callers s ! i)" using e(2) by simp
  note ph = phase_critical [OF e(1) le this]
  have "cmd_mutex (c_fb s)"
    using inv cnt_pos [OF e(1), of critical] e(2) by (simp add: conc_inv_def split: if_splits)
  with inv ph e show ?thesis by (simp add: conc_inv_def phase_ok_def)
qed

text \<open>Steps never take back a timeout, and without one the invariant is kept and nothing is undefined.\<close>

lemma timeouts_mono: "conc_step pb e s = Next s' \<Longrightarrow> c_timeouts s \<le> c_timeouts s'"
  by (cases e)
     (auto simp: caller_step_def reader_step_def Let_def split: caller_pc.splits reader_pc.splits
       option.splits list.splits prod.splits if_splits)

lemma conc_step_defined:
  assumes "conc_inv pb s"
  shows "conc_step pb e s \<noteq> Undefined"
proof (cases e)
  case (Ev_Caller i want)
  with caller_keeps [OF assms, of i want] show ?thesis by auto
next
  case Ev_Reader
  with reader_keeps [OF assms] show ?thesis by auto
qed (auto split: list.splits)

lemma conc_step_keeps:
  assumes inv: "conc_inv pb s" and step: "conc_step pb e s = Next s'" and t: "c_timeouts s' = c_timeouts s"
  shows "conc_inv pb s'"
proof (cases e)
  case (Ev_Caller i want)
  with caller_keeps [OF inv, of i want] step show ?thesis by (auto split: if_splits)
next
  case Ev_Reader
  with reader_keeps [OF inv] step show ?thesis by auto
next
  case (Ev_Device r)
  with device_keeps [OF inv] step show ?thesis by blast
next
  case (Ev_Write_Error i err)
  with write_error_keeps [OF inv] step show ?thesis by blast
next
  case (Ev_Timeout i)
  with step t show ?thesis by (auto split: if_splits)
qed

lemma run_timeouts: "conc_run pb es s = Next s' \<Longrightarrow> c_timeouts s \<le> c_timeouts s'"
proof (induction es arbitrary: s)
  case (Cons e es)
  then obtain s1 where "conc_step pb e s = Next s1" "conc_run pb es s1 = Next s'"
    by (auto split: outcome.splits)
  with Cons.IH timeouts_mono show ?case by (meson le_trans)
qed simp

lemma run_keeps:
  "conc_inv pb s \<Longrightarrow> conc_run pb es s = Next s' \<Longrightarrow> c_timeouts s' = c_timeouts s \<Longrightarrow> conc_inv pb s'"
proof (induction es arbitrary: s)
  case (Cons e es)
  from Cons.prems(2) obtain s1 where s1: "conc_step pb e s = Next s1" "conc_run pb es s1 = Next s'"
    by (auto split: outcome.splits)
  with timeouts_mono [OF s1(1)] run_timeouts [OF s1(2)] Cons.prems(3)
  have "c_timeouts s1 = c_timeouts s" "c_timeouts s' = c_timeouts s1" by simp_all
  with Cons.IH conc_step_keeps [OF Cons.prems(1) s1(1)] s1(2) show ?case by blast
qed simp


section \<open>Properties\<close>

definition demo_fb :: "(unit, unit) fbsys" where
  "demo_fb = \<lparr>fb_transport = (), cmd_context = [65, 0], cmd_timeout = 5, cmd_mutex = False,
     cmd_response = NULL, cmd_sem = 0, fb_streamq = \<lparr>q_msg = [NULL], q_capacity = 1,
       q_write_idx = 0, q_read_idx = 0, q_nentries = 0, q_write_sem = 1, q_read_sem = 0,
       q_locked = False\<rparr>,
     fb_heap = \<lparr>m_store = Map.empty, m_next = 1, m_fail = []\<rparr>, fb_now = 0\<rparr>"

definition demo_conc_pb :: pb_api where
  "demo_conc_pb = \<lparr>pb_pack_command = \<lambda>_. [], pb_unpack_response = \<lambda>_. None, pb_n_status = 11\<rparr>"

abbreviation ok_response :: "byte \<Rightarrow> response" where
  "ok_response b \<equiv> \<lparr>res_context = Some [b], res_status = STATUS_OK, res_error = None,
     res_type = RESPONSE_OTHER\<rparr>"

lemma demo_fb_new: "new_fb demo_fb"
  by (simp add: new_fb_def demo_fb_def mem_wf_def)

text \<open>C4 Concurrent commands: for any number of threads that call \<open>command\<close> on one client while the reader
  thread runs, under every schedule and with every honest device, as long as no command has timed
  out: no statement is undefined (no response is used after it is freed, freed twice or read through
  a null pointer), at most one thread is between lock and unlock, and every command that took a
  response took the one the device sent for it, never failing with a context mismatch.\<close>

theorem command_conc_safe:
  assumes "new_fb fb" "conc_run pb es (conc_init n fb) = Next s" "c_timeouts s = 0"
  shows "conc_step pb e s \<noteq> Undefined \<and> cnt critical (c_callers s) \<le> 1 \<and>
    (\<forall>(k, t, err) \<in> set (c_log s). t = Some k \<and> err \<noteq> IO4E_FAIL)"
proof -
  have "c_timeouts (conc_init n fb) = 0" by (simp add: conc_init_def)
  with run_keeps [OF init_inv [OF assms(1)] assms(2)] assms(3) have inv: "conc_inv pb s" by simp
  with conc_step_defined [OF inv] show ?thesis by (simp add: conc_inv_def)
qed


definition demo_schedule :: "event list" where
  "demo_schedule =
     [Ev_Caller 0 False, Ev_Caller 0 False, Ev_Caller 0 False, Ev_Caller 0 False,
      Ev_Device (ok_response 66), Ev_Reader, Ev_Reader, Ev_Reader, Ev_Reader,
      Ev_Caller 0 False, Ev_Caller 0 False, Ev_Caller 0 False, Ev_Caller 0 False]"

lemmas conc_eval =
  conc_init_def demo_fb_def caller_step_def reader_step_def waiting_def command_advance_def
  array_get_def array_put_def malloc_def honest_def response_wf_def command_check_def
  get_response_def deref_def strcmp_eq_def response__free_unpacked_def free_def sem_post_def NULL_def

lemma SEM_VALUE_MAX_pos: "0 < SEM_VALUE_MAX"
  by (simp add: SEM_VALUE_MAX_def)

theorem command_conc_safe_witness:
  "\<exists>s. conc_run demo_conc_pb demo_schedule (conc_init 2 demo_fb) = Next s \<and>
    c_log s = [(0, Some 0, IO4E_OK)] \<and> conc_step demo_conc_pb (Ev_Caller 0 False) s \<noteq> Undefined \<and>
    cnt critical (c_callers s) \<le> 1"
proof -
  have two: "replicate 2 Call_Idle = [Call_Idle, Call_Idle]" by (simp add: numeral_2_eq_2)
  have "\<exists>s. conc_run demo_conc_pb demo_schedule (conc_init 2 demo_fb) = Next s \<and>
      c_log s = [(0, Some 0, IO4E_OK)] \<and> c_timeouts s = 0"
    by (simp add: demo_schedule_def conc_eval SEM_VALUE_MAX_pos two)
  then obtain s where s: "conc_run demo_conc_pb demo_schedule (conc_init 2 demo_fb) = Next s"
    "c_log s = [(0, Some 0, IO4E_OK)]" "c_timeouts s = 0" by blast
  from command_conc_safe [OF demo_fb_new s(1,3)] s(1,2) show ?thesis by blast
qed

text \<open>C11 A late response is used after it is freed: a command times out, its response arrives, and the next
  command takes it (a token is there already) between \<open>res = h->cmd_response\<close> and
  \<open>h->cmd_response = NULL\<close>; if in that moment the reader thread handles the response to the second
  command, it sees the pointer still set and frees what the command is about to read. One thread, an
  honest device and one timeout are enough.\<close>

theorem command_conc_race:
  "\<exists>es s. conc_run pb es (conc_init 1 demo_fb) = Next s \<and> c_timeouts s = 1 \<and>
     conc_step pb (Ev_Caller 0 want) s = Undefined"
proof -
  let ?c = "Ev_Caller 0 False"
  let ?es = "[?c, ?c, ?c, ?c, Ev_Timeout 0, ?c, Ev_Device (ok_response 66), ?c, ?c, ?c, ?c,
    Ev_Reader, Ev_Reader, Ev_Reader, Ev_Reader, ?c, ?c, Ev_Device (ok_response 67),
    Ev_Reader, Ev_Reader, Ev_Reader, ?c]"
  have "\<exists>s. conc_run pb ?es (conc_init 1 demo_fb) = Next s \<and> c_timeouts s = 1 \<and>
      conc_step pb (Ev_Caller 0 want) s = Undefined"
    by (simp add: conc_eval SEM_VALUE_MAX_pos)
  then show ?thesis by blast
qed


lemma unit_transport [simp]: "fb\<lparr>fb_transport := u\<rparr> = fb" for fb :: "(unit, 'fs) fbsys" and u :: unit
  by (cases fb) simp

lemma send_is_run:
  fixes s :: "'fs csys"
  assumes "i < length (c_callers s)" "c_callers s ! i = Call_Lock"
    and "command_send methods pb cmd (c_fb s) = Some (IO4E_OK, fb1)"
  shows "\<exists>s1. conc_run pb [Ev_Caller i want, Ev_Caller i want, Ev_Caller i want] s = Next s1 \<and>
    c_fb s1 = fb1 \<and> c_callers s1 = (c_callers s)[i := Call_Wait (c_next s)] \<and>
    c_sent s1 = c_sent s @ [(c_next s, c_str (cmd_context fb1))]"
proof -
  from assms(3) obtain fb0 err h where a: "\<not> cmd_mutex (c_fb s)"
    "command_advance (c_fb s\<lparr>cmd_mutex := True\<rparr>) = Some fb0" "fb1 = fb0\<lparr>fb_transport := h\<rparr>"
    by (auto simp: command_send_def Let_def bind_eq_Some_conv split: if_splits)
  with assms(1,2) show ?thesis by (simp add: caller_step_def)
qed

lemma finish_is_run:
  fixes s :: "'fs csys"
  assumes "i < length (c_callers s)" "c_callers s ! i = Call_Wait k" "0 < cmd_sem (c_fb s)"
  shows "conc_run pb [Ev_Caller i want, Ev_Caller i want, Ev_Caller i want, Ev_Caller i want, Ev_Caller i want] s =
    (case command_finish pb want (c_fb s\<lparr>cmd_sem := cmd_sem (c_fb s) - 1\<rparr>) of
       None \<Rightarrow> Undefined
     | Some (err, r, fb) \<Rightarrow>
         Next (set_caller i (Call_Returned err r) (s\<lparr>c_fb := fb\<lparr>cmd_mutex := False\<rparr>,
           c_log := c_log s @ [(k, if cmd_response (c_fb s) = NULL then None
                                   else Some (c_tag s (cmd_response (c_fb s))), err)]\<rparr>)))"
  using assms by (simp add: caller_step_def command_finish_def Let_def split: option.split)

text \<open>The statements are the function: a thread that is not disturbed between lock and write, and again
  from the end of the wait to the unlock, does exactly what the sequential \<open>command\<close> does when the
  reader's work in between is its \<open>env\<close>, with the same result, response and client state, and is
  undefined exactly when \<open>command\<close> is.\<close>

theorem command_is_run:
  fixes s s2 :: "'fs csys"
  assumes "i < length (c_callers s)" "c_callers s ! i = Call_Lock"
    and send: "command_send methods pb cmd (c_fb s) = Some (IO4E_OK, fb1)"
    and env: "env fb1 = Some (c_fb s2)" "0 < cmd_sem (c_fb s2)"
    and "i < length (c_callers s2)" "c_callers s2 ! i = Call_Wait k"
  shows "(\<exists>s1. conc_run pb [Ev_Caller i want, Ev_Caller i want, Ev_Caller i want] s = Next s1 \<and>
      c_fb s1 = fb1 \<and> c_callers s1 ! i = Call_Wait (c_next s) \<and>
      c_sent s1 = c_sent s @ [(c_next s, c_str (cmd_context fb1))]) \<and>
    (case command methods pb env cmd want (c_fb s) of
       None \<Rightarrow> conc_run pb (replicate 5 (Ev_Caller i want)) s2 = Undefined
     | Some (err, r, fb') \<Rightarrow>
         \<exists>s3. conc_run pb (replicate 5 (Ev_Caller i want)) s2 = Next s3 \<and> c_fb s3 = fb' \<and>
           c_callers s3 ! i = Call_Returned err r)"
proof
  show "\<exists>s1. conc_run pb [Ev_Caller i want, Ev_Caller i want, Ev_Caller i want] s = Next s1 \<and>
      c_fb s1 = fb1 \<and> c_callers s1 ! i = Call_Wait (c_next s) \<and>
      c_sent s1 = c_sent s @ [(c_next s, c_str (cmd_context fb1))]"
    using send_is_run [OF assms(1,2) send, of want] assms(1) by fastforce
  let ?fb = "c_fb s2"
  have five: "replicate 5 x = [x, x, x, x, x]" for x :: event by (simp add: numeral_eq_Suc)
  have sem: "sem_timedwait (cmd_sem ?fb) d (fb_now ?fb) = (0, cmd_sem ?fb - 1, fb_now ?fb)" for d
    using env(2) by (simp add: sem_timedwait_def)
  have same: "?fb\<lparr>cmd_sem := x, fb_now := fb_now ?fb\<rparr> = ?fb\<lparr>cmd_sem := x\<rparr>" for x by (cases ?fb) simp
  have "command methods pb env cmd want (c_fb s)
      = map_option (\<lambda>(err, r, fb). (err, r, fb\<lparr>cmd_mutex := False\<rparr>))
          (command_finish pb want (?fb\<lparr>cmd_sem := cmd_sem ?fb - 1\<rparr>))"
    using send env(1) sem same
    by (simp add: command_def Let_def split_def map_conv_bind_option o_def)
  then show "case command methods pb env cmd want (c_fb s) of
       None \<Rightarrow> conc_run pb (replicate 5 (Ev_Caller i want)) s2 = Undefined
     | Some (err, r, fb') \<Rightarrow>
         \<exists>s3. conc_run pb (replicate 5 (Ev_Caller i want)) s2 = Next s3 \<and> c_fb s3 = fb' \<and>
           c_callers s3 ! i = Call_Returned err r"
    unfolding five finish_is_run [OF assms(6,7) env(2)]
    using assms(6) by (auto split: option.split)
qed

definition demo_unit_methods :: "(unit, unit) transport_t" where
  "demo_unit_methods = \<lparr>t_write_msg = \<lambda>h buf len. Some (IO4E_OK, h), t_read_msg = \<lambda>h t m. None,
     t_get_write_offset = \<lambda>h. 6, t_destroy = \<lambda>h n. (None, n)\<rparr>"

definition demo_locking :: "unit csys" where
  "demo_locking = (conc_init 1 demo_fb)\<lparr>c_callers := [Call_Lock]\<rparr>"

definition demo_waiting :: "unit csys" where
  "demo_waiting = (conc_init 1 (demo_fb\<lparr>cmd_mutex := True, cmd_context := [66, 0], cmd_sem := 1\<rparr>))
     \<lparr>c_callers := [Call_Wait 0]\<rparr>"

theorem command_is_run_witness:
  "\<exists>s3. conc_run demo_conc_pb (replicate 5 (Ev_Caller 0 True)) demo_waiting = Next s3 \<and>
     c_callers s3 ! 0 = Call_Returned IO4E_FAIL NULL"
proof -
  let ?cmd = "\<lparr>cmd_ctx = None, cmd_type = COMMAND_STREAM_CONTROL STREAM_CONTROL_STOP\<rparr>"
  let ?env = "\<lambda>_. Some (c_fb demo_waiting)"
  let ?fb1 = "demo_fb\<lparr>cmd_mutex := True, cmd_context := [66, 0]\<rparr>"
  have send: "command_send demo_unit_methods demo_conc_pb ?cmd (c_fb demo_locking) = Some (IO4E_OK, ?fb1)"
    by (simp add: command_send_def command_advance_def demo_locking_def conc_init_def demo_fb_def
        demo_unit_methods_def array_get_def array_put_def)
  have cmd: "\<exists>fb'. command demo_unit_methods demo_conc_pb ?env ?cmd True (c_fb demo_locking)
      = Some (IO4E_FAIL, NULL, fb')"
    using send by (simp add: command_def demo_waiting_def conc_init_def demo_fb_def sem_timedwait_def
        command_finish_def command_check_def)
  have "case command demo_unit_methods demo_conc_pb ?env ?cmd True (c_fb demo_locking) of
       None \<Rightarrow> conc_run demo_conc_pb (replicate 5 (Ev_Caller 0 True)) demo_waiting = Undefined
     | Some (err, r, fb') \<Rightarrow>
         \<exists>s3. conc_run demo_conc_pb (replicate 5 (Ev_Caller 0 True)) demo_waiting = Next s3 \<and> c_fb s3 = fb' \<and>
           c_callers s3 ! 0 = Call_Returned err r"
    by (rule command_is_run [where k = 0 and i = 0, OF _ _ send, THEN conjunct2])
       (simp_all add: demo_locking_def demo_waiting_def conc_init_def)
  with cmd show ?thesis by auto
qed

end
