(* ===== verification/Exchange.thy ===== *)
theory Exchange
  imports Functionblock
begin

text \<open>
  The functionblock client over the socket transport: the exchange of one command and its response from
  the bytes on the wire to the result of the call, and what the client makes of single messages.
\<close>

section \<open>One exchange\<close>

text \<open>A frame at the head of the stream is read and its payload allocated.\<close>

lemma read_msg_frame:
  assumes "mem_wf m" "m_fail m = []" "rd_quiet h" "s_sel h = []" "fd_set_ok (s_fd h)"
    and "data \<noteq> []" "length data < 2 ^ 16" "s_in h = frame data @ rest"
  obtains p h' m' where "read_msg h 1 m = Some (IO4E_OK, p, Some (of_nat (length data)), h', m')"
    "s_in h' = rest" "s_out h' = s_out h" "p \<noteq> NULL" "p \<notin> live m" "mem_wf m'" "m_fail m' = []"
    "m_store m' = (m_store m)(p \<mapsto> OBuf data)"
    "(of_nat (length data) :: u32) \<noteq> 0" "unat (of_nat (length data) :: u32) = length data"
    "rd_quiet h'" "s_sel h' = []" "s_wr h' = s_wr h \<and> s_fd h' = s_fd h"
proof -
  let ?h = "put_header (of_nat (length data)) :: bytes"
  note hl = hdr_len_frame [OF assms(7)]
  have sel: "sys_select h 1 = (1, h)" using assms(4,6,8) by (simp add: sys_select_def frame_def)
  have inp: "s_in h = ?h @ data @ rest" using assms(8) by (simp add: frame_def)
  obtain p h' m' where r: "read_msg h 1 m = Some (IO4E_OK, p, Some (hdr_len ?h), h', m')"
    "s_in h' = rest" "received m m' p (hdr_len ?h) data" "mem_wf m'" "m_fail m' = []"
    "rd_quiet h'" "s_sel h' = []"
    by (rule read_msg_quiet [OF assms(1,3,2,5) _ inp, of 1]) (use sel hl assms(4) in auto)
  have nz: "(of_nat (length data) :: u32) \<noteq> 0" using hl(2) assms(6) by (metis length_0_conv unat_0)
  show ?thesis
    by (rule that [of p h' m']) (use r hl nz socket_read_frame [OF r(1)] in \<open>simp_all add: received_def\<close>)
qed

text \<open>The response in memory has the fields of the message on the wire.\<close>

definition unpacked_as :: "stream_data response_pb \<Rightarrow> response \<Rightarrow> bool" where
  "unpacked_as w r \<longleftrightarrow>
     res_context r = res_context w \<and> res_status r = res_status w \<and> res_error r = res_error w \<and>
     type_case (res_type r) = type_case (res_type w) \<and>
     response_any (res_type r) = response_any (res_type w) \<and>
     map_response_type (\<lambda>x. ()) (res_type r) = map_response_type (\<lambda>x. ()) (res_type w)"

lemma unpack_plain:
  assumes "mem_wf m" "m_fail m = []" "pb_unpack_response pb data = Some w"
    "type_case (res_type w) \<noteq> TYPE_STREAM"
  obtains p m' r where "response__unpack pb data m = (p, m')" "p \<noteq> NULL" "p \<notin> live m" "mem_wf m'"
    "m_fail m' = []" "m_store m' = (m_store m)(p \<mapsto> OResponse r)" "unpacked_as w r"
proof -
  obtain p m' where u: "response__unpack pb data m = (p, m')" by fastforce
  have alloc: "malloc x m = (m_next m, m\<lparr>m_store := (m_store m)(m_next m \<mapsto> x),
      m_next := Suc (m_next m)\<rparr>)" for x
    using assms(2) by (simp add: malloc_def)
  have fail: "p \<noteq> NULL \<and> m_fail m' = []"
    using u assms(2-4) mem_wf_next_pos [OF assms(1)]
    by (cases "res_type w") (auto simp: response__unpack_def alloc)
  from assms(1) u show ?thesis
  proof (cases rule: response__unpack_cases)
    case (plain r)
    then show ?thesis using that [OF u] fail assms(3) by (auto simp: unpacked_as_def)
  qed (use fail assms(3,4) in auto)
qed


text \<open>One iteration of the reader on a framed command response.\<close>

lemma reader_answers:
  assumes inv: "fb_inv s" and alloc: "m_fail (fb_heap s) = []"
    and sock: "rd_quiet (fb_transport s)" "s_sel (fb_transport s) = []" "fd_set_ok (s_fd (fb_transport s))"
      "s_in (fb_transport s) = frame data @ rest"
    and data: "data \<noteq> []" "length data < 2 ^ 16"
    and w: "pb_unpack_response pb data = Some w" "type_case (res_type w) \<noteq> TYPE_STREAM"
    and room: "cmd_sem s < SEM_VALUE_MAX"
  obtains h m p r where "read_thread_body socket_methods pb sz s = Some (True,
      s\<lparr>fb_transport := h, fb_heap := m, cmd_response := p, cmd_sem := Suc (cmd_sem s)\<rparr>)"
    "s_in h = rest" "s_out h = s_out (fb_transport s)" "p \<noteq> NULL" "p \<notin> live (fb_heap s)" "mem_wf m"
    "m_store m = (m_store (fb_heap s))(cmd_response s := None, p \<mapsto> OResponse r)" "unpacked_as w r"
    "rd_quiet h" "s_sel h = []" "s_wr h = s_wr (fb_transport s) \<and> s_fd h = s_fd (fb_transport s)" "m_fail m = []"
proof -
  note I = fb_invD [OF inv]
  obtain buf h m1 where rd: "read_msg (fb_transport s) 1 (fb_heap s)
      = Some (IO4E_OK, buf, Some (of_nat (length data)), h, m1)"
    "s_in h = rest" "s_out h = s_out (fb_transport s)" "buf \<noteq> NULL" "buf \<notin> live (fb_heap s)"
    "mem_wf m1" "m_fail m1 = []" "m_store m1 = (m_store (fb_heap s))(buf \<mapsto> OBuf data)"
    "(of_nat (length data) :: u32) \<noteq> 0" "unat (of_nat (length data) :: u32) = length data"
    "rd_quiet h" "s_sel h = []" "s_wr h = s_wr (fb_transport s) \<and> s_fd h = s_fd (fb_transport s)"
    by (rule read_msg_frame [OF I(1) alloc sock(1-3) data sock(4)])
  obtain p m2 r where up: "response__unpack pb data m1 = (p, m2)" "p \<noteq> NULL" "p \<notin> live m1"
    "mem_wf m2" "m_fail m2 = []" "m_store m2 = (m_store m1)(p \<mapsto> OResponse r)" "unpacked_as w r"
    by (rule unpack_plain [OF rd(6,7) w])
  let ?m3 = "m2\<lparr>m_store := (m_store m2)(buf := None)\<rparr>"
  have neq: "buf \<noteq> p" using up(3) rd(8) by auto
  have buf: "get_buf buf m1 = Some data" using rd(6,8) by (simp add: get_buf_def)
  have fr: "free buf m2 = Some ?m3" using up(4,6) rd(8) neq by simp
  have st: "m_store ?m3 = (m_store (fb_heap s))(p \<mapsto> OResponse r)"
    using up(6) rd(8) neq rd(5) [unfolded domIff not_not] by (simp add: fun_eq_iff)
  have fresh: "p \<notin> live (fb_heap s)" using up(3) rd(8) by (auto split: if_splits)
  have tc: "type_case (res_type r) \<noteq> TYPE_STREAM" using up(7) w(2) by (simp add: unpacked_as_def)
  obtain m' where m': "mem_wf m'"
    "m_store m' = (m_store (fb_heap s))(cmd_response s := None, p \<mapsto> OResponse r)"
    "cmd_sem s < SEM_VALUE_MAX \<longrightarrow>
       read_thread_dispatch sz p (s\<lparr>fb_transport := h, fb_heap := ?m3\<rparr>)
       = Some (True, s\<lparr>fb_transport := h, fb_heap := m', cmd_response := p,
                       cmd_sem := Suc (cmd_sem s)\<rparr>)"
    "m_fail m' = m_fail ?m3"
    by (rule dispatch_plain [where sz = sz and h = h,
          OF inv mem_wf_remove [OF up(4)] st fresh up(2) tc])
  have "read_thread_body socket_methods pb sz s
      = Some (True, s\<lparr>fb_transport := h, fb_heap := m', cmd_response := p,
                      cmd_sem := Suc (cmd_sem s)\<rparr>)"
    using rd(1,9,10) buf up(1,2) fr m'(3) room
    by (simp add: read_thread_body_def socket_methods_def Let_def)
  then show ?thesis using rd(2,3) up(2) fresh m'(1,2) up(7) rd(11-13)
    by (rule that) (use m'(4) up(5) in simp)
qed

text \<open>The command on the wire, and what \<open>command_send\<close> does on a reliable connection.\<close>

definition packed_command :: "pb_api \<Rightarrow> command_pb \<Rightarrow> bytes \<Rightarrow> bytes" where
  "packed_command pb cmd ctx = pb_pack_command pb (cmd\<lparr>cmd_ctx := Some (c_str ctx)\<rparr>)"

lemma command_send_frame:
  assumes "wr_reliable (fb_transport s)" "cmd_context s = [c, 0]" "\<not> cmd_mutex s"
    and "FSTREAM_HEADER_SIZE + length (packed_command pb cmd [c + 1, 0]) < 2 ^ 32"
  obtains h where "command_send socket_methods pb cmd s
      = Some (IO4E_OK, s\<lparr>cmd_mutex := True, cmd_context := [c + 1, 0], fb_transport := h\<rparr>)"
    "s_out h = s_out (fb_transport s) @ frame (packed_command pb cmd [c + 1, 0])"
    "s_in h = s_in (fb_transport s)" "s_rd h = s_rd (fb_transport s)"
    "s_sel h = s_sel (fb_transport s)" "s_wr h = s_wr (fb_transport s) \<and> s_fd h = s_fd (fb_transport s)"
    "s_open h = s_open (fb_transport s)"
proof -
  let ?p = "packed_command pb cmd [c + 1, 0]"
  have size: "unat (get_write_offset (fb_transport s)) = FSTREAM_HEADER_SIZE"
    by (simp add: get_write_offset_def FSTREAM_HEADER_SIZE_def)
  have len: "(of_nat (length ?p) :: u32) + get_write_offset (fb_transport s)
      = of_nat (length (send_buf ?p))"
    by (simp add: get_write_offset_def)
  have buf: "replicate FSTREAM_HEADER_SIZE 0 @ ?p = send_buf ?p" by (simp add: send_buf_def)
  from assms(1) have live: "wr_live (fb_transport s)"
    and ok: "\<forall>i e. s_wr (fb_transport s) i = Wr_Err e \<longrightarrow> wr_retry e" by (simp_all add: wr_reliable_def)
  from write_loop_returns [OF live] obtain r where r: "write_loop (fb_transport s) (frame ?p) = Some r"
    by blast
  with write_loop_no_FAIL [OF r ok] obtain h where
    h: "write_loop (fb_transport s) (frame ?p) = Some (IO4E_OK, h)" by (cases r) auto
  have w: "write_msg (fb_transport s) (send_buf ?p) (of_nat (length (send_buf ?p))) = Some (IO4E_OK, h)"
    using write_msg_send_buf [OF assms(4)] h by simp
  from write_loop_result [OF h] have res: "s_out h = s_out (fb_transport s) @ frame ?p"
    "s_in h = s_in (fb_transport s)" "s_rd h = s_rd (fb_transport s)"
    "s_sel h = s_sel (fb_transport s)" "s_wr h = s_wr (fb_transport s) \<and> s_fd h = s_fd (fb_transport s)"
    "s_open h = s_open (fb_transport s)" by (auto simp: err_defs)
  have "command_send socket_methods pb cmd s =
      map_option (\<lambda>(err, h). (err, s\<lparr>cmd_mutex := True, cmd_context := [c + 1, 0], fb_transport := h\<rparr>))
        (write_msg (fb_transport s) (replicate (unat (get_write_offset (fb_transport s))) 0 @ ?p)
           (of_nat (length ?p) + get_write_offset (fb_transport s)))"
    using assms(2,3)
    by (simp add: command_send_def command_advance_def socket_methods_def array_get_def array_put_def Let_def
        packed_command_def split_def map_conv_bind_option o_def del: c_str_simps)
  also have "\<dots> = Some (IO4E_OK, s\<lparr>cmd_mutex := True, cmd_context := [c + 1, 0], fb_transport := h\<rparr>)"
    unfolding size len buf w by simp
  finally have "command_send socket_methods pb cmd s
      = Some (IO4E_OK, s\<lparr>cmd_mutex := True, cmd_context := [c + 1, 0], fb_transport := h\<rparr>)" .
  then show ?thesis using res by (rule that)
qed


text \<open>
  A client between two calls on a sound connection: nothing pending, no allocation fails. The next
  frame on the connection is the command response \<open>w\<close>.
\<close>

definition client_idle :: "(sock, 'fs) fbsys \<Rightarrow> bool" where
  "client_idle s \<longleftrightarrow>
     fb_inv s \<and> \<not> cmd_mutex s \<and> cmd_sem s = 0 \<and> wr_reliable (fb_transport s) \<and>
     rd_quiet (fb_transport s) \<and> s_sel (fb_transport s) = [] \<and> fd_set_ok (s_fd (fb_transport s)) \<and>
     m_fail (fb_heap s) = []"

definition answer :: "pb_api \<Rightarrow> bytes \<Rightarrow> stream_data response_pb \<Rightarrow> bool" where
  "answer pb data w \<longleftrightarrow>
     data \<noteq> [] \<and> length data < 2 ^ 16 \<and> pb_unpack_response pb data = Some w \<and>
     type_case (res_type w) \<noteq> TYPE_STREAM \<and> response_wf pb w"

lemma exchange:
  assumes idle: "client_idle s" and s_in: "s_in (fb_transport s) = frame data @ rest"
    and ans: "answer pb data w" and c: "cmd_context s = [c, 0]"
    and len: "FSTREAM_HEADER_SIZE + length (packed_command pb cmd [c + 1, 0]) < 2 ^ 32"
  obtains res s' where "command socket_methods pb (read_thread 1 socket_methods pb sz) cmd want s
      = Some (command_verdict [c + 1, 0] w, res, s')" "client_idle s'"
    "s_out (fb_transport s') = s_out (fb_transport s) @ frame (packed_command pb cmd [c + 1, 0])"
    "s_in (fb_transport s') = rest" "cmd_response s' = NULL \<and> s_fd (fb_transport s') = s_fd (fb_transport s)"
    "cmd_context s' = context_after [c + 1, 0] w"
    "if command_verdict [c + 1, 0] w = IO4E_OK \<and> want
     then \<exists>r. m_store (fb_heap s') res = Some (OResponse r) \<and> unpacked_as w r \<and> res \<noteq> NULL \<and>
            res \<notin> fb_loose s \<and> fb_loose s' = insert res (fb_loose s)
     else res = NULL \<and> fb_loose s' = fb_loose s"
proof -
  from idle have inv: "fb_inv s" "\<not> cmd_mutex s" "cmd_sem s = 0" "wr_reliable (fb_transport s)"
    "rd_quiet (fb_transport s)" "s_sel (fb_transport s) = []" "m_fail (fb_heap s) = []"
    "fd_set_ok (s_fd (fb_transport s))"
    by (simp_all add: client_idle_def)
  from ans have a: "data \<noteq> []" "length data < 2 ^ 16" "pb_unpack_response pb data = Some w"
    "type_case (res_type w) \<noteq> TYPE_STREAM" "response_wf pb w" by (simp_all add: answer_def)
  obtain h where send: "command_send socket_methods pb cmd s
      = Some (IO4E_OK, s\<lparr>cmd_mutex := True, cmd_context := [c + 1, 0], fb_transport := h\<rparr>)"
    "s_out h = s_out (fb_transport s) @ frame (packed_command pb cmd [c + 1, 0])"
    "s_in h = s_in (fb_transport s)" "s_rd h = s_rd (fb_transport s)"
    "s_sel h = s_sel (fb_transport s)" "s_wr h = s_wr (fb_transport s) \<and> s_fd h = s_fd (fb_transport s)"
    by (rule command_send_frame [OF inv(4) c inv(2) len])
  let ?s0 = "s\<lparr>cmd_mutex := True, cmd_context := [c + 1, 0], fb_transport := h\<rparr>"
  have inv0: "fb_inv ?s0" using inv(1) by (simp add: fb_inv_def)
  obtain h1 m p r where rd: "read_thread_body socket_methods pb sz ?s0 = Some (True,
      ?s0\<lparr>fb_transport := h1, fb_heap := m, cmd_response := p, cmd_sem := Suc (cmd_sem ?s0)\<rparr>)"
    "s_in h1 = rest" "s_out h1 = s_out (fb_transport ?s0)" "p \<noteq> NULL" "p \<notin> live (fb_heap ?s0)"
    "mem_wf m" "m_store m = (m_store (fb_heap ?s0))(cmd_response ?s0 := None, p \<mapsto> OResponse r)"
    "unpacked_as w r"
    "rd_quiet h1" "s_sel h1 = []" "s_wr h1 = s_wr (fb_transport ?s0) \<and> s_fd h1 = s_fd (fb_transport ?s0)" "m_fail m = []"
    by (rule reader_answers [OF inv0, of data rest pb w sz])
       (use a inv s_in send(3-6) in \<open>simp_all add: rd_quiet_def SEM_VALUE_MAX_def\<close>)
  let ?s1 = "?s0\<lparr>fb_transport := h1, fb_heap := m, cmd_response := p, cmd_sem := Suc (cmd_sem ?s0)\<rparr>"
  let ?s2 = "?s1\<lparr>cmd_sem := 0, fb_now := fb_now s\<rparr>"
  have sem: "sem_timedwait (cmd_sem ?s1) (fb_now s + cmd_timeout s) (fb_now ?s1) = (0, 0, fb_now s)"
    using inv(3) by (simp add: sem_timedwait_def)
  have tc: "type_case (res_type r) \<noteq> TYPE_STREAM" using a(4) rd(8) by (simp add: unpacked_as_def)
  note I = fb_invD [OF inv(1)]
  have nq: "p \<notin> set (sq_list (fb_streamq s))" using I(4) rd(5) by auto
  have inv2: "fb_inv ?s2"
    using I nq rd(4,6,7) tc pending_not_queued [OF inv(1)] by (auto simp: fb_inv_def)
  have r: "m_store (fb_heap ?s2) (cmd_response ?s2) = Some (OResponse r)" using rd(7) by simp
  have same: "response_wf pb r" "command_verdict [c + 1, 0] r = command_verdict [c + 1, 0] w"
    "context_after [c + 1, 0] r = context_after [c + 1, 0] w" "res_context r = res_context w"
    using a(5) rd(8)
    by (simp_all add: unpacked_as_def response_wf_def command_verdict_def context_after_def)
  have ctxw: "res_context w \<noteq> None" using a(5) by (simp add: response_wf_def)
  let ?keep = "command_verdict [c + 1, 0] w = IO4E_OK \<and> want"
  let ?m = "if ?keep then m else m\<lparr>m_store := (m_store m)(p := None)\<rparr>"
  let ?s3 = "?s2\<lparr>cmd_response := NULL, cmd_context := context_after [c + 1, 0] w, fb_heap := ?m\<rparr>"
  have "command_finish pb want ?s2 = Some (command_verdict [c + 1, 0] w, if ?keep then p else NULL, ?s3)"
    using command_finish_pending [OF inv2 _ r, of pb want] same rd(4) ctxw by simp
  then have eq: "command socket_methods pb (read_thread 1 socket_methods pb sz) cmd want s
      = Some (command_verdict [c + 1, 0] w, if ?keep then p else NULL, ?s3\<lparr>cmd_mutex := False\<rparr>)"
    using send(1) rd(1) sem by (simp add: command_def Let_def)
  have "\<exists>x. context_after [c + 1, 0] w = [x, 0]" by (auto simp: context_after_def)
  then have "fb_inv (?s3\<lparr>cmd_mutex := False\<rparr>)"
    using I nq rd(6,7) mem_wf_remove [OF rd(6), of p] pending_not_queued [OF inv(1)]
    by (auto simp: fb_inv_def)
  moreover have "wr_reliable h1" using inv(4) rd(11) send(6) by (simp add: wr_reliable_def wr_live_def)
  ultimately have "client_idle (?s3\<lparr>cmd_mutex := False\<rparr>)"
    using rd(9-12) inv(8) send(6) by (simp add: client_idle_def)
  moreover have "fb_loose (?s3\<lparr>cmd_mutex := False\<rparr>)
      = (if ?keep then insert p (fb_loose s) else fb_loose s)"
    using I(4) nq rd(4,5,7) pending_not_queued [OF inv(1)] NULL_not_live [OF I(1)]
    by (auto simp: fb_loose_def fb_owned_def split: if_splits)
  moreover have "p \<notin> fb_loose s" using rd(5) by (simp add: fb_loose_def)
  ultimately show ?thesis by (intro that [OF eq]) (use rd send(2,6) in auto)
qed


section \<open>Sessions\<close>

text \<open>
  A sequence of commands of one user, with one message read by the reader thread while each waits,
  and the specification of such a session: results, bytes sent and the last context, as a function
  of the first context and the responses.
\<close>

fun run_commands ::
  "pb_api \<Rightarrow> nat \<Rightarrow> command_pb list \<Rightarrow> (sock, 'fs) fbsys \<Rightarrow>
   (io4e_err_t list \<times> (sock, 'fs) fbsys) option" where
  "run_commands pb sz [] s = Some ([], s)"
| "run_commands pb sz (cmd # cmds) s = do {
     (err, res, s) \<leftarrow> command socket_methods pb (read_thread 1 socket_methods pb sz) cmd False s;
     (errs, s) \<leftarrow> run_commands pb sz cmds s;
     Some (err # errs, s) }"

fun session_spec ::
  "pb_api \<Rightarrow> byte \<Rightarrow> (command_pb \<times> stream_data response_pb) list \<Rightarrow> io4e_err_t list \<times> bytes \<times> byte" where
  "session_spec pb c [] = ([], [], c)"
| "session_spec pb c ((cmd, w) # cws) =
     (let ctx = [c + 1, 0]; (errs, out, c') = session_spec pb (context_after ctx w ! 0) cws
      in (command_verdict ctx w # errs, frame (packed_command pb cmd ctx) @ out, c'))"

definition commands_fit :: "pb_api \<Rightarrow> command_pb list \<Rightarrow> bool" where
  "commands_fit pb cmds \<longleftrightarrow> (\<forall>cmd \<in> set cmds. \<forall>b.
     FSTREAM_HEADER_SIZE + length (packed_command pb cmd [b, 0]) < 2 ^ 32)"

lemma context_after_shape: "context_after [c, 0] w = [context_after [c, 0] w ! 0, 0]"
  by (simp add: context_after_def)

lemma session_run:
  assumes "client_idle s" "s_in (fb_transport s) = concat (map frame datas) @ rest"
    and "list_all2 (answer pb) datas (map snd cws)" "cmd_context s = [c, 0]"
    and "commands_fit pb (map fst cws)"
  shows "\<exists>s'. run_commands pb sz (map fst cws) s = Some (fst (session_spec pb c cws), s') \<and>
    client_idle s' \<and> s_in (fb_transport s') = rest \<and>
    s_out (fb_transport s') = s_out (fb_transport s) @ fst (snd (session_spec pb c cws)) \<and>
    cmd_context s' = [snd (snd (session_spec pb c cws)), 0]"
  using assms
proof (induction cws arbitrary: s c datas)
  case Nil
  then show ?case by simp
next
  case (Cons cw cws)
  obtain cmd w where cw: "cw = (cmd, w)" by fastforce
  from Cons.prems(3) cw obtain d ds where d: "datas = d # ds" "answer pb d w"
    "list_all2 (answer pb) ds (map snd cws)" by (auto simp: list_all2_Cons2)
  have s_in: "s_in (fb_transport s) = frame d @ (concat (map frame ds) @ rest)"
    using Cons.prems(2) d(1) by simp
  have fit: "FSTREAM_HEADER_SIZE + length (packed_command pb cmd [c + 1, 0]) < 2 ^ 32"
    "commands_fit pb (map fst cws)"
    using Cons.prems(5) cw by (simp_all add: commands_fit_def)
  obtain res s1 where ex:
    "command socket_methods pb (read_thread 1 socket_methods pb sz) cmd False s
      = Some (command_verdict [c + 1, 0] w, res, s1)" "client_idle s1"
    "s_out (fb_transport s1) = s_out (fb_transport s) @ frame (packed_command pb cmd [c + 1, 0])"
    "s_in (fb_transport s1) = concat (map frame ds) @ rest"
    "cmd_response s1 = NULL \<and> s_fd (fb_transport s1) = s_fd (fb_transport s)"
    "cmd_context s1 = context_after [c + 1, 0] w"
    by (rule exchange [OF Cons.prems(1) s_in d(2) Cons.prems(4) fit(1), of sz False])
  have c1: "cmd_context s1 = [context_after [c + 1, 0] w ! 0, 0]"
    using ex(6) context_after_shape [of "c + 1" w] by simp
  from Cons.IH [OF ex(2,4) d(3) c1 fit(2)] ex(1,3) cw show ?case
    by (auto simp: Let_def split_def)
qed

text \<open>Two kinds of sessions: responses in step, and responses late by one command.\<close>

definition in_step :: "byte \<Rightarrow> stream_data response_pb list \<Rightarrow> bool" where
  "in_step c ws \<longleftrightarrow> (\<forall>i < length ws. res_status (ws ! i) = STATUS_OK \<and>
     res_context (ws ! i) = Some (c_str [c + 1 + 2 * of_nat i, 0]))"

definition late_by_one :: "byte \<Rightarrow> stream_data response_pb list \<Rightarrow> bool" where
  "late_by_one c ws \<longleftrightarrow> (\<forall>i < length ws. res_context (ws ! i) = Some (c_str [c + of_nat i, 0]))"

lemma in_step_Cons:
  "in_step c (w # ws) \<longleftrightarrow>
     res_status w = STATUS_OK \<and> res_context w = Some (c_str [c + 1, 0]) \<and> in_step (c + 2) ws"
  unfolding in_step_def length_Cons All_less_Suc2 by (simp add: algebra_simps del: c_str_simps)

lemma late_by_one_Cons:
  "late_by_one c (w # ws) \<longleftrightarrow> res_context w = Some (c_str [c, 0]) \<and> late_by_one (c + 1) ws"
  unfolding late_by_one_def length_Cons All_less_Suc2 by (simp add: algebra_simps del: c_str_simps)

lemma strcmp_eq_c_str [simp]: "strcmp_eq (c_str a) a"
  by (simp add: strcmp_eq_def del: c_str_simps)

lemma strcmp_eq_context: "strcmp_eq (c_str [a, 0]) [b, 0] \<longleftrightarrow> a = b"
  by (auto simp: strcmp_eq_def)

text \<open>The bytes of a session in step: the ids advance by two.\<close>

fun in_step_output :: "pb_api \<Rightarrow> byte \<Rightarrow> command_pb list \<Rightarrow> bytes" where
  "in_step_output pb c [] = []"
| "in_step_output pb c (cmd # cmds) =
     frame (packed_command pb cmd [c + 1, 0]) @ in_step_output pb (c + 2) cmds"

lemma session_in_step:
  "odd c \<Longrightarrow> in_step c (map snd cws) \<Longrightarrow>
     fst (session_spec pb c cws) = replicate (length cws) IO4E_OK \<and>
     fst (snd (session_spec pb c cws)) = in_step_output pb c (map fst cws) \<and>
     snd (snd (session_spec pb c cws)) = c + 2 * of_nat (length cws)"
proof (induction cws arbitrary: c)
  case Nil
  then show ?case by simp
next
  case (Cons cw cws)
  obtain cmd w where cw: "cw = (cmd, w)" by fastforce
  from Cons.prems(2) cw have w: "res_status w = STATUS_OK" "res_context w = Some (c_str [c + 1, 0])"
    "in_step (c + 2) (map snd cws)" by (simp_all add: in_step_Cons del: c_str_simps)
  have odd: "odd (c + 2)" using Cons.prems(1) by simp
  then have "c + 2 \<noteq> 90" by (metis even_numeral)
  then have next_c: "context_next (c + 1) = c + 2" by (simp add: context_next_def add.assoc)
  have "context_after [c + 1, 0] w ! 0 = c + 2"
    using w(2) next_c by (simp add: context_after_def del: c_str_simps)
  moreover have "command_verdict [c + 1, 0] w = IO4E_OK"
    using w(1,2) by (simp add: command_verdict_def del: c_str_simps)
  ultimately show ?case
    using Cons.IH [OF odd w(3)] cw by (simp add: Let_def split_def algebra_simps del: c_str_simps)
qed

lemma session_late:
  "late_by_one c (map snd cws) \<Longrightarrow>
     fst (session_spec pb c cws) = replicate (length cws) IO4E_FAIL \<and>
     snd (snd (session_spec pb c cws)) = c + of_nat (length cws)"
proof (induction cws arbitrary: c)
  case Nil
  then show ?case by simp
next
  case (Cons cw cws)
  obtain cmd w where cw: "cw = (cmd, w)" by fastforce
  from Cons.prems cw have w: "res_context w = Some (c_str [c, 0])" "late_by_one (c + 1) (map snd cws)"
    by (simp_all add: late_by_one_Cons del: c_str_simps)
  have "\<not> strcmp_eq (c_str [c, 0]) [c + 1, 0]" unfolding strcmp_eq_context by simp
  with w(1) have "command_verdict [c + 1, 0] w = IO4E_FAIL" "context_after [c + 1, 0] w ! 0 = c + 1"
    by (simp_all add: command_verdict_def context_after_def del: c_str_simps)
  with Cons.IH [OF w(2)] cw show ?case
    by (simp add: Let_def split_def algebra_simps del: c_str_simps)
qed

text \<open>A command whose response does not come in time.\<close>

lemma unanswered_command:
  assumes idle: "client_idle s" and c: "cmd_context s = [c, 0]"
    and len: "FSTREAM_HEADER_SIZE + length (packed_command pb cmd [c + 1, 0]) < 2 ^ 32"
    and env: "\<And>h. s_in h = s_in (fb_transport s) \<Longrightarrow> s_rd h = s_rd (fb_transport s) \<Longrightarrow> s_sel h = s_sel (fb_transport s) \<Longrightarrow>
      s_fd h = s_fd (fb_transport s) \<Longrightarrow> s_open h = s_open (fb_transport s) \<Longrightarrow>
      env (s\<lparr>cmd_mutex := True, cmd_context := [c + 1, 0], fb_transport := h\<rparr>)
        = Some (s\<lparr>cmd_mutex := True, cmd_context := [c + 1, 0], fb_transport := h\<rparr>)"
  obtains s' where "command socket_methods pb env cmd want s
      = Some (IO4E_ERR_TIMEOUT, NULL, s')" "client_idle s'" "cmd_context s' = [c + 1, 0]"
    "s_in (fb_transport s') = s_in (fb_transport s)" "fb_heap s' = fb_heap s"
    "cmd_response s' = cmd_response s" "fb_streamq s' = fb_streamq s"
    "fb_now s + cmd_timeout s \<le> fb_now s'" "cmd_timeout s' = cmd_timeout s"
    "s_open (fb_transport s') = s_open (fb_transport s)"
proof -
  from idle have inv: "fb_inv s" "\<not> cmd_mutex s" "cmd_sem s = 0" "wr_reliable (fb_transport s)"
    "rd_quiet (fb_transport s)" "s_sel (fb_transport s) = []" "m_fail (fb_heap s) = []"
    "fd_set_ok (s_fd (fb_transport s))"
    by (simp_all add: client_idle_def)
  obtain h where send: "command_send socket_methods pb cmd s
      = Some (IO4E_OK, s\<lparr>cmd_mutex := True, cmd_context := [c + 1, 0], fb_transport := h\<rparr>)"
    "s_out h = s_out (fb_transport s) @ frame (packed_command pb cmd [c + 1, 0])"
    "s_in h = s_in (fb_transport s)" "s_rd h = s_rd (fb_transport s)"
    "s_sel h = s_sel (fb_transport s)" "s_wr h = s_wr (fb_transport s) \<and> s_fd h = s_fd (fb_transport s)"
    "s_open h = s_open (fb_transport s)"
    by (rule command_send_frame [OF inv(4) c inv(2) len])
  let ?s = "s\<lparr>cmd_mutex := False, cmd_context := [c + 1, 0], fb_transport := h, cmd_sem := 0,
    fb_now := max (fb_now s) (fb_now s + cmd_timeout s)\<rparr>"
  have "command socket_methods pb env cmd want s = Some (IO4E_ERR_TIMEOUT, NULL, ?s)"
    using send(1) inv(3) env [OF send(3-5) _ send(7)] send(6) by (simp add: command_def sem_timedwait_def Let_def)
  moreover have "client_idle ?s"
    using inv send by (simp add: client_idle_def fb_inv_def rd_quiet_def wr_reliable_def wr_live_def)
  ultimately show ?thesis by (rule that) (use send in simp_all)
qed

lemma timed_out_command:
  assumes "client_idle s" "cmd_context s = [c, 0]"
    and "FSTREAM_HEADER_SIZE + length (packed_command pb cmd [c + 1, 0]) < 2 ^ 32"
  obtains s' where "command socket_methods pb (read_thread 0 socket_methods pb sz) cmd want s
      = Some (IO4E_ERR_TIMEOUT, NULL, s')" "client_idle s'" "cmd_context s' = [c + 1, 0]"
    "s_in (fb_transport s') = s_in (fb_transport s)"
  by (rule unanswered_command [OF assms, of "read_thread 0 socket_methods pb sz" want]) simp_all


section \<open>Properties\<close>

text \<open>A device that echoes the context; its first byte is the status. A client connected to it.\<close>

definition echo_pb :: pb_api where
  "echo_pb =
     \<lparr>pb_pack_command = (\<lambda>cmd. case cmd_ctx cmd of None \<Rightarrow> [0] | Some v \<Rightarrow> 0 # v),
      pb_unpack_response = (\<lambda>data. case data of [] \<Rightarrow> None
        | b # bs \<Rightarrow> Some \<lparr>res_context = Some bs,
            res_status = (if b = 0 then STATUS_OK else STATUS_HW_FAULT), res_error = Some [],
            res_type = RESPONSE_FUNCTION_CONTROL (FUNCTION_CONTROL_RESPONSE_GET
                         \<lparr>type_url = [], any_value = bs\<rparr>)\<rparr>),
      pb_n_status = 11\<rparr>"

definition echo :: "bytes \<Rightarrow> stream_data response_pb" where
  "echo bs = \<lparr>res_context = Some bs, res_status = STATUS_OK, res_error = Some [],
     res_type = RESPONSE_FUNCTION_CONTROL (FUNCTION_CONTROL_RESPONSE_GET
       \<lparr>type_url = [], any_value = bs\<rparr>)\<rparr>"

definition demo_streamq :: streamq_t where
  "demo_streamq = \<lparr>q_msg = [NULL, NULL], q_capacity = 2, q_write_idx = 0, q_read_idx = 0,
     q_nentries = 0, q_write_sem = 2, q_read_sem = 0, q_locked = False\<rparr>"

definition demo_client :: "bytes \<Rightarrow> (sock, nat) fbsys" where
  "demo_client input = \<lparr>fb_transport = demo_sock input, cmd_context = [65, 0], cmd_timeout = 5,
     cmd_mutex = False, cmd_response = NULL, cmd_sem = 0, fb_streamq = demo_streamq,
     fb_heap = demo_heap, fb_now = 100\<rparr>"

abbreviation stop_cmd :: command_pb where
  "stop_cmd \<equiv> \<lparr>cmd_ctx = None, cmd_type = COMMAND_STREAM_CONTROL STREAM_CONTROL_STOP\<rparr>"

lemma echo_simps [simp]:
  "res_context (echo bs) = Some bs" "res_status (echo bs) = STATUS_OK"
  by (simp_all add: echo_def)

lemma no_responses [simp]: "in_step c []" "late_by_one c []"
  by (simp_all add: in_step_def late_by_one_def)

lemma demo_streamq_facts: "sq_inv demo_streamq" "sq_list demo_streamq = []" "q_capacity demo_streamq = 2"
  by (simp_all add: demo_streamq_def sq_inv_def sq_list_def SEM_VALUE_MAX_def)

lemma demo_client_fields [simp]:
  "fb_transport (demo_client x) = demo_sock x" "cmd_context (demo_client x) = [65, 0]"
  "cmd_mutex (demo_client x) = False" "cmd_response (demo_client x) = NULL"
  "cmd_sem (demo_client x) = 0" "fb_streamq (demo_client x) = demo_streamq"
  "fb_heap (demo_client x) = demo_heap"
  by (simp_all add: demo_client_def)

lemma demo_client_inv: "fb_inv (demo_client x)"
  by (simp add: fb_inv_def demo_streamq_facts demo_wf SEM_VALUE_MAX_def)

lemma demo_client_idle: "client_idle (demo_client x)"
  using demo_client_inv demo_reliable by (simp add: client_idle_def demo_wf)

lemma echo_answer: "answer echo_pb (0 # bs) (echo bs)" if "length bs < 100"
  using that
  by (simp add: answer_def echo_pb_def echo_def response_wf_def)

lemma echo_fit: "commands_fit echo_pb cmds"
  by (simp add: commands_fit_def packed_command_def echo_pb_def FSTREAM_HEADER_SIZE_def)

text \<open>C1 Commands work from the wire to the result: for any list of commands and any responses of
  the device to them, one per command, the calls return exactly the verdicts of the specification
  (\<open>IO4E_OK\<close>, the mapped device status, or \<open>IO4E_FAIL\<close> where the context does not match), the bytes
  sent are the framed commands carrying the successive contexts, the responses are consumed, and
  the client is again idle, with nothing pending and no token left in the semaphore.\<close>

theorem session_refines_spec:
  assumes "client_idle s" "cmd_context s = [c, 0]" "commands_fit pb (map fst cws)"
    and "s_in (fb_transport s) = concat (map frame datas) @ rest"
    and "list_all2 (answer pb) datas (map snd cws)"
  shows "\<exists>s'. run_commands pb sz (map fst cws) s = Some (fst (session_spec pb c cws), s') \<and>
    client_idle s' \<and> s_in (fb_transport s') = rest \<and>
    s_out (fb_transport s') = s_out (fb_transport s) @ fst (snd (session_spec pb c cws)) \<and>
    cmd_context s' = [snd (snd (session_spec pb c cws)), 0]"
  using assms(1,4,5,2,3) by (rule session_run)

theorem session_refines_spec_witness:
  "\<exists>s'. run_commands echo_pb 8 [stop_cmd, stop_cmd] (demo_client (frame [0, 66] @ frame [0, 70]))
      = Some ([IO4E_OK, IO4E_FAIL], s') \<and> client_idle s' \<and> s_in (fb_transport s') = [] \<and>
    s_out (fb_transport s') = frame [0, 66] @ frame [0, 68] \<and> cmd_context s' = [68, 0]"
proof -
  let ?cws = "[(stop_cmd, echo [66]), (stop_cmd, echo [70])]"
  have "\<exists>s'. run_commands echo_pb 8 (map fst ?cws) (demo_client (frame [0, 66] @ frame [0, 70]))
      = Some (fst (session_spec echo_pb 65 ?cws), s') \<and> client_idle s' \<and>
    s_in (fb_transport s') = [] \<and>
    s_out (fb_transport s') = s_out (fb_transport (demo_client (frame [0, 66] @ frame [0, 70])))
       @ fst (snd (session_spec echo_pb 65 ?cws)) \<and>
    cmd_context s' = [snd (snd (session_spec echo_pb 65 ?cws)), 0]"
    by (rule session_refines_spec [OF demo_client_idle, where datas = "[[0, 66], [0, 70]]"])
       (simp_all add: echo_fit demo_wf echo_answer)
  then show ?thesis
    by (simp add: demo_wf command_verdict_def context_after_def context_next_def strcmp_eq_def
        echo_def packed_command_def echo_pb_def)
qed

text \<open>C12 Context ids: while every command succeeds, the id sent advances by two (it is incremented
  before sending and again after the response), so that starting from \<open>A\<close> it is never \<open>Z\<close> when the
  code tests for \<open>Z\<close> and the reset to \<open>A\<close> never happens: the ids leave the letters, the 32nd
  command carries the single byte 128, which is no UTF-8 text, and the 96th the empty string.\<close>

theorem context_leaves_alphabet:
  assumes "client_idle s" "cmd_context s = [65, 0]" "commands_fit pb (map fst cws)"
    and "s_in (fb_transport s) = concat (map frame datas) @ rest"
    and "list_all2 (answer pb) datas (map snd cws)" "in_step 65 (map snd cws)"
  shows "(\<exists>s'. run_commands pb sz (map fst cws) s = Some (replicate (length cws) IO4E_OK, s') \<and>
      cmd_context s' = [65 + 2 * of_nat (length cws), 0] \<and>
      s_out (fb_transport s') = s_out (fb_transport s) @ in_step_output pb 65 (map fst cws)) \<and>
    packed_command pb cmd [65 + 2 * of_nat 31 + 1, 0] = pb_pack_command pb (cmd\<lparr>cmd_ctx := Some [128]\<rparr>) \<and>
    packed_command pb cmd [65 + 2 * of_nat 95 + 1, 0] = pb_pack_command pb (cmd\<lparr>cmd_ctx := Some []\<rparr>)"
proof -
  have "odd (65 :: byte)" by simp
  from session_in_step [OF this assms(6), of pb] session_run [OF assms(1,4,5,2,3), of sz]
  show ?thesis by (auto simp: packed_command_def)
qed

theorem context_leaves_alphabet_witness:
  "(\<exists>s'. run_commands echo_pb 8 [stop_cmd, stop_cmd] (demo_client (frame [0, 66] @ frame [0, 68]))
        = Some ([IO4E_OK, IO4E_OK], s') \<and> cmd_context s' = [69, 0] \<and>
      s_out (fb_transport s') = in_step_output echo_pb 65 [stop_cmd, stop_cmd]) \<and>
    packed_command echo_pb stop_cmd [65 + 2 * of_nat 31 + 1, 0]
      = pb_pack_command echo_pb (stop_cmd\<lparr>cmd_ctx := Some [128]\<rparr>) \<and>
    packed_command echo_pb stop_cmd [65 + 2 * of_nat 95 + 1, 0]
      = pb_pack_command echo_pb (stop_cmd\<lparr>cmd_ctx := Some []\<rparr>)"
proof -
  let ?cws = "[(stop_cmd, echo [66]), (stop_cmd, echo [68])]"
  have "(\<exists>s'. run_commands echo_pb 8 (map fst ?cws) (demo_client (frame [0, 66] @ frame [0, 68]))
        = Some (replicate (length ?cws) IO4E_OK, s') \<and>
      cmd_context s' = [65 + 2 * of_nat (length ?cws), 0] \<and>
      s_out (fb_transport s') = s_out (fb_transport (demo_client (frame [0, 66] @ frame [0, 68])))
        @ in_step_output echo_pb 65 (map fst ?cws)) \<and>
    packed_command echo_pb stop_cmd [65 + 2 * of_nat 31 + 1, 0]
      = pb_pack_command echo_pb (stop_cmd\<lparr>cmd_ctx := Some [128]\<rparr>) \<and>
    packed_command echo_pb stop_cmd [65 + 2 * of_nat 95 + 1, 0]
      = pb_pack_command echo_pb (stop_cmd\<lparr>cmd_ctx := Some []\<rparr>)"
    by (rule context_leaves_alphabet [OF demo_client_idle, where datas = "[[0, 66], [0, 68]]"
          and rest = "[]"])
       (simp_all add: echo_fit demo_wf echo_answer in_step_Cons)
  then show ?thesis by (simp add: demo_wf numeral_2_eq_2)
qed

text \<open>C10 One late response desynchronises the client for good: after a command that timed out, with
  the device answering every command correctly but the responses arriving one command late, every
  following command fails with \<open>IO4E_FAIL\<close> although each is answered, and none recovers.\<close>

theorem timeout_desynchronises:
  assumes "client_idle s" "cmd_context s = [c, 0]" "commands_fit pb (cmd # map fst cws)"
    and "s_in (fb_transport s) = concat (map frame datas) @ rest"
    and "list_all2 (answer pb) datas (map snd cws)" "late_by_one (c + 1) (map snd cws)"
  shows "\<exists>s1 s2. command socket_methods pb (read_thread 0 socket_methods pb sz) cmd want s
      = Some (IO4E_ERR_TIMEOUT, NULL, s1) \<and>
    run_commands pb sz (map fst cws) s1 = Some (replicate (length cws) IO4E_FAIL, s2) \<and>
    client_idle s2 \<and> s_in (fb_transport s2) = rest"
proof -
  from assms(3) have fit: "FSTREAM_HEADER_SIZE + length (packed_command pb cmd [c + 1, 0]) < 2 ^ 32"
    "commands_fit pb (map fst cws)" by (simp_all add: commands_fit_def)
  obtain s1 where s1: "command socket_methods pb (read_thread 0 socket_methods pb sz) cmd want s
      = Some (IO4E_ERR_TIMEOUT, NULL, s1)" "client_idle s1" "cmd_context s1 = [c + 1, 0]"
    "s_in (fb_transport s1) = s_in (fb_transport s)"
    by (rule timed_out_command [OF assms(1,2) fit(1), of sz want])
  from session_late [OF assms(6), of pb] session_run [OF s1(2) _ assms(5) s1(3) fit(2), of rest sz]
    s1(1,4) assms(4) show ?thesis by auto
qed

theorem timeout_desynchronises_witness:
  "\<exists>s1 s2. command socket_methods echo_pb (read_thread 0 socket_methods echo_pb 8) stop_cmd False
        (demo_client (frame [0, 66] @ frame [0, 67])) = Some (IO4E_ERR_TIMEOUT, NULL, s1) \<and>
    run_commands echo_pb 8 [stop_cmd, stop_cmd] s1 = Some ([IO4E_FAIL, IO4E_FAIL], s2) \<and>
    client_idle s2 \<and> s_in (fb_transport s2) = []"
proof -
  let ?cws = "[(stop_cmd, echo [66]), (stop_cmd, echo [67])]"
  have "\<exists>s1 s2. command socket_methods echo_pb (read_thread 0 socket_methods echo_pb 8) stop_cmd False
        (demo_client (frame [0, 66] @ frame [0, 67])) = Some (IO4E_ERR_TIMEOUT, NULL, s1) \<and>
    run_commands echo_pb 8 (map fst ?cws) s1 = Some (replicate (length ?cws) IO4E_FAIL, s2) \<and>
    client_idle s2 \<and> s_in (fb_transport s2) = []"
    by (rule timeout_desynchronises [where datas = "[[0, 66], [0, 67]]" and c = 65])
       (simp_all add: demo_client_idle echo_fit demo_wf echo_answer late_by_one_Cons)
  then show ?thesis by (simp add: numeral_2_eq_2)
qed


text \<open>C14 What a command makes of a pending response: \<open>IO4E_FAIL\<close> for a foreign context, else the mapped
  status; the response is handed out only for \<open>IO4E_OK\<close> and freed otherwise; the mutex is released
  and one token taken. The call is undefined exactly for a response without context, and for a
  matching one that fails with a status outside the name table or without an error message: the
  code reads these without a check, so a device can crash the client.\<close>

theorem command_outcome:
  assumes "command_send methods pb cmd s = Some (IO4E_OK, s0)" "env s0 = Some s1"
    and "fb_inv s1" "0 < cmd_sem s1" "cmd_response s1 \<noteq> NULL"
    and "m_store (fb_heap s1) (cmd_response s1) = Some (OResponse r)"
  shows "command methods pb env cmd want s =
    (if res_context r = None \<or>
        strcmp_eq (the (res_context r)) (cmd_context s1) \<and> \<not> response_wf pb r then None
     else let err = command_verdict (cmd_context s1) r; keep = (err = IO4E_OK \<and> want) in
       Some (err, if keep then cmd_response s1 else NULL,
         s1\<lparr>cmd_sem := cmd_sem s1 - 1, cmd_mutex := False, cmd_response := NULL,
            cmd_context := context_after (cmd_context s1) r,
            fb_heap := (if keep then fb_heap s1
              else (fb_heap s1)\<lparr>m_store := (m_store (fb_heap s1))(cmd_response s1 := None)\<rparr>)\<rparr>))"
proof -
  let ?s2 = "s1\<lparr>cmd_sem := cmd_sem s1 - 1\<rparr>"
  have sem: "sem_timedwait (cmd_sem s1) (fb_now s0 + cmd_timeout s0) (fb_now s1)
      = (0, cmd_sem s1 - 1, fb_now s1)"
    using assms(4) by (simp add: sem_timedwait_def)
  have same: "s1\<lparr>cmd_sem := cmd_sem s1 - 1, fb_now := fb_now s1\<rparr> = ?s2" by (cases s1) simp
  have inv2: "fb_inv ?s2" using assms(3) by (rule fb_inv_sem) simp
  have "command methods pb env cmd want s =
      map_option (\<lambda>(err, res, s). (err, res, s\<lparr>cmd_mutex := False\<rparr>)) (command_finish pb want ?s2)"
    using assms(1,2) sem same
    by (simp add: command_def Let_def split_def map_conv_bind_option o_def)
  with command_finish_pending [OF inv2, of r pb want] assms(5,6) show ?thesis
    by (simp add: Let_def)
qed


text \<open>A transport that accepts every write, and a client with a pending response.\<close>

definition demo_methods :: "(unit, nat) transport_t" where
  "demo_methods = \<lparr>t_write_msg = \<lambda>h buf len. Some (IO4E_OK, h), t_read_msg = \<lambda>h t m. None,
     t_get_write_offset = \<lambda>h. 6, t_destroy = \<lambda>h n. (None, n)\<rparr>"

definition demo_pending :: "response \<Rightarrow> (unit, nat) fbsys" where
  "demo_pending r = \<lparr>fb_transport = (), cmd_context = [66, 0], cmd_timeout = 5,
     cmd_mutex = False, cmd_response = 1, cmd_sem = 1, fb_streamq = demo_streamq,
     fb_heap = \<lparr>m_store = [1 \<mapsto> OResponse r], m_next = 2, m_fail = []\<rparr>, fb_now = 100\<rparr>"

lemma demo_pending_inv: "type_case (res_type r) \<noteq> TYPE_STREAM \<Longrightarrow> fb_inv (demo_pending r)"
  by (simp add: fb_inv_def demo_pending_def demo_streamq_facts SEM_VALUE_MAX_def mem_wf_def NULL_def)

theorem command_outcome_witness:
  "command demo_methods echo_pb (\<lambda>s. Some (demo_pending \<lparr>res_context = None, res_status = STATUS_OK,
       res_error = None, res_type = RESPONSE_OTHER\<rparr>)) stop_cmd True
     (demo_pending \<lparr>res_context = None, res_status = STATUS_OK, res_error = None,
       res_type = RESPONSE_OTHER\<rparr>) = None"
proof -
  let ?r = "\<lparr>res_context = None, res_status = STATUS_OK, res_error = None,
    res_type = RESPONSE_OTHER\<rparr> :: response"
  have "command_send demo_methods echo_pb stop_cmd (demo_pending ?r)
      = Some (IO4E_OK, demo_pending ?r\<lparr>cmd_mutex := True, cmd_context := [67, 0]\<rparr>)"
    by (simp add: command_send_def command_advance_def demo_pending_def demo_methods_def array_get_def array_put_def)
  from command_outcome [OF this, where env = "\<lambda>s. Some (demo_pending ?r)" and r = ?r and want = True]
    demo_pending_inv [of ?r]
  show ?thesis by (simp add: demo_pending_def NULL_def)
qed

text \<open>Taking the oldest message from the queue makes it the user's.\<close>

lemma pop_stream:
  assumes "fb_inv s" "sq_list (fb_streamq s) = m # ms"
  obtains d q where "m_store (fb_heap s) m = Some (OStreamData d)" "get_stream_data m (fb_heap s) = Some d"
    "io4e_streamq_pop sz (fb_now s) (fb_streamq s) t = Some (IO4E_OK, Some m, q, fb_now s)" "sq_list q = ms"
    "fb_inv (s\<lparr>fb_streamq := q, fb_now := fb_now s\<rparr>)"
    "fb_loose (s\<lparr>fb_streamq := q, fb_now := fb_now s\<rparr>) = insert m (fb_loose s)" "m \<notin> fb_loose s"
proof -
  note I = fb_invD [OF assms(1)]
  from I(4) [of m] assms(2) obtain d where d: "m_store (fb_heap s) m = Some (OStreamData d)" by auto
  from I(2) assms(2) obtain q where q:
    "io4e_streamq_pop sz (fb_now s) (fb_streamq s) t = Some (IO4E_OK, Some m, q, fb_now s)"
    "sq_inv q" "sq_list q = ms" "q_capacity q = q_capacity (fb_streamq s)" by (rule pop_ok)
  let ?s = "s\<lparr>fb_streamq := q, fb_now := fb_now s\<rparr>"
  have get: "get_stream_data m (fb_heap s) = Some d" using I(1) d by (simp add: get_stream_data_def)
  have inv: "fb_inv ?s" using I q assms(2) by (simp add: fb_inv_def)
  have "cmd_response s \<noteq> m" using d I(5) NULL_not_live [OF I(1)]
    by (cases "cmd_response s = NULL") auto
  then have "fb_loose ?s = insert m (fb_loose s)" "m \<notin> fb_loose s"
    using assms(2) q(3) I(3) d by (auto simp: fb_loose_def fb_owned_def)
  with d get q inv show ?thesis by (intro that)
qed

text \<open>C29 Reading the stream takes the oldest message from the queue. It is handed out with the unpacked
  data when it has data that unpack; an empty queue gives \<open>IO4E_ERR_TIMEOUT\<close>. A message without data or
  with data that do not unpack gives \<open>IO4E_ERR_PROTOBUF\<close> and is lost: it is neither returned nor
  freed nor owned by the client any more.\<close>

theorem read_stream_outcome:
  assumes "fb_inv s" "m_fail (fb_heap s) = []"
  shows "\<exists>err sd fs s'. io4edge_functionblock_read_stream sz u t s = Some (err, sd, fs, s') \<and> fb_inv s' \<and>
    (case sq_list (fb_streamq s) of
       [] \<Rightarrow> err = IO4E_ERR_TIMEOUT \<and> sd = NULL \<and> fs = NULL \<and> fb_loose s' = fb_loose s
     | m # ms \<Rightarrow> sq_list (fb_streamq s') = ms \<and>
         (\<exists>d. m_store (fb_heap s) m = Some (OStreamData d) \<and>
           (case functionspecificstreamdata d of
              Some any \<Rightarrow>
                (case u (any_value any) of
                   Some x \<Rightarrow> err = IO4E_OK \<and> sd = m \<and> fs \<notin> live (fb_heap s) \<and>
                     m_store (fb_heap s') = (m_store (fb_heap s))(fs \<mapsto> OFs x) \<and>
                     fb_loose s' = insert fs (insert m (fb_loose s))
                 | None \<Rightarrow> err = IO4E_ERR_PROTOBUF \<and> sd = NULL \<and> fs = NULL \<and>
                     fb_loose s' = insert m (fb_loose s))
            | None \<Rightarrow> err = IO4E_ERR_PROTOBUF \<and> sd = NULL \<and> fs = NULL \<and>
                fb_loose s' = insert m (fb_loose s))))"
proof (cases "sq_list (fb_streamq s)")
  case Nil
  note I = fb_invD [OF assms(1)]
  let ?s = "s\<lparr>fb_streamq := fb_streamq s, fb_now := max (fb_now s) (get_timeout sz (fb_now s) (word_of_int t))\<rparr>"
  have "fb_inv ?s" "fb_loose ?s = fb_loose s"
    using assms(1) by (simp_all add: fb_inv_def fb_loose_def fb_owned_def)
  with pop_empty [OF I(2) Nil] Nil show ?thesis
    by (simp add: io4edge_functionblock_read_stream_def err_defs)
next
  case (Cons m ms)
  note I = fb_invD [OF assms(1)]
  obtain d q where d: "m_store (fb_heap s) m = Some (OStreamData d)" and get: "get_stream_data m (fb_heap s) = Some d"
    and q: "io4e_streamq_pop sz (fb_now s) (fb_streamq s) (word_of_int t) = Some (IO4E_OK, Some m, q, fb_now s)"
      "sq_list q = ms"
    and inv: "fb_inv (s\<lparr>fb_streamq := q, fb_now := fb_now s\<rparr>)"
    and loose: "fb_loose (s\<lparr>fb_streamq := q, fb_now := fb_now s\<rparr>) = insert m (fb_loose s)"
    by (rule pop_stream [OF assms(1) Cons])
  let ?s = "s\<lparr>fb_streamq := q, fb_now := fb_now s\<rparr>"
  note eq = io4edge_functionblock_read_stream_def [of sz u t s]
  show ?thesis
  proof (cases "functionspecificstreamdata d")
    case None
    with q(1,2) get inv loose d Cons show ?thesis by (simp add: eq)
  next
    case (Some any)
    obtain fs mm where un: "fs_unpack u (any_value any) (fb_heap s) = (fs, mm)" by fastforce
    show ?thesis
    proof (cases "u (any_value any)")
      case None
      with un have "fs = NULL" "mm = fb_heap s" by (simp_all add: fs_unpack_def)
      moreover have "?s\<lparr>fb_heap := fb_heap s\<rparr> = ?s" by (cases s) simp
      ultimately show ?thesis
        using q(1,2) get inv loose d Cons Some None un by (simp add: eq Let_def)
    next
      case x: (Some x)
      have mm: "fs = m_next (fb_heap s)" "m_store mm = (m_store (fb_heap s))(fs \<mapsto> OFs x)"
        using un x assms(2) by (auto simp: fs_unpack_def malloc_def)
      have fresh: "fs \<notin> live (fb_heap s)" "fs \<noteq> NULL"
        using mm(1) mem_wf_fresh [OF I(1)] mem_wf_next_pos [OF I(1)] by simp_all
      have "malloc (OFs x) (fb_heap s) = (fs, mm)" using un x by (simp add: fs_unpack_def)
      from malloc_wf [OF I(1) this] fresh(1) mm(2)
      have "fb_inv (?s\<lparr>fb_heap := mm\<rparr>)" "fb_loose (?s\<lparr>fb_heap := mm\<rparr>) = insert fs (fb_loose ?s)"
        using fb_inv_alloc [OF inv, of mm fs "OFs x"] by simp_all
      with q(1,2) get loose d Cons Some x un fresh mm(2) show ?thesis by (simp add: eq Let_def)
    qed
  qed
qed


definition demo_stream :: "any_pb option \<Rightarrow> (sock, nat) fbsys" where
  "demo_stream a = (demo_client [])\<lparr>
     fb_streamq := \<lparr>q_msg = [1, NULL], q_capacity = 2, q_write_idx = 1, q_read_idx = 0,
       q_nentries = 1, q_write_sem = 1, q_read_sem = 1, q_locked = False\<rparr>,
     fb_heap := \<lparr>m_store = [1 \<mapsto> OStreamData \<lparr>functionspecificstreamdata = a,
       deliverytimestampus = 0, sequence_no = 0\<rparr>], m_next = 2, m_fail = []\<rparr>\<rparr>"

lemma demo_stream_inv: "fb_inv (demo_stream a)" "sq_list (fb_streamq (demo_stream a)) = [1]"
  by (simp_all add: fb_inv_def demo_stream_def SEM_VALUE_MAX_def mem_wf_def sq_inv_def sq_list_def)

theorem read_stream_outcome_witness:
  "\<exists>s'. io4edge_functionblock_read_stream 8 (\<lambda>bs. Some (length bs)) 1 (demo_stream None)
       = Some (IO4E_ERR_PROTOBUF, NULL, NULL, s') \<and> 1 \<in> fb_loose s' \<and> sq_list (fb_streamq s') = []"
proof -
  have "m_fail (fb_heap (demo_stream None)) = []" by (simp add: demo_stream_def)
  from read_stream_outcome [OF demo_stream_inv(1) this, of 8 "\<lambda>bs. Some (length bs)" 1]
  show ?thesis by (auto simp: demo_stream_inv(2)) (auto simp: demo_stream_def)
qed

text \<open>The two outcomes of opening a connection and of making a queue.\<close>

lemma transport_new_cases:
  assumes "io4edge_transport_new host port n = Some (err, h, n')"
  obtains (fail) "h = None" "err \<noteq> IO4E_OK" "n_open n' = n_open n" "n_handles n' = n_handles n"
  | (connected) s where "h = Some s" "err = IO4E_OK"
      "n_open (snd (destroy (Some s) n')) = n_open n"
      "n_handles (snd (destroy (Some s) n')) = n_handles n" "fst (destroy (Some s) n') = None"
  using assms
  by (auto simp: io4edge_transport_new_def transport_connect_def sys_close_def destroy_def
      err_defs Let_def split: option.splits list.splits if_splits)

lemma streamq_new_cases:
  assumes "io4e_streamq_new CONFIG_STREAMQ_CAPACITY b = (err, q, b')"
  obtains (fail) "q = None" "err = IO4E_ERR_NO_MEM" "b_live b' = b_live b"
  | (ok) q' where "q = Some q'" "err = IO4E_OK" "b_live b' = b_live b + 2" "sq_inv q'"
      "sq_list q' = []" "q_capacity q' = 100"
proof (cases q)
  case None
  with assms fail show ?thesis
    by (auto simp: io4e_streamq_new_def calloc_block_def free_block_def split: if_splits)
next
  case (Some q')
  have cap: "0 < CONFIG_STREAMQ_CAPACITY" "CONFIG_STREAMQ_CAPACITY \<le> SEM_VALUE_MAX"
    by (simp_all add: CONFIG_STREAMQ_CAPACITY_def SEM_VALUE_MAX_def)
  from streamq_new_inv [OF cap assms [unfolded Some]] ok [OF Some] show ?thesis
    by (simp add: CONFIG_STREAMQ_CAPACITY_def)
qed

text \<open>C30 Creating and deleting a client: a failed creation (no memory at any of its three allocations,
  no connection, no thread) closes the socket and frees the handle, the queue and the client; a
  created client starts idle with context \<open>A\<close>, and deleting it gives back exactly the resources
  that the creation took.\<close>

theorem client_new_delete_resources:
  assumes "io4edge_functionblock_client_new_from_host_port host port tmo thread_ok n b
      = Some (err, h, n1, b1)"
  shows "(err = IO4E_OK \<longleftrightarrow> h \<noteq> None) \<and>
    (h = None \<longrightarrow> n_open n1 = n_open n \<and> n_handles n1 = n_handles n \<and> b_live b1 = b_live b) \<and>
    (\<forall>c. h = Some c \<longrightarrow> sq_inv (fb_streamq c) \<and> sq_list (fb_streamq c) = [] \<and>
       q_capacity (fb_streamq c) = 100 \<and> cmd_context c = [65, 0] \<and> cmd_response c = NULL \<and>
       cmd_sem c = 0 \<and> \<not> cmd_mutex c) \<and>
    (case io4edge_functionblock_client_delete h n1 b1 of (e, h', n2, b2) \<Rightarrow>
       e = IO4E_OK \<and> h' = None \<and> n_open n2 = n_open n \<and> n_handles n2 = n_handles n \<and>
       b_live b2 = b_live b)"
proof -
  obtain ok0 b0 where b0: "calloc_block b = (ok0, b0)" by fastforce
  show ?thesis
  proof (cases ok0)
    case False
    with assms b0 show ?thesis
      by (auto simp: io4edge_functionblock_client_new_from_host_port_def
          io4edge_functionblock_client_delete_def calloc_block_def err_defs split: if_splits)
  next
    case True
    then have live0: "b_live b0 = Suc (b_live b)"
      using b0 by (auto simp: calloc_block_def split: if_splits)
    from assms b0 True obtain terr tr n0 where
      tn: "io4edge_transport_new host port n = Some (terr, tr, n0)"
      by (auto simp: io4edge_functionblock_client_new_from_host_port_def bind_eq_Some_conv)
    obtain qerr q b2 where sq: "io4e_streamq_new CONFIG_STREAMQ_CAPACITY b0 = (qerr, q, b2)"
      by (metis prod_cases3)
    from tn show ?thesis
    proof (cases rule: transport_new_cases)
      case fail
      with assms b0 True tn live0 show ?thesis
        by (auto simp: io4edge_functionblock_client_new_from_host_port_def
            io4edge_functionblock_client_delete_def free_block_def err_defs)
    next
      case (connected s)
      from sq show ?thesis
      proof (cases rule: streamq_new_cases)
        case fail
        with assms b0 True tn connected sq live0 show ?thesis
          by (auto simp: io4edge_functionblock_client_new_from_host_port_def
              io4edge_functionblock_client_delete_def free_block_def err_defs Let_def split_def)
      next
        case (ok q')
        with assms b0 True tn connected sq live0 show ?thesis
          by (cases thread_ok)
             (auto simp: io4edge_functionblock_client_new_from_host_port_def
              io4edge_functionblock_client_delete_def free_block_def err_defs Let_def split_def
              io4e_streamq_delete_def sem_init_value_def)
      qed
    qed
  qed
qed


theorem client_new_delete_resources_witness:
  "\<exists>err h n1 b1. io4edge_functionblock_client_new_from_host_port ''device'' 10000 5 True demo_net
      \<lparr>b_fail = [], b_live = 0\<rparr> = Some (err, h, n1, b1) \<and> err = IO4E_OK \<and> h \<noteq> None \<and>
    (case io4edge_functionblock_client_delete h n1 b1 of (e, h', n2, b2) \<Rightarrow>
       e = IO4E_OK \<and> h' = None \<and> n_open n2 = n_open demo_net \<and>
       n_handles n2 = n_handles demo_net \<and> b_live b2 = 0)"
proof -
  have "\<exists>h n1 b1. io4edge_functionblock_client_new_from_host_port ''device'' 10000 5 True demo_net
      \<lparr>b_fail = [], b_live = 0\<rparr> = Some (IO4E_OK, h, n1, b1)"
    by (simp add: io4edge_functionblock_client_new_from_host_port_def calloc_block_def demo_net_def
        io4edge_transport_new_def transport_connect_def io4e_streamq_new_def err_defs Let_def
        CONFIG_STREAMQ_CAPACITY_def)
  then obtain h n1 b1 where new: "io4edge_functionblock_client_new_from_host_port ''device'' 10000 5
      True demo_net \<lparr>b_fail = [], b_live = 0\<rparr> = Some (IO4E_OK, h, n1, b1)" by blast
  from client_new_delete_resources [OF new] new show ?thesis by auto
qed

text \<open>One iteration of the reader on a frame with stream data: it ends as the push into the queue does.\<close>

lemma read_thread_body_stream:
  assumes "fb_inv s" "rd_quiet (fb_transport s)" "s_sel (fb_transport s) = []" "m_fail (fb_heap s) = []"
    and fd: "fd_set_ok (s_fd (fb_transport s))" and "s_in (fb_transport s) = frame data @ rest" "data \<noteq> []" "length data < 2 ^ 16"
    and "pb_unpack_response pb data = Some w" "res_type w = RESPONSE_STREAM d"
  obtains h sd dd m' where "s_in h = rest" "sd \<notin> live (fb_heap s)"
    "m_store m' = (m_store (fb_heap s))(sd \<mapsto> OStreamData dd)"
    "read_thread_body socket_methods pb sz s =
       map_option (\<lambda>(err, q, now). (True, s\<lparr>fb_transport := h, fb_heap := m', fb_streamq := q, fb_now := now\<rparr>))
         (io4e_streamq_push sz (fb_now s) (fb_streamq s) sd IO4E_FOREVER)"
proof -
  note I = fb_invD [OF assms(1)]
  obtain buf h m1 where rd: "read_msg (fb_transport s) 1 (fb_heap s)
      = Some (IO4E_OK, buf, Some (of_nat (length data)), h, m1)"
    "s_in h = rest" "s_out h = s_out (fb_transport s)" "buf \<noteq> NULL" "buf \<notin> live (fb_heap s)"
    "mem_wf m1" "m_fail m1 = []" "m_store m1 = (m_store (fb_heap s))(buf \<mapsto> OBuf data)"
    "(of_nat (length data) :: u32) \<noteq> 0" "unat (of_nat (length data) :: u32) = length data"
    "rd_quiet h" "s_sel h = []" "s_wr h = s_wr (fb_transport s) \<and> s_fd h = s_fd (fb_transport s)"
    by (rule read_msg_frame [OF I(1) assms(4,2,3) fd assms(7,8,6)])
  obtain p m2 where u: "response__unpack pb data m1 = (p, m2)" by fastforce
  have buf: "get_buf buf m1 = Some data" using rd(6,8) by (simp add: get_buf_def)
  have ok: "p \<noteq> NULL"
    using u assms(9,10) rd(7) mem_wf_next_pos [OF rd(6)]
    by (auto simp: response__unpack_def malloc_def NULL_def)
  from rd(6) u show ?thesis
  proof (cases rule: response__unpack_cases)
    case (stream r sd dd)
    let ?m3 = "m2\<lparr>m_store := (m_store m2)(buf := None)\<rparr>"
    have neq: "buf \<noteq> p" "buf \<noteq> sd" using stream(3,4) rd(8) by auto
    have fr: "free buf m2 = Some ?m3" using stream(2,7) rd(8) neq by simp
    have st: "m_store ?m3 = (m_store (fb_heap s))(sd \<mapsto> OStreamData dd, p \<mapsto> OResponse r)"
      using stream(7) rd(8) neq rd(5) [unfolded domIff not_not] by (simp add: fun_eq_iff)
    have fresh: "p \<notin> live (fb_heap s)" "sd \<notin> live (fb_heap s)"
      using stream(3,4) rd(8) by (auto split: if_splits)
    obtain m' where m': "m_store m' = (m_store (fb_heap s))(sd \<mapsto> OStreamData dd)"
      "read_thread_dispatch sz p (s\<lparr>fb_transport := h, fb_heap := ?m3\<rparr>) =
         map_option (\<lambda>(err, q, now). (True, s\<lparr>fb_transport := h, fb_heap := m', fb_streamq := q,
                                              fb_now := now\<rparr>))
           (io4e_streamq_push sz (fb_now s) (fb_streamq s) sd IO4E_FOREVER)"
      by (rule dispatch_stream [where sz = sz and h = h, OF assms(1) mem_wf_remove [OF stream(2)] st
          fresh(1) stream(6) [symmetric] stream(8)])
    have "read_thread_body socket_methods pb sz s = read_thread_dispatch sz p (s\<lparr>fb_transport := h, fb_heap := ?m3\<rparr>)"
      using rd(1,9,10) buf u ok fr by (simp add: read_thread_body_def socket_methods_def Let_def)
    with m' rd(2) fresh(2) that show ?thesis by simp
  qed (use ok assms(9,10) in auto)
qed

lemma forever_deadline:
  assumes "0 \<le> now" "now < 2 ^ 62"
  shows "get_timeout 8 now IO4E_FOREVER = now + 10000000000"
proof -
  have "uint (word_of_int now + IO4E_FOREVER) = now + uint IO4E_FOREVER"
    using assms by (intro uint_deadline) (simp_all add: IO4E_FOREVER_def)
  then show ?thesis using assms by (simp add: get_timeout_def Let_def sint_small_u64 IO4E_FOREVER_def)
qed

text \<open>C31 A slow consumer stops the reader: when the queue is full and the next message is stream data,
  the iteration does not end before \<open>IO4E_FOREVER\<close> seconds have passed (unless somebody reads the
  stream), so no response to any command is received in that time; and when it does end the
  message is lost without being freed.\<close>

theorem full_queue_stops_reader:
  assumes "fb_inv s" "length (sq_list (fb_streamq s)) = q_capacity (fb_streamq s)"
    and "rd_quiet (fb_transport s)" "s_sel (fb_transport s) = []" "m_fail (fb_heap s) = []"
    and "s_in (fb_transport s) = frame data @ rest" "data \<noteq> []" "length data < 2 ^ 16"
    and "pb_unpack_response pb data = Some w" "res_type w = RESPONSE_STREAM d"
    and "0 \<le> fb_now s" "fb_now s < 2 ^ 62" "fd_set_ok (s_fd (fb_transport s))"
  shows "\<exists>s' sd. read_thread_body socket_methods pb 8 s = Some (True, s') \<and>
    fb_now s + 10000000000 \<le> fb_now s' \<and> cmd_sem s' = cmd_sem s \<and>
    cmd_response s' = cmd_response s \<and> s_in (fb_transport s') = rest \<and>
    fb_streamq s' = fb_streamq s \<and> sd \<notin> fb_loose s \<and> fb_loose s' = insert sd (fb_loose s)"
proof -
  obtain h sd dd m' where r: "s_in h = rest" "sd \<notin> live (fb_heap s)"
    "m_store m' = (m_store (fb_heap s))(sd \<mapsto> OStreamData dd)"
    "read_thread_body socket_methods pb 8 s =
       map_option (\<lambda>(err, q, now). (True, s\<lparr>fb_transport := h, fb_heap := m', fb_streamq := q, fb_now := now\<rparr>))
         (io4e_streamq_push 8 (fb_now s) (fb_streamq s) sd IO4E_FOREVER)"
    by (rule read_thread_body_stream [OF assms(1,3-5,13,6-10), where sz = 8])
  let ?t = "max (fb_now s) (get_timeout 8 (fb_now s) IO4E_FOREVER)"
  let ?s = "s\<lparr>fb_transport := h, fb_heap := m', fb_streamq := fb_streamq s, fb_now := ?t\<rparr>"
  have body: "read_thread_body socket_methods pb 8 s = Some (True, ?s)"
    using r(4) push_full [OF fb_invD(2) [OF assms(1)] assms(2), where sz = 8 and msg = sd and t = IO4E_FOREVER]
    by simp
  have late: "fb_now s + 10000000000 \<le> fb_now ?s" using forever_deadline [OF assms(11,12)] by simp
  have "sd \<notin> fb_owned s" using assms(1) r(2) by (rule owned_not_fresh)
  then have "sd \<notin> fb_loose s \<and> fb_loose ?s = insert sd (fb_loose s)"
    using r(2,3) by (auto simp: fb_loose_def fb_owned_def)
  with body late r(1) show ?thesis
    by (intro exI [of _ ?s] exI [of _ sd]) simp
qed


definition demo_full :: "(sock, nat) fbsys" where
  "demo_full = (demo_client (frame [7]))\<lparr>
     fb_streamq := \<lparr>q_msg = [1], q_capacity = 1, q_write_idx = 0, q_read_idx = 0,
       q_nentries = 1, q_write_sem = 0, q_read_sem = 1, q_locked = False\<rparr>,
     fb_heap := \<lparr>m_store = [1 \<mapsto> OStreamData \<lparr>functionspecificstreamdata = None,
       deliverytimestampus = 0, sequence_no = 0\<rparr>], m_next = 2, m_fail = []\<rparr>\<rparr>"

definition stream_pb :: pb_api where
  "stream_pb = echo_pb\<lparr>pb_unpack_response := \<lambda>data. Some \<lparr>res_context = None, res_status = STATUS_OK,
     res_error = None, res_type = RESPONSE_STREAM \<lparr>functionspecificstreamdata = None,
       deliverytimestampus = 0, sequence_no = 1\<rparr>\<rparr>\<rparr>"

theorem full_queue_stops_reader_witness:
  "\<exists>s' sd. read_thread_body socket_methods stream_pb 8 demo_full = Some (True, s') \<and>
    fb_now demo_full + 10000000000 \<le> fb_now s' \<and> cmd_sem s' = cmd_sem demo_full \<and>
    cmd_response s' = cmd_response demo_full \<and> s_in (fb_transport s') = [] \<and>
    fb_streamq s' = fb_streamq demo_full \<and> sd \<notin> fb_loose demo_full \<and>
    fb_loose s' = insert sd (fb_loose demo_full)"
proof -
  have "fb_inv demo_full" "length (sq_list (fb_streamq demo_full)) = q_capacity (fb_streamq demo_full)"
    by (simp_all add: fb_inv_def demo_full_def SEM_VALUE_MAX_def mem_wf_def sq_inv_def sq_list_def)
  moreover have "fb_transport demo_full = demo_sock (frame [7])" "m_fail (fb_heap demo_full) = []"
    "fb_now demo_full = 100" by (simp_all add: demo_full_def demo_client_def)
  moreover have "pb_unpack_response stream_pb [7] = Some \<lparr>res_context = None, res_status = STATUS_OK,
     res_error = None, res_type = RESPONSE_STREAM \<lparr>functionspecificstreamdata = None,
       deliverytimestampus = 0, sequence_no = 1\<rparr>\<rparr>" by (simp add: stream_pb_def)
  ultimately show ?thesis
    by (intro full_queue_stops_reader [where data = "[7]" and w = "\<lparr>res_context = None,
        res_status = STATUS_OK, res_error = None, res_type = RESPONSE_STREAM
          \<lparr>functionspecificstreamdata = None, deliverytimestampus = 0, sequence_no = 1\<rparr>\<rparr>"
        and d = "\<lparr>functionspecificstreamdata = None, deliverytimestampus = 0, sequence_no = 1\<rparr>"]) (simp_all add: demo_wf)
qed

text \<open>Device statuses reach the caller unchanged: different statuses give different error codes
  (all unknown ones one code), only success gives \<open>IO4E_OK\<close>, and no status is reported with a code
  that the client uses for errors of its own.\<close>

theorem map_fb_error_faithful:
  "(map_fb_error a = IO4E_OK \<longleftrightarrow> a = STATUS_OK) \<and>
   (map_fb_error a = map_fb_error b \<longleftrightarrow>
      a = b \<or> map_fb_error a = IO4E_ERR_FB_UNKNOWN \<and> map_fb_error b = IO4E_ERR_FB_UNKNOWN) \<and>
   map_fb_error a \<notin> {IO4E_FAIL, IO4E_ERR_TIMEOUT, IO4E_ERR_NO_MEM, IO4E_ERR_PROTOBUF,
     IO4E_ERR_CONNECTION_CLOSED}"
  by (cases a; cases b) (simp_all add: err_defs fb_err_defs)

end
