(* ===== verification/Cancellation.thy ===== *)
theory Cancellation
  imports Exchange
begin

text \<open>
  What \<open>pthread_cancel\<close> does to the reader thread. Cancellation is deferred: the thread ends in the next
  call that POSIX or the C library makes a cancellation point, here \<open>select\<close>, \<open>read\<close>, \<open>sem_timedwait\<close> and
  the printing of a log message; whatever it has in hand there is lost. \<open>reader_points\<close> lists the states in
  which an iteration can end that way, \<open>reader_stop\<close> is the reader cancelled at the point of that number.
  (The two messages that the thread logs on its way out, after a failing \<open>sem_post\<close>, are not listed: a thread
  cancelled there leaves what one leaves that ends.)
\<close>

section \<open>Where the reader can be cancelled\<close>

datatype cancel_at = At_Select | At_Read | At_Push | At_Log

text \<open>The calls of \<open>read\<close> in \<open>read_complete\<close>.\<close>

function read_complete_points :: "sock \<Rightarrow> nat \<Rightarrow> sock list" where
  "read_complete_points s len =
     (if len = 0 then []
      else s # (case sys_read s len of
                  Some (Rd_Got bs, s') \<Rightarrow> read_complete_points s' (len - length bs)
                | _ \<Rightarrow> []))"
  by pat_completeness auto
termination
  by (relation "measure (\<lambda>(s, len). len)") (auto intro: sys_read_progress)

declare read_complete_points.simps [simp del]

text \<open>\<open>read_msg\<close>; the log messages before its returns, the last one with the payload not yet freed.\<close>

definition read_msg_points :: "sock \<Rightarrow> int \<Rightarrow> 'fs heap \<Rightarrow> (cancel_at \<times> sock \<times> 'fs heap) list" where
  "read_msg_points s timeout_seconds m =
     (At_Select, s, m) #
     (case sys_select s timeout_seconds of (ret, s0) \<Rightarrow>
      if ret = 0 then []
      else
        map (\<lambda>h. (At_Read, h, m)) (read_complete_points s0 FSTREAM_HEADER_SIZE) @
        (case read_complete s0 FSTREAM_HEADER_SIZE [] of None \<Rightarrow> [] | Some (ret, hdr, s1) \<Rightarrow>
         if ret = IO4E_ERR_CONNECTION_CLOSED \<or> ret = EAGAIN \<or> ret = EWOULDBLOCK then []
         else if ret \<noteq> IO4E_OK \<or> take (length magic_bytes) hdr \<noteq> magic_bytes then [(At_Log, s1, m)]
         else if hdr_len hdr = 0 then []
         else
           (case malloc (OBuf []) m of (payload, m1) \<Rightarrow>
            if payload = NULL then [(At_Log, s1, m1)]
            else
              map (\<lambda>h. (At_Read, h, m1)) (read_complete_points s1 (unat (hdr_len hdr))) @
              (case read_complete s1 (unat (hdr_len hdr)) [] of None \<Rightarrow> [] | Some (ret, data, s2) \<Rightarrow>
               if ret = IO4E_ERR_CONNECTION_CLOSED \<or> ret = IO4E_OK then [] else [(At_Log, s2, m1)]))))"

text \<open>
  The second part of an iteration: the wait for room in the queue, with the stream data in hand, and the
  warning about a response that \<open>command\<close> has not taken.
\<close>

definition dispatch_points ::
  "nat \<Rightarrow> ptr \<Rightarrow> (sock, 'fs) fbsys \<Rightarrow> (cancel_at \<times> (sock, 'fs) fbsys) list" where
  "dispatch_points sz res s =
     (case get_response res (fb_heap s) of
        None \<Rightarrow> []
      | Some r \<Rightarrow>
          (case res_type r of
             RESPONSE_STREAM sd \<Rightarrow>
               (case response__free_unpacked res ((fb_heap s)\<lparr>m_store := (m_store (fb_heap s))
                       (res \<mapsto> OResponse (r\<lparr>res_type := RESPONSE_STREAM NULL\<rparr>))\<rparr>) of
                  None \<Rightarrow> []
                | Some m \<Rightarrow>
                    (At_Push, s\<lparr>fb_heap := m\<rparr>) #
                    (case io4e_streamq_push sz (fb_now s) (fb_streamq s) sd IO4E_FOREVER of
                       None \<Rightarrow> []
                     | Some (err, q, now) \<Rightarrow>
                         if err = IO4E_OK then []
                         else [(At_Log, s\<lparr>fb_heap := m, fb_streamq := q, fb_now := now\<rparr>)]))
           | _ \<Rightarrow> if cmd_response s \<noteq> NULL then [(At_Log, s)] else []))"

definition reader_points :: "pb_api \<Rightarrow> nat \<Rightarrow> (sock, 'fs) fbsys \<Rightarrow> (cancel_at \<times> (sock, 'fs) fbsys) list" where
  "reader_points pb sz s =
     map (\<lambda>(at, h, m). (at, s\<lparr>fb_transport := h, fb_heap := m\<rparr>)) (read_msg_points (fb_transport s) 1 (fb_heap s)) @
     (case read_msg (fb_transport s) 1 (fb_heap s) of
        None \<Rightarrow> []
      | Some (err, res_buffer, len, h, m) \<Rightarrow>
          (let s = s\<lparr>fb_transport := h, fb_heap := m\<rparr> in
           if err \<noteq> IO4E_OK then if err = IO4E_ERR_TIMEOUT then [] else [(At_Log, s)]
           else if len = Some 0 then [(At_Log, s)]
           else
             (case (len, get_buf res_buffer (fb_heap s)) of
                (Some res_len, Some data) \<Rightarrow>
                  (case response__unpack pb (take (unat res_len) data) (fb_heap s) of (res, m) \<Rightarrow>
                   if res = NULL then [(At_Log, s\<lparr>fb_heap := m\<rparr>)]
                   else (case free res_buffer m of
                           None \<Rightarrow> []
                         | Some m \<Rightarrow> dispatch_points sz res (s\<lparr>fb_heap := m\<rparr>)))
              | _ \<Rightarrow> [])))"

text \<open>
  The reader waits, for bytes that the peer does not send, in \<open>read\<close>, or, with a message for the stream, for
  room in the queue, in \<open>push\<close>.
\<close>

definition reader_waits :: "pb_api \<Rightarrow> nat \<Rightarrow> (sock, 'fs) fbsys \<Rightarrow> bool" where
  "reader_waits pb sz s \<longleftrightarrow>
     read_msg (fb_transport s) 1 (fb_heap s) = None \<or>
     q_write_sem (fb_streamq s) = 0 \<and> At_Push \<in> fst ` set (reader_points pb sz s)"

lemma reader_points_length: "0 < length (reader_points pb sz s)"
  by (simp add: reader_points_def read_msg_points_def)

lemma reader_points_less: "\<not> k < length (reader_points pb sz s) \<Longrightarrow> k - length (reader_points pb sz s) < k"
  using reader_points_length [of pb sz s] by (intro diff_less) linarith+

text \<open>
  The reader cancelled at its cancellation point number \<open>k\<close> from now on. A reader that waits stays where it
  is; one that has ended stays as it is.
\<close>

function reader_stop :: "nat \<Rightarrow> pb_api \<Rightarrow> nat \<Rightarrow> (sock, 'fs) fbsys \<Rightarrow> (sock, 'fs) fbsys option" where
  "reader_stop k pb sz s =
     (let points = reader_points pb sz s in
      if \<not> fd_set_ok (s_fd (fb_transport s)) then None
      else if k < length points then Some (snd (points ! k))
      else if reader_waits pb sz s then Some (snd (last points))
      else do {
        (go_on, s) \<leftarrow> read_thread_body socket_methods pb sz s;
        if go_on then reader_stop (k - length points) pb sz s else Some s })"
  by pat_completeness auto
termination
  by (relation "measure fst") (auto intro: reader_points_less)

declare reader_stop.simps [simp del]


section \<open>What a cancelled reader leaves\<close>

definition message_at :: "'fs heap \<Rightarrow> ptr \<Rightarrow> bool" where
  "message_at m p \<longleftrightarrow> (\<exists>d. m_store m p = Some (OStreamData d)) \<or> (\<exists>r. m_store m p = Some (OResponse r))"

text \<open>
  The descriptor, the user's objects and the messages of the queue as before; beside them in the heap what the client owns, and at
  most one object more, the message or the receive buffer that the reader had in hand.
\<close>

definition reader_left :: "(sock, 'fs) fbsys \<Rightarrow> (sock, 'fs) fbsys \<Rightarrow> bool" where
  "reader_left s c \<longleftrightarrow>
     s_fd (fb_transport c) = s_fd (fb_transport s) \<and> mem_wf (fb_heap c) \<and>
     (\<forall>p \<in> fb_loose s \<union> set (sq_list (fb_streamq s)). m_store (fb_heap c) p = m_store (fb_heap s) p) \<and>
     (\<exists>q. \<forall>p \<in> live (fb_heap c) - fb_loose s.
        p \<in> fb_owned c \<and> message_at (fb_heap c) p \<or>
        p = q \<and> (message_at (fb_heap c) p \<or> (\<exists>b. m_store (fb_heap c) p = Some (OBuf b))))"

lemma owned_message: "fb_inv s \<Longrightarrow> p \<in> fb_owned s \<Longrightarrow> message_at (fb_heap s) p"
  by (auto simp: fb_owned_def message_at_def dest: fb_invD(4,5) split: if_splits)

text \<open>The heap with one object in the reader's hands, or none.\<close>

definition one_more :: "'fs heap \<Rightarrow> 'fs heap \<Rightarrow> bool" where
  "one_more m m' \<longleftrightarrow> mem_wf m' \<and>
     (m_store m' = m_store m \<or>
      (\<exists>p x. p \<notin> live m \<and> m_store m' = (m_store m)(p \<mapsto> x) \<and>
         ((\<exists>d. x = OStreamData d) \<or> (\<exists>r. x = OResponse r) \<or> (\<exists>b. x = OBuf b))))"

lemma one_more_same: "mem_wf m' \<Longrightarrow> m_store m' = m_store m \<Longrightarrow> one_more m m'"
  by (simp add: one_more_def)

lemma one_more_left:
  assumes "fb_inv s" "one_more (fb_heap s) (fb_heap c)" "s_fd (fb_transport c) = s_fd (fb_transport s)"
    "cmd_response c = cmd_response s" "fb_streamq c = fb_streamq s"
  shows "reader_left s c"
proof -
  have own: "fb_owned c = fb_owned s" using assms(4,5) by (simp add: fb_owned_def)
  have live: "p \<in> fb_owned s" if "p \<in> live (fb_heap s)" "p \<notin> fb_loose s" for p
    using that by (simp add: fb_loose_def)
  from assms(2) consider (same) "m_store (fb_heap c) = m_store (fb_heap s)"
    | (more) p x where "p \<notin> live (fb_heap s)" "m_store (fb_heap c) = (m_store (fb_heap s))(p \<mapsto> x)"
        "(\<exists>d. x = OStreamData d) \<or> (\<exists>r. x = OResponse r) \<or> (\<exists>b. x = OBuf b)"
    unfolding one_more_def by blast
  then show ?thesis
  proof cases
    case same
    then have "message_at (fb_heap c) p" if "p \<in> fb_owned s" for p
      using owned_message [OF assms(1) that] by (simp add: message_at_def)
    with same assms own live show ?thesis by (simp add: reader_left_def one_more_def)
  next
    case (more p x)
    have msg: "message_at (fb_heap c) p'" if "p' \<in> fb_owned s" for p'
      using owned_message [OF assms(1) that] more(1,2) fb_owned_live [OF assms(1)] that
      by (auto simp: message_at_def)
    have new: "message_at (fb_heap c) p \<or> (\<exists>b. m_store (fb_heap c) p = Some (OBuf b))"
      using more(2,3) by (auto simp: message_at_def)
    have "\<forall>p' \<in> live (fb_heap c) - fb_loose s. p' \<in> fb_owned s \<or> p' = p"
      using more(2) live by auto
    with own msg new have "\<forall>p' \<in> live (fb_heap c) - fb_loose s. p' \<in> fb_owned c \<and> message_at (fb_heap c) p' \<or>
        p' = p \<and> (message_at (fb_heap c) p' \<or> (\<exists>b. m_store (fb_heap c) p' = Some (OBuf b)))"
      by blast
    moreover have "\<forall>p' \<in> fb_loose s \<union> set (sq_list (fb_streamq s)). m_store (fb_heap c) p' = m_store (fb_heap s) p'"
      using more(1,2) fb_owned_live [OF assms(1)] by (auto simp: fb_loose_def fb_owned_def)
    moreover have "mem_wf (fb_heap c)" using assms(2) by (simp add: one_more_def)
    ultimately show ?thesis using assms(3) unfolding reader_left_def by blast
  qed
qed

lemma read_complete_points_fd: "h \<in> set (read_complete_points s len) \<Longrightarrow> s_fd h = s_fd s"
proof (induction s len rule: read_complete_points.induct)
  case (1 s len)
  show ?case
  proof (cases "\<exists>bs t. sys_read s len = Some (Rd_Got bs, t)")
    case True
    then obtain bs t where rd: "sys_read s len = Some (Rd_Got bs, t)" by blast
    with "1.prems" have "h = s \<or> len \<noteq> 0 \<and> h \<in> set (read_complete_points t (len - length bs))"
      by (auto simp: read_complete_points.simps [of s len] split: if_splits)
    with "1.IH" [OF _ rd refl refl] sys_read_frame(1) [OF rd] show ?thesis by auto
  next
    case False
    then have "h = s" using "1.prems"
      by (cases "sys_read s len")
         (auto simp: read_complete_points.simps [of s len] split: if_splits prod.splits rd_res.splits)
    then show ?thesis by simp
  qed
qed

lemma one_more_buf: "mem_wf m' \<Longrightarrow> p \<notin> live m \<Longrightarrow> m_store m' = (m_store m)(p \<mapsto> OBuf b) \<Longrightarrow> one_more m m'"
  unfolding one_more_def by blast

lemma one_more_stream:
  "mem_wf m' \<Longrightarrow> p \<notin> live m \<Longrightarrow> m_store m' = (m_store m)(p \<mapsto> OStreamData d) \<Longrightarrow> one_more m m'"
  unfolding one_more_def by blast

lemma one_more_response:
  "mem_wf m' \<Longrightarrow> p \<notin> live m \<Longrightarrow> m_store m' = (m_store m)(p \<mapsto> OResponse r) \<Longrightarrow> one_more m m'"
  unfolding one_more_def by blast

lemma malloc_one_more:
  assumes "mem_wf m" "malloc (OBuf b) m = (p, m')"
  shows "one_more m m'"
  using assms
proof (cases rule: malloc_cases)
  case fail
  with malloc_wf [OF assms] show ?thesis by (simp add: one_more_same)
next
  case ok
  from one_more_buf [OF malloc_wf [OF assms] ok(2,4)] show ?thesis .
qed

lemma read_msg_points_ok:
  assumes "mem_wf m" "(at, h, m') \<in> set (read_msg_points s t m)"
  shows "at \<noteq> At_Push \<and> s_fd h = s_fd s \<and> one_more m m'"
proof -
  obtain ret0 s0 where sel: "sys_select s t = (ret0, s0)" by fastforce
  obtain p m1 where p: "malloc (OBuf []) m = (p, m1)" by fastforce
  note heap = one_more_same [OF assms(1) refl] malloc_one_more [OF assms(1) p]
  note fd0 = sys_select_frame(1) [OF sel]
  show ?thesis
  proof (cases "read_complete s0 FSTREAM_HEADER_SIZE []")
    case None
    with assms(2) sel fd0 heap show ?thesis
      by (auto simp: read_msg_points_def dest!: read_complete_points_fd split: if_splits)
  next
    case (Some x)
    obtain ret hdr s1 where x: "x = (ret, hdr, s1)" by (cases x) auto
    with Some have hd: "read_complete s0 FSTREAM_HEADER_SIZE [] = Some (ret, hdr, s1)" by simp
    have fd1: "s_fd s1 = s_fd s" using fd0 read_complete_frame [OF hd] by simp
    show ?thesis
    proof (cases "read_complete s1 (unat (hdr_len hdr)) []")
      case None
      with assms(2) sel hd p fd0 fd1 heap show ?thesis
        by (auto simp: read_msg_points_def dest!: read_complete_points_fd split: if_splits)
    next
      case (Some y)
      obtain ret2 data s2 where y: "y = (ret2, data, s2)" by (cases y) auto
      with Some have pl: "read_complete s1 (unat (hdr_len hdr)) [] = Some (ret2, data, s2)" by simp
      have "s_fd s2 = s_fd s" using fd1 read_complete_frame [OF pl] by simp
      with assms(2) sel hd p pl fd0 fd1 heap show ?thesis
        by (auto simp: read_msg_points_def dest!: read_complete_points_fd split: if_splits)
    qed
  qed
qed

text \<open>The two kinds of response, in the heap and owned by nobody.\<close>

lemma dispatch_points_plain:
  assumes inv: "fb_inv s" and m: "mem_wf m" "m_store m = (m_store (fb_heap s))(p \<mapsto> OResponse r)"
    and p: "p \<notin> live (fb_heap s)" and tc: "type_case (res_type r) \<noteq> TYPE_STREAM"
    and c: "c \<in> set (dispatch_points sz p (s\<lparr>fb_transport := h, fb_heap := m\<rparr>))"
  shows "one_more (fb_heap s) (fb_heap (snd c)) \<and> fb_transport (snd c) = h \<and>
    cmd_response (snd c) = cmd_response s \<and> fb_streamq (snd c) = fb_streamq s"
proof -
  have "get_response p m = Some r" using m by (simp add: get_response_live)
  with c tc have "snd c = s\<lparr>fb_transport := h, fb_heap := m\<rparr>"
    by (cases "res_type r") (auto simp: dispatch_points_def split: if_splits)
  with one_more_response [OF m(1) p m(2)] show ?thesis by simp
qed

lemma dispatch_points_stream:
  assumes inv: "fb_inv s" and m: "mem_wf m"
    "m_store m = (m_store (fb_heap s))(sd \<mapsto> OStreamData d, p \<mapsto> OResponse r)"
    and p: "p \<notin> live (fb_heap s)" "p \<noteq> sd" "sd \<notin> live (fb_heap s)" and tc: "res_type r = RESPONSE_STREAM sd"
  shows "At_Push \<in> fst ` set (dispatch_points sz p (s\<lparr>fb_transport := h, fb_heap := m\<rparr>))"
    and "c \<in> set (dispatch_points sz p (s\<lparr>fb_transport := h, fb_heap := m\<rparr>)) \<Longrightarrow>
      one_more (fb_heap s) (fb_heap (snd c)) \<and> fb_transport (snd c) = h \<and>
      cmd_response (snd c) = cmd_response s \<and> fb_streamq (snd c) = fb_streamq s"
proof -
  note I = fb_invD [OF inv]
  let ?r = "r\<lparr>res_type := RESPONSE_STREAM NULL\<rparr>"
  let ?m1 = "m\<lparr>m_store := (m_store m)(p \<mapsto> OResponse ?r)\<rparr>"
  let ?m = "?m1\<lparr>m_store := (m_store ?m1)(p := None)\<rparr>"
  have wf1: "mem_wf ?m1" using m by (auto simp: mem_wf_def split: if_splits)
  have r: "get_response p m = Some r" using m by (simp add: get_response_live)
  have fr: "response__free_unpacked p ?m1 = Some ?m"
    using wf1 by (intro free_response_NULL_stream [of ?m1 p ?r]) simp_all
  have st: "m_store ?m = (m_store (fb_heap s))(sd \<mapsto> OStreamData d)"
    using m(2) p(2) p(1) [unfolded domIff not_not] by (simp add: fun_eq_iff)
  note one = one_more_stream [OF mem_wf_remove [OF wf1] p(3) st]
  let ?c = "s\<lparr>fb_transport := h, fb_heap := ?m\<rparr>"
  have pts: "dispatch_points sz p (s\<lparr>fb_transport := h, fb_heap := m\<rparr>) = (At_Push, ?c) #
      (case io4e_streamq_push sz (fb_now s) (fb_streamq s) sd IO4E_FOREVER of None \<Rightarrow> []
       | Some (err, q, now) \<Rightarrow>
           if err = IO4E_OK then [] else [(At_Log, ?c\<lparr>fb_streamq := q, fb_now := now\<rparr>)])"
    using r tc fr by (auto simp: dispatch_points_def split: option.split)
  then show "At_Push \<in> fst ` set (dispatch_points sz p (s\<lparr>fb_transport := h, fb_heap := m\<rparr>))" by simp
  have "q = fb_streamq s" if "io4e_streamq_push sz (fb_now s) (fb_streamq s) sd IO4E_FOREVER = Some (err, q, now)"
    "err \<noteq> IO4E_OK" for err q now
  proof (cases "length (sq_list (fb_streamq s)) < q_capacity (fb_streamq s)")
    case True
    from I(2) True obtain q' where
      "io4e_streamq_push sz (fb_now s) (fb_streamq s) sd IO4E_FOREVER = Some (IO4E_OK, q', fb_now s)" by (rule push_ok)
    with that show ?thesis by simp
  next
    case False
    then have "length (sq_list (fb_streamq s)) = q_capacity (fb_streamq s)"
      using length_sq_list_le [OF I(2)] by simp
    from push_full [OF I(2) this] that show ?thesis by simp
  qed
  with pts one show "one_more (fb_heap s) (fb_heap (snd c)) \<and> fb_transport (snd c) = h \<and>
      cmd_response (snd c) = cmd_response s \<and> fb_streamq (snd c) = fb_streamq s"
    if "c \<in> set (dispatch_points sz p (s\<lparr>fb_transport := h, fb_heap := m\<rparr>))"
    using that by (auto split: option.splits if_splits)
qed

text \<open>
  In every state in which an iteration can be cancelled; and when the iteration does not push, it makes no
  stream data.
\<close>

lemma reader_points_ok:
  assumes "rd_sound fd good (fb_transport s)" "fb_inv s"
  shows "(\<forall>c \<in> set (reader_points pb sz s). reader_left s (snd c)) \<and>
    (At_Push \<in> fst ` set (reader_points pb sz s) \<or>
     (\<forall>go_on s' p d. read_thread_body socket_methods pb sz s = Some (go_on, s') \<longrightarrow>
        m_store (fb_heap s') p = Some (OStreamData d) \<longrightarrow> p \<in> live (fb_heap s)))"
proof -
  note I = fb_invD [OF assms(2)]
  let ?in = "\<lambda>(at, h, m). (at, s\<lparr>fb_transport := h, fb_heap := m\<rparr>)"
  let ?pre = "map ?in (read_msg_points (fb_transport s) 1 (fb_heap s))"
  have pre: "reader_left s (snd c)" if "c \<in> set ?pre" for c
    using that read_msg_points_ok [OF I(1)] by (auto intro!: one_more_left [OF assms(2)])
  have post: "reader_left s (snd c)" if "fb_transport (snd c) = h" "s_fd h = s_fd (fb_transport s)"
    "one_more (fb_heap s) (fb_heap (snd c)) " "cmd_response (snd c) = cmd_response s" "fb_streamq (snd c) = fb_streamq s"
    for h and c :: "cancel_at \<times> (sock, 'a) fbsys"
    using that by (intro one_more_left [OF assms(2)]) simp_all
  have tail: "\<forall>c \<in> set (reader_points pb sz s). reader_left s (snd c)"
    if "reader_points pb sz s = ?pre @ cs" "s_fd h = s_fd (fb_transport s)"
      "\<And>c. c \<in> set cs \<Longrightarrow> one_more (fb_heap s) (fb_heap (snd c)) \<and> fb_transport (snd c) = h \<and>
         cmd_response (snd c) = cmd_response s \<and> fb_streamq (snd c) = fb_streamq s" for cs h
    using pre post [of _ h] that(2,3) unfolding that(1) set_append Ball_def Un_iff by blast
  from assms(1) I(1) show ?thesis
  proof (cases rule: source.read_cases [where t = 1])
    case blocked
    then have rd: "read_msg (fb_transport s) 1 (fb_heap s) = None" by (simp add: socket_methods_def)
    then have "reader_points pb sz s = ?pre" by (simp add: reader_points_def)
    with pre blocked show ?thesis by (auto simp: read_thread_body_def)
  next
    case (error err p l h m)
    then have rd: "read_msg (fb_transport s) 1 (fb_heap s) = Some (err, p, l, h, m)" by (simp add: socket_methods_def)
    then have "reader_points pb sz s = ?pre @
        (if err = IO4E_ERR_TIMEOUT then [] else [(At_Log, s\<lparr>fb_transport := h, fb_heap := m\<rparr>)])"
      using error(2) by (simp add: reader_points_def)
    with pre post [of _ h] socket_read_frame [OF rd] error one_more_same [OF error(4,5)] show ?thesis
      by (auto simp: read_thread_body_def split: if_splits)
  next
    case (empty h m)
    then have rd: "read_msg (fb_transport s) 1 (fb_heap s) = Some (IO4E_OK, NULL, Some 0, h, m)"
      by (simp add: socket_methods_def)
    then have "reader_points pb sz s = ?pre @ [(At_Log, s\<lparr>fb_transport := h, fb_heap := m\<rparr>)]"
      by (simp add: reader_points_def)
    with pre post [of _ h] socket_read_frame [OF rd] empty one_more_same [OF empty(3,4)] show ?thesis
      by (auto simp: read_thread_body_def)
  next
    case (data buf len data h m)
    then have rd: "read_msg (fb_transport s) 1 (fb_heap s) = Some (IO4E_OK, buf, Some len, h, m)"
      by (simp add: socket_methods_def)
    note fd = socket_read_frame [OF rd]
    obtain res m1 where u: "response__unpack pb data m = (res, m1)" by fastforce
    let ?m = "m1\<lparr>m_store := (m_store m1)(buf := None)\<rparr>"
    have buf: "get_buf buf m = Some data" using data(3,8) by (simp add: get_buf_def)
    have old: "(m_store m)(buf := None) = m_store (fb_heap s)" "m_store (fb_heap s) buf = None"
      using data(7) [unfolded domIff not_not] data(8) by (simp_all add: fun_eq_iff)
    have pts: "reader_points pb sz s = ?pre @
        (if res = NULL then [(At_Log, s\<lparr>fb_transport := h, fb_heap := m1\<rparr>)]
         else (case free buf m1 of None \<Rightarrow> []
               | Some m \<Rightarrow> dispatch_points sz res (s\<lparr>fb_transport := h, fb_heap := m\<rparr>)))"
      using rd data(4,5) u buf by (auto simp: reader_points_def Let_def split: option.split)
    have body: "read_thread_body socket_methods pb sz s = do {
        m \<leftarrow> free buf m1;
        if res = NULL then Some (True, s\<lparr>fb_transport := h, fb_heap := m\<rparr>)
        else read_thread_dispatch sz res (s\<lparr>fb_transport := h, fb_heap := m\<rparr>) }"
      using data(1,4,5) u buf by (simp add: read_thread_body_def Let_def)
    from data(3) u show ?thesis
    proof (cases rule: response__unpack_cases)
      case none
      then have fr: "free buf m1 = Some ?m" using data(8) by simp
      have "one_more (fb_heap s) m1"
        using none(2,3) data(7,8) by (intro one_more_buf) simp_all
      with pts none(1) pre post [of _ h] fd have "\<forall>c \<in> set (reader_points pb sz s). reader_left s (snd c)" by auto
      moreover have "m_store ?m = m_store (fb_heap s)" using none(3) old by simp
      ultimately show ?thesis using body fr none(1) by auto
    next
      case (stream r sd d)
      have neq: "buf \<noteq> res" "buf \<noteq> sd" using stream(3,4) data(8) by auto
      have fr: "free buf m1 = Some ?m" using stream(2,7) data(8) neq by simp
      have st: "m_store ?m = (m_store (fb_heap s))(sd \<mapsto> OStreamData d, res \<mapsto> OResponse r)"
        using stream(7) old neq by (simp add: fun_upd_twist)
      have fresh: "res \<notin> live (fb_heap s)" "sd \<notin> live (fb_heap s)"
        using stream(3,4) data(8) by (auto split: if_splits)
      note D = dispatch_points_stream [OF assms(2) mem_wf_remove [OF stream(2)] st fresh(1) stream(6) [symmetric] fresh(2) stream(8),
          where sz = sz and h = h]
      from pts fr stream(1) have "reader_points pb sz s =
          ?pre @ dispatch_points sz res (s\<lparr>fb_transport := h, fb_heap := ?m\<rparr>)" by simp
      moreover from this have "\<forall>c \<in> set (reader_points pb sz s). reader_left s (snd c)"
        by (rule tail) (use fd D(2) in simp_all)
      ultimately show ?thesis using D(1) by (simp add: image_Un)
    next
      case (plain r)
      have neq: "buf \<noteq> res" using plain(3) data(8) by auto
      have fr: "free buf m1 = Some ?m" using plain(2,4) data(8) neq by simp
      have st: "m_store ?m = (m_store (fb_heap s))(res \<mapsto> OResponse r)"
        using plain(4) old neq by (simp add: fun_upd_twist)
      have fresh: "res \<notin> live (fb_heap s)" using plain(3) data(8) by (auto split: if_splits)
      note D = dispatch_points_plain [OF assms(2) mem_wf_remove [OF plain(2)] st fresh plain(5), where sz = sz and h = h]
      from pts fr plain(1) have "reader_points pb sz s =
          ?pre @ dispatch_points sz res (s\<lparr>fb_transport := h, fb_heap := ?m\<rparr>)" by simp
      then have "\<forall>c \<in> set (reader_points pb sz s). reader_left s (snd c)"
        by (rule tail) (use fd D in simp_all)
      moreover obtain m' where m': "m_store m' = (m_store (fb_heap s))(cmd_response s := None, res \<mapsto> OResponse r)"
        "cmd_sem s < SEM_VALUE_MAX \<longrightarrow> read_thread_dispatch sz res (s\<lparr>fb_transport := h, fb_heap := ?m\<rparr>)
           = Some (True, s\<lparr>fb_transport := h, fb_heap := m', cmd_response := res, cmd_sem := Suc (cmd_sem s)\<rparr>)"
        "cmd_sem s = SEM_VALUE_MAX \<longrightarrow> read_thread_dispatch sz res (s\<lparr>fb_transport := h, fb_heap := ?m\<rparr>)
           = Some (False, s\<lparr>fb_transport := h, cmd_response := res,
                           fb_heap := m'\<lparr>m_store := (m_store m')(res := None)\<rparr>\<rparr>)"
        by (rule dispatch_plain [where sz = sz and h = h, OF assms(2) mem_wf_remove [OF plain(2)] st fresh plain(1,5)])
      have "\<forall>go_on s' p d. read_thread_body socket_methods pb sz s = Some (go_on, s') \<longrightarrow>
          m_store (fb_heap s') p = Some (OStreamData d) \<longrightarrow> p \<in> live (fb_heap s)"
      proof (cases "cmd_sem s < SEM_VALUE_MAX")
        case True
        with m'(1,2) body fr plain(1) show ?thesis by (auto split: if_splits)
      next
        case False
        with I(7) have "cmd_sem s = SEM_VALUE_MAX" by simp
        with m'(1,3) body fr plain(1) show ?thesis by (auto split: if_splits)
      qed
      ultimately show ?thesis by blast
    qed
  qed
qed


section \<open>Stopping the reader\<close>

text \<open>A reader that does not wait finishes its iteration.\<close>

lemma running_reader:
  assumes "rd_sound fd good (fb_transport s)" "fb_inv s" "\<not> reader_waits pb sz s"
  obtains (goes_on) s' where "read_thread_body socket_methods pb sz s = Some (True, s')"
      "rd_sound fd good (fb_transport s')" "fb_inv s'" "reader_frame s s'"
      "good = msg_wf pb ok \<Longrightarrow> pending_wf pb ok s \<Longrightarrow> pending_wf pb ok s'"
  | (dead) s' where "read_thread_body socket_methods pb sz s = Some (False, s')" "reader_left s s'"
      "cmd_sem s = SEM_VALUE_MAX"
  using assms(1,2)
proof (cases rule: source.read_thread_body_outcome [where sz = sz and pb = pb and ok = ok])
  case blocked
  with assms(3) show ?thesis by (simp add: reader_waits_def socket_methods_def)
next
  case (goes_on s')
  with that(1) show ?thesis by simp
next
  case (dropped s' sd d)
  have "At_Push \<in> fst ` set (reader_points pb sz s)"
    using reader_points_ok [OF assms(1,2), of pb sz] dropped(1,5,6) by (metis fun_upd_same)
  moreover have "q_write_sem (fb_streamq s) = 0" using fb_invD(2) [OF assms(2)] dropped(7)
    by (auto simp: sq_inv_def sq_list_def nat_eq_iff)
  ultimately show ?thesis using assms(3) by (simp add: reader_waits_def)
next
  case (dead s')
  note I = fb_invD [OF assms(2)]
  have fd: "s_fd (fb_transport s') = s_fd (fb_transport s)" using dead(2) assms(1) by (simp add: rd_sound_def)
  have "p \<in> fb_owned s' \<and> message_at (fb_heap s') p" if "p \<in> live (fb_heap s')" "p \<notin> fb_loose s" for p
  proof -
    have "p \<in> live (fb_heap s)" "p \<noteq> cmd_response s" using that(1) dead(4) by (auto split: if_splits)
    moreover from this(1) that(2) have "p \<in> fb_owned s" by (simp add: fb_loose_def)
    ultimately have "p \<in> set (sq_list (fb_streamq s))" by (auto simp: fb_owned_def split: if_splits)
    with dead(4,5) I(4) [OF this] \<open>p \<noteq> cmd_response s\<close> show ?thesis by (auto simp: fb_owned_def message_at_def)
  qed
  moreover have "m_store (fb_heap s') p = m_store (fb_heap s) p"
    if "p \<in> fb_loose s \<union> set (sq_list (fb_streamq s))" for p
    using that dead(4) NULL_not_live [OF I(1)] pending_not_queued [OF assms(2)]
    by (auto simp: fb_loose_def fb_owned_def split: if_splits)
  ultimately have "reader_left s s'" using fd dead(3) by (simp add: reader_left_def)
  with dead(1,6) that(2) show ?thesis by simp
qed

text \<open>What an iteration does before does not change what the cancelled reader leaves.\<close>

lemma reader_left_after:
  assumes "reader_frame s s1" "s_fd (fb_transport s1) = s_fd (fb_transport s)" "reader_left s1 c"
  shows "reader_left s c"
  using assms unfolding reader_left_def reader_frame_def by auto

lemma reader_stop_left:
  "rd_sound fd good (fb_transport s) \<Longrightarrow> fb_inv s \<Longrightarrow> \<exists>c. reader_stop k pb sz s = Some c \<and> reader_left s c"
proof (induction k pb sz s rule: reader_stop.induct)
  case (1 k pb sz s)
  let ?pts = "reader_points pb sz s"
  have fd: "fd_set_ok (s_fd (fb_transport s))" using "1.prems"(1) by (simp add: rd_sound_def)
  from reader_points_ok [OF "1.prems"] have left: "reader_left s (snd c)" if "c \<in> set ?pts" for c
    using that by blast
  show ?case
  proof (cases "k < length ?pts \<or> reader_waits pb sz s")
    case True
    with left [of "?pts ! k"] left [of "last ?pts"] reader_points_length [of pb sz s] fd show ?thesis
      by (auto simp: reader_stop.simps [of k] Let_def)
  next
    case False
    then have F: "\<not> k < length ?pts" "\<not> reader_waits pb sz s" by simp_all
    from "1.prems" F(2) show ?thesis
    proof (cases rule: running_reader [where ok = "\<lambda>_. True"])
      case (goes_on s')
      have "s_fd (fb_transport s') = s_fd (fb_transport s)"
        using goes_on(2) "1.prems"(1) by (simp add: rd_sound_def)
      note after = reader_left_after [OF goes_on(4) this]
      have "\<not> \<not> fd_set_ok (s_fd (fb_transport s))" using fd by simp
      from "1.IH" [OF refl this F goes_on(1) refl _ goes_on(2,3)] goes_on(1) F after fd show ?thesis
        by (auto simp: reader_stop.simps [of k] Let_def)
    next
      case (dead s')
      with F fd show ?thesis by (simp add: reader_stop.simps [of k] Let_def)
    qed
  qed
qed

end
