(* ===== verification/Client_State.thy ===== *)
theory Client_State
  imports Cancellation
begin

text \<open>
  The state of a client between two calls (\<open>steady\<close>), and what the reader thread does while a call waits
  (\<open>reader_turn\<close>): it works as long as it does not itself wait, in \<open>read\<close> for a peer that has stopped sending
  or in \<open>push\<close> for room in the queue. The reader fulfils the contract of the commands, so all requests return
  and keep the client.
\<close>

section \<open>The reader thread beside a program\<close>

text \<open>
  At most \<open>n\<close> iterations; none while the next one would wait. (The thread's end, after
  \<open>SEM_VALUE_MAX\<close> responses that nobody took, is left out.)
\<close>

fun reader_turn :: "nat \<Rightarrow> pb_api \<Rightarrow> nat \<Rightarrow> (sock, 'fs) fbsys \<Rightarrow> (sock, 'fs) fbsys option" where
  "reader_turn 0 pb sz s = Some s"
| "reader_turn (Suc n) pb sz s =
     (if cmd_sem s < SEM_VALUE_MAX \<and> \<not> reader_waits pb sz s
      then do { (go_on, s) \<leftarrow> read_thread_body socket_methods pb sz s;
                if go_on then reader_turn n pb sz s else Some s }
      else Some s)"

text \<open>
  The state between two calls: a connection on which writes get through and on which the messages in the
  peer's frames, as far as it has sent any, are well-formed (\<open>msg_wf\<close>); the client's invariant; a free mutex.
\<close>

definition steady :: "int \<Rightarrow> pb_api \<Rightarrow> (stream_data \<Rightarrow> bool) \<Rightarrow> (sock, 'fs) fbsys \<Rightarrow> bool" where
  "steady fd pb ok s \<longleftrightarrow>
     sock_live fd (msg_wf pb ok) (fb_transport s) \<and> fb_inv s \<and> pending_wf pb ok s \<and> \<not> cmd_mutex s"

lemma read_thread_body_wr_live:
  assumes "read_thread_body socket_methods pb sz s = Some (go_on, s')"
    and "rd_sound fd good (fb_transport s)" "fb_inv s" "wr_live (fb_transport s)"
  shows "wr_live (fb_transport s')"
proof -
  have "sock_live fd good (fb_transport s)" using assms(2,4) by (simp add: sock_live_def)
  from this assms(3) have "sock_live fd good (fb_transport s')"
    by (cases rule: socket.read_thread_body_outcome [where sz = sz and pb = pb]) (use assms(1) in simp_all)
  then show ?thesis by (simp add: sock_live_def)
qed

lemma reader_turn_sound:
  "rd_sound fd good (fb_transport s) \<Longrightarrow> fb_inv s \<Longrightarrow> \<exists>s'. reader_turn n pb sz s = Some s' \<and>
     rd_sound fd good (fb_transport s') \<and> fb_inv s' \<and> reader_frame s s' \<and>
     (good = msg_wf pb ok \<longrightarrow> pending_wf pb ok s \<longrightarrow> pending_wf pb ok s') \<and>
     (wr_live (fb_transport s) \<longrightarrow> wr_live (fb_transport s'))"
proof (induction n arbitrary: s)
  case 0
  then show ?case by (simp add: reader_frame_refl)
next
  case (Suc n)
  show ?case
  proof (cases "cmd_sem s < SEM_VALUE_MAX \<and> \<not> reader_waits pb sz s")
    case True
    then have "\<not> reader_waits pb sz s" by simp
    with Suc.prems show ?thesis
    proof (cases rule: running_reader [where ok = ok])
      case (goes_on s1)
      note wr = read_thread_body_wr_live [OF goes_on(1) Suc.prems]
      from Suc.IH [OF goes_on(2,3)] goes_on(1,4,5) wr True show ?thesis
        by (auto intro: reader_frame_trans)
    next
      case (dead s1)
      with True show ?thesis by simp
    qed
  next
    case False
    with Suc.prems show ?thesis by (auto simp: reader_frame_refl)
  qed
qed

interpretation turn_fb: command_contract socket_methods "sock_live fd (msg_wf pb ok)" "msg_wf pb ok" pb ok
    "reader_turn n pb sz" for fd pb ok n sz
proof unfold_locales
  fix s :: "(sock, 'a) fbsys"
  assume "sock_live fd (msg_wf pb ok) (fb_transport s)" "fb_inv s" "pending_wf pb ok s"
  with reader_turn_sound [of fd "msg_wf pb ok" s n pb sz ok]
  show "\<exists>s'. reader_turn n pb sz s = Some s' \<and>
      sock_live fd (msg_wf pb ok) (fb_transport s') \<and> fb_inv s' \<and> pending_wf pb ok s' \<and> reader_frame s s'"
    by (auto simp: sock_live_def)
qed

lemma steady_iff: "turn_fb.ready fd pb ok s \<longleftrightarrow> steady fd pb ok s"
  by (auto simp: turn_fb.ready_def steady_def)

text \<open>The requests, each with its outcome and the state it leaves.\<close>

lemmas upload_steady = turn_fb.upload_configuration_done [unfolded steady_iff]
lemmas download_steady = turn_fb.download_configuration_done [unfolded steady_iff]
lemmas describe_steady = turn_fb.describe_done [unfolded steady_iff]
lemmas function_control_get_steady = turn_fb.function_control_get_done [unfolded steady_iff]
lemmas function_control_set_unpack_steady = turn_fb.function_control_set_unpack_done [unfolded steady_iff]
lemmas function_control_set_steady = turn_fb.function_control_set_plain_done [unfolded steady_iff]
lemmas start_stream_steady = turn_fb.start_stream_done [unfolded steady_iff]
lemmas stop_stream_steady = turn_fb.stop_stream_done [unfolded steady_iff]


section \<open>A device that stops in the middle of a frame\<close>

text \<open>
  A client between two calls whose device has sent the first \<open>k\<close> bytes of a frame, not the rest, and keeps
  the connection open. The reader waits for the rest. \<open>commands_beside\<close> are the commands of one user
  beside such a reader.
\<close>

definition stalled :: "bytes \<Rightarrow> nat \<Rightarrow> (sock, 'fs) fbsys \<Rightarrow> bool" where
  "stalled p k s \<longleftrightarrow>
     client_idle s \<and> s_open (fb_transport s) \<and> length p < 2 ^ 16 \<and> 0 < k \<and> k < length (frame p) \<and>
     s_in (fb_transport s) = take k (frame p)"

fun commands_beside ::
  "((sock, 'fs) fbsys \<Rightarrow> (sock, 'fs) fbsys option) \<Rightarrow> pb_api \<Rightarrow> (command_pb \<times> bool) list \<Rightarrow>
   (sock, 'fs) fbsys \<Rightarrow> (io4e_err_t list \<times> (sock, 'fs) fbsys) option" where
  "commands_beside env pb [] s = Some ([], s)"
| "commands_beside env pb ((cmd, want) # cmds) s = do {
     (err, res, s) \<leftarrow> command socket_methods pb env cmd want s;
     (errs, s) \<leftarrow> commands_beside env pb cmds s;
     Some (err # errs, s) }"

lemma stalled_reader:
  fixes h :: sock and s :: "(sock, 'fs) fbsys"
  assumes "s_open h" "s_in h = take k (frame p)" "rd_quiet h" "s_sel h = []" "fd_set_ok (s_fd h)"
    and "mem_wf (fb_heap s)" "m_fail (fb_heap s) = []" "length p < 2 ^ 16" "0 < k" "k < length (frame p)"
  shows "reader_turn n pb sz (s\<lparr>fb_transport := h\<rparr>) = Some (s\<lparr>fb_transport := h\<rparr>)"
proof -
  have "read_msg h 1 (fb_heap s) = None"
    by (rule read_msg_in_frame [where p = p and k = k]) (use assms in simp_all)
  then show ?thesis by (cases n) (simp_all add: reader_waits_def)
qed

lemma stalled_waits:
  assumes "stalled p k s"
  shows "reader_waits pb sz s"
proof -
  have "read_msg (fb_transport s) 1 (fb_heap s) = None"
    by (rule read_msg_in_frame [where p = p and k = k])
       (use assms in \<open>simp_all add: stalled_def client_idle_def fb_invD(1)\<close>)
  then show ?thesis by (simp add: reader_waits_def)
qed

lemma stalled_command:
  assumes st: "stalled p k s" and c: "cmd_context s = [c, 0]"
    and len: "FSTREAM_HEADER_SIZE + length (packed_command pb cmd [c + 1, 0]) < 2 ^ 32"
  obtains s' where "command socket_methods pb (reader_turn n pb sz) cmd want s
      = Some (IO4E_ERR_TIMEOUT, NULL, s')" "stalled p k s'" "cmd_context s' = [c + 1, 0]"
    "fb_heap s' = fb_heap s" "fb_streamq s' = fb_streamq s" "cmd_response s' = cmd_response s"
    "fb_now s + cmd_timeout s \<le> fb_now s'" "cmd_timeout s' = cmd_timeout s"
proof -
  from st have idle: "client_idle s" and s: "s_open (fb_transport s)" "length p < 2 ^ 16" "0 < k"
    "k < length (frame p)" "s_in (fb_transport s) = take k (frame p)"
    by (simp_all add: stalled_def)
  from idle have i: "rd_quiet (fb_transport s)" "s_sel (fb_transport s) = []" "fd_set_ok (s_fd (fb_transport s))"
    "mem_wf (fb_heap s)" "m_fail (fb_heap s) = []"
    by (simp_all add: client_idle_def fb_invD(1))
  show ?thesis
  proof (rule unanswered_command [OF idle c len, where env = "reader_turn n pb sz" and want = want])
    fix h :: sock
    assume "s_in h = s_in (fb_transport s)" "s_rd h = s_rd (fb_transport s)" "s_sel h = s_sel (fb_transport s)"
      "s_fd h = s_fd (fb_transport s)" "s_open h = s_open (fb_transport s)"
    then show "reader_turn n pb sz (s\<lparr>cmd_mutex := True, cmd_context := [c + 1, 0], fb_transport := h\<rparr>)
        = Some (s\<lparr>cmd_mutex := True, cmd_context := [c + 1, 0], fb_transport := h\<rparr>)"
      using stalled_reader [where h = h and s = "s\<lparr>cmd_mutex := True, cmd_context := [c + 1, 0]\<rparr>"] s i
      by (simp add: rd_quiet_def)
  next
    fix s'
    assume "command socket_methods pb (reader_turn n pb sz) cmd want s = Some (IO4E_ERR_TIMEOUT, NULL, s')"
      "client_idle s'" "cmd_context s' = [c + 1, 0]" "s_in (fb_transport s') = s_in (fb_transport s)"
      "fb_heap s' = fb_heap s" "cmd_response s' = cmd_response s" "fb_streamq s' = fb_streamq s"
      "fb_now s + cmd_timeout s \<le> fb_now s'" "cmd_timeout s' = cmd_timeout s"
      "s_open (fb_transport s') = s_open (fb_transport s)"
    with s show ?thesis by (intro that [of s']) (simp_all add: stalled_def)
  qed
qed

lemma stalled_commands:
  "stalled p k s \<Longrightarrow> cmd_context s = [c, 0] \<Longrightarrow> commands_fit pb (map fst cmds) \<Longrightarrow>
   \<exists>s'. commands_beside (reader_turn n pb sz) pb cmds s = Some (replicate (length cmds) IO4E_ERR_TIMEOUT, s') \<and>
     stalled p k s' \<and> cmd_context s' = [c + of_nat (length cmds), 0] \<and> fb_heap s' = fb_heap s \<and>
     fb_streamq s' = fb_streamq s \<and> fb_now s + int (length cmds) * cmd_timeout s \<le> fb_now s'"
proof (induction cmds arbitrary: s c)
  case Nil
  then show ?case by simp
next
  case (Cons cw cmds)
  obtain cmd want where cw: "cw = (cmd, want)" by fastforce
  from Cons.prems(3) cw have fit: "FSTREAM_HEADER_SIZE + length (packed_command pb cmd [c + 1, 0]) < 2 ^ 32"
    "commands_fit pb (map fst cmds)" by (simp_all add: commands_fit_def)
  obtain s1 where s1: "command socket_methods pb (reader_turn n pb sz) cmd want s
      = Some (IO4E_ERR_TIMEOUT, NULL, s1)" "stalled p k s1" "cmd_context s1 = [c + 1, 0]"
    "fb_heap s1 = fb_heap s" "fb_streamq s1 = fb_streamq s" "cmd_response s1 = cmd_response s"
    "fb_now s + cmd_timeout s \<le> fb_now s1" "cmd_timeout s1 = cmd_timeout s"
    by (rule stalled_command [OF Cons.prems(1,2) fit(1), of n sz want])
  from Cons.IH [OF s1(2,3) fit(2)] s1 cw show ?case by (auto simp: algebra_simps)
qed


section \<open>Properties\<close>

text \<open>The example device: whatever it sends unpacks to a response that \<open>command\<close> can look at.\<close>

lemma echo_msg_wf: "msg_wf echo_pb ok bs"
  by (cases bs) (simp_all add: msg_wf_def echo_pb_def response_wf_def status_in_table_def)

lemma demo_frames: "frames_ok (msg_wf echo_pb ok) bs"
  by (simp add: frames_ok_def list_all_iff echo_msg_wf)

lemma demo_sock_live: "frames_ok good x \<Longrightarrow> sock_live 3 good (demo_sock x)"
  using demo_live [of x] demo_wf(4,8) [of x] by (simp add: sock_live_def rd_sound_def) (simp add: demo_sock_def)

lemma demo_steady: "steady 3 echo_pb ok (demo_client x)"
  using demo_client_inv demo_sock_live [OF demo_frames]
  by (simp add: steady_def pending_wf_def demo_streamq_facts) (simp add: demo_heap_def)



text \<open>
  What one iteration of the reader can do: wait for ever in \<open>read\<close> (\<open>None\<close>), go on with the client kept or
  with one message of the stream lost, which nobody owns, or end the thread.
\<close>

definition message_lost :: "(sock, 'fs) fbsys \<Rightarrow> (sock, 'fs) fbsys \<Rightarrow> bool" where
  "message_lost s s' \<longleftrightarrow>
     length (sq_list (fb_streamq s)) = q_capacity (fb_streamq s) \<and> fb_streamq s' = fb_streamq s \<and>
     (\<exists>sd d. sd \<notin> live (fb_heap s) \<and> m_store (fb_heap s') = (m_store (fb_heap s))(sd \<mapsto> OStreamData d) \<and>
        fb_loose s' = insert sd (fb_loose s))"

definition iteration_outcome :: "(sock, 'fs) fbsys \<Rightarrow> (bool \<times> (sock, 'fs) fbsys) option \<Rightarrow> bool" where
  "iteration_outcome s r =
     (case r of
        None \<Rightarrow>
          (let h = fb_transport s in s_open h \<and>
             (length (s_in h) < FSTREAM_HEADER_SIZE \<or> take 2 (s_in h) = magic_bytes \<and>
              length (s_in h) < FSTREAM_HEADER_SIZE + unat (hdr_len (take FSTREAM_HEADER_SIZE (s_in h)))))
      | Some (go_on, s') \<Rightarrow>
          if go_on then fb_inv s' \<and> (reader_frame s s' \<or> message_lost s s')
          else cmd_sem s = SEM_VALUE_MAX \<and> fb_streamq s' = fb_streamq s \<and>
            m_store (fb_heap s') = (m_store (fb_heap s))(cmd_response s := None) \<and>
            cmd_response s' \<noteq> NULL \<and> cmd_response s' \<notin> live (fb_heap s'))"

text \<open>C6 The reader thread on any bytes from the device and any unpacking function, however broken, with the
  descriptor in the range of \<open>fd_set\<close> and positive numbers in \<open>errno\<close>. One iteration does one of four things.
  It does not return, because the peer has sent less than a header or than the announced payload and keeps the
  connection open. Or it goes on: the client's invariant is kept, none of the fields the commands use but
  \<open>cmd_response\<close> and \<open>cmd_sem\<close> is touched, no object of the user is freed, and every object it allocates
  is freed again or owned by the client. Or the queue was full: one message of the stream is lost, not freed,
  and everything else is as before. Or \<open>cmd_sem\<close> was at its maximum: the thread ends and leaves
  \<open>cmd_response\<close> pointing to the response it has freed. Any number of iterations, stopping where the reader
  waits, keeps the client.\<close>

theorem reader_keeps_client:
  assumes "errno_wf (fb_transport s)" "fd_set_ok (s_fd (fb_transport s))" "fb_inv s"
  shows "iteration_outcome s (read_thread_body socket_methods pb sz s) \<and>
    (\<exists>s'. reader_turn n pb sz s = Some s' \<and> fb_inv s' \<and> reader_frame s s')"
proof
  have sound: "rd_sound (s_fd (fb_transport s)) (\<lambda>_. True) (fb_transport s)"
    using assms(1,2) by (simp add: rd_sound_def frames_ok_def list_all_iff)
  from reader_turn_sound [OF this assms(3), of n pb sz "\<lambda>_. True"]
  show "\<exists>s'. reader_turn n pb sz s = Some s' \<and> fb_inv s' \<and> reader_frame s s'" by blast
  from sound assms(3) show "iteration_outcome s (read_thread_body socket_methods pb sz s)"
  proof (cases rule: source.read_thread_body_outcome [where sz = sz and pb = pb and ok = "\<lambda>_. True"])
    case blocked
    then have "read_msg (fb_transport s) 1 (fb_heap s) = None" by (simp add: socket_methods_def)
    from read_msg_blocks [OF this assms(2) fb_invD(1) [OF assms(3)] assms(1)] blocked(2)
    show ?thesis by (auto simp: iteration_outcome_def Let_def)
  next
    case (goes_on s')
    then show ?thesis by (simp add: iteration_outcome_def)
  next
    case (dropped s' sd d)
    then show ?thesis by (auto simp: iteration_outcome_def message_lost_def)
  next
    case (dead s')
    then show ?thesis by (simp add: iteration_outcome_def)
  qed
qed

theorem reader_keeps_client_witness:
  "iteration_outcome (demo_client [0xFE, 0xED, 9, 9])
     (read_thread_body socket_methods echo_pb 8 (demo_client [0xFE, 0xED, 9, 9])) \<and>
   (\<exists>s'. reader_turn 2 echo_pb 8 (demo_client [0xFE, 0xED, 9, 9]) = Some s' \<and> fb_inv s' \<and>
      reader_frame (demo_client [0xFE, 0xED, 9, 9]) s')"
  by (rule reader_keeps_client) (simp_all add: demo_wf demo_client_inv)

text \<open>C13 A device that stops in the middle of a frame and keeps the connection open disables the client: the
  reader thread waits for the rest in \<open>read\<close>, without a bound, and every command from then on, however many
  and whether or not the device would answer it, returns \<open>IO4E_ERR_TIMEOUT\<close> after its full timeout. Nothing
  is received or lost, and the client stays in that state.\<close>

theorem stalled_device:
  assumes "stalled p k s" "cmd_context s = [c, 0]" "commands_fit pb (map fst cmds)"
  shows "reader_waits pb sz s \<and>
    (\<exists>s'. commands_beside (reader_turn n pb sz) pb cmds s = Some (replicate (length cmds) IO4E_ERR_TIMEOUT, s') \<and>
      stalled p k s' \<and> cmd_context s' = [c + of_nat (length cmds), 0] \<and> fb_heap s' = fb_heap s \<and>
      fb_streamq s' = fb_streamq s \<and> fb_now s + int (length cmds) * cmd_timeout s \<le> fb_now s')"
  using stalled_waits [OF assms(1)] stalled_commands [OF assms] by blast

theorem stalled_device_witness:
  "\<exists>s'. commands_beside (reader_turn 3 echo_pb 8) echo_pb [(stop_cmd, False), (stop_cmd, True)]
      ((demo_client [0xFE, 0xED, 3, 0, 0, 0, 7])
         \<lparr>fb_transport := (demo_sock [0xFE, 0xED, 3, 0, 0, 0, 7])\<lparr>s_open := True\<rparr>\<rparr>)
      = Some ([IO4E_ERR_TIMEOUT, IO4E_ERR_TIMEOUT], s') \<and> stalled [7, 8, 9] 7 s' \<and> 110 \<le> fb_now s'"
proof -
  let ?s = "(demo_client [0xFE, 0xED, 3, 0, 0, 0, 7])
    \<lparr>fb_transport := (demo_sock [0xFE, 0xED, 3, 0, 0, 0, 7])\<lparr>s_open := True\<rparr>\<rparr>"
  have idle: "client_idle ?s"
    using demo_client_idle [of "[0xFE, 0xED, 3, 0, 0, 0, 7]"]
    by (simp add: client_idle_def wr_reliable_def wr_live_def rd_quiet_def errno_wf_def)
  have st: "stalled [7, 8, 9] 7 ?s"
    using idle by (simp add: stalled_def frame_def put_header_def magic_bytes_def demo_sock_def)
  from stalled_device [OF st, of 65 echo_pb "[(stop_cmd, False), (stop_cmd, True)]" 8 3] show ?thesis
    by (auto simp: echo_fit demo_client_def)
qed

end
