(* ===== verification/Fs_Client.thy ===== *)
theory Fs_Client
  imports Client_State
begin

text \<open>
  What the clients of the single function blocks share (\<open>binaryiotypea.c\<close>, \<open>analogintypea.c\<close>,
  \<open>canl2.c\<close>, \<open>mvbsniffer.c\<close>): packing a message with the macros of \<open>io4edge_internal.h\<close>, the unpacked
  messages on the heap, and the read of one value through \<open>function_control_get\<close>, with its outcome
  from the bytes on the wire to the caller's variable.
\<close>

section \<open>Messages of a function block\<close>

text \<open>
  The generated code of a message type: \<open>pack\<close> (with \<open>get_packed_size\<close>, the length of what it
  writes) and \<open>descriptor.name\<close>. A message that \<open>IO4E_MAKE_EMPTY_REQUEST\<close> makes has its initial value
  only: its type is \<open>unit\<close>.
\<close>

record 'm msg_class =
  msg_pack :: "'m \<Rightarrow> bytes"
  msg_name :: string

definition IO4E_PACK_PROTOMSG :: "'m \<Rightarrow> 'm msg_class \<Rightarrow> io4e_protomsg_t" where
  "IO4E_PACK_PROTOMSG m cls = \<lparr>marshaled_msg = msg_pack cls m, proto_name = msg_name cls\<rparr>"

text \<open>An unpacked message on the heap; it is one object with all its members.\<close>

datatype ('get, 'conf, 'desc, 'stream) fs_msg =
    FS_GET_RESPONSE 'get
  | FS_CONFIGURATION 'conf
  | FS_DESCRIPTION 'desc
  | FS_STREAM_DATA 'stream

text \<open>\<open>*response\<close> for a response to \<open>function_control_get\<close>.\<close>

fun as_get_response :: "('get, 'conf, 'desc, 'stream) fs_msg \<Rightarrow> 'get option" where
  "as_get_response (FS_GET_RESPONSE g) = Some g"
| "as_get_response (FS_CONFIGURATION c) = None"
| "as_get_response (FS_DESCRIPTION d) = None"
| "as_get_response (FS_STREAM_DATA x) = None"

definition get_get_response :: "ptr \<Rightarrow> ('get, 'conf, 'desc, 'stream) fs_msg heap \<Rightarrow> 'get option" where
  "get_get_response p m = Option.bind (get_fs p m) as_get_response"

definition unpack_as :: "('a \<Rightarrow> 'b) \<Rightarrow> (bytes \<Rightarrow> 'a option) \<Rightarrow> bytes \<Rightarrow> 'b option" where
  "unpack_as con unpack bs = map_option con (unpack bs)"

section \<open>Freeing what a request handed out\<close>

lemma free_handed_out:
  assumes "request_done s IO4E_OK (Some p) s'"
  obtains m where "free p (fb_heap s') = Some m" "request_done s err None (s'\<lparr>fb_heap := m\<rparr>)"
    "client_kept s' (s'\<lparr>fb_heap := m\<rparr>)"
proof -
  from assms obtain x where r: "fb_inv s'" "\<not> cmd_mutex s'" "p \<notin> fb_loose s"
    "fb_loose s' = insert p (fb_loose s)" "m_store (fb_heap s') p = Some (OFs x)"
    by (auto simp: request_done_def)
  note I = fb_invD [OF r(1)]
  let ?m = "(fb_heap s')\<lparr>m_store := (m_store (fb_heap s'))(p := None)\<rparr>"
  have owned: "p \<notin> fb_owned s'" using r(4) by (auto simp: fb_loose_def)
  have fr: "free p (fb_heap s') = Some ?m" using I(1) r(5) by simp
  have inv: "fb_inv (s'\<lparr>fb_heap := ?m\<rparr>)"
    using I mem_wf_remove [OF I(1), of p] owned
    by (auto simp: fb_inv_def fb_owned_def split: if_splits)
  have "fb_loose (s'\<lparr>fb_heap := ?m\<rparr>) = fb_loose s' - {p}"
    by (auto simp: fb_loose_def fb_owned_def)
  with r have "fb_loose (s'\<lparr>fb_heap := ?m\<rparr>) = fb_loose s" by auto
  moreover have "client_kept s' (s'\<lparr>fb_heap := ?m\<rparr>)" using owned by (auto simp: client_kept_def)
  ultimately show ?thesis using fr inv r(2) by (intro that [of ?m]) (simp_all add: request_done_def)
qed


section \<open>Reading one value\<close>

text \<open>
  The common shape of the functions that read a value: ask, look at the response, free it.
  \<open>sel\<close> reads the message as a response, \<open>f\<close> is what the function makes of the response: its error and the value.
\<close>

context command_contract
begin

lemma read_value_done:
  assumes "ready s" and u: "\<forall>bs x. u bs = Some x \<longrightarrow> (\<exists>g. sel x = Some g)"
  shows "\<exists>err v s'. (do {
      (err, response, s) \<leftarrow> io4e_functionblock_function_control_get methods pb env msg u s;
      if err \<noteq> IO4E_OK then Some (err, None, s)
      else do {
        p \<leftarrow> response;
        g \<leftarrow> Option.bind (get_fs p (fb_heap s)) sel;
        m \<leftarrow> free p (fb_heap s);
        Some (fst (f g), snd (f g), s\<lparr>fb_heap := m\<rparr>) } }) = Some (err, v, s') \<and>
    request_done s err None s' \<and> ((\<forall>g. fst (f g) = IO4E_OK \<longleftrightarrow> snd (f g) \<noteq> None) \<longrightarrow>
      (err = IO4E_OK \<longleftrightarrow> v \<noteq> None)) \<and> ready s'"
proof -
  from function_control_get_done [OF assms(1), of msg u] obtain err fs s1 where get:
    "io4e_functionblock_function_control_get methods pb env msg u s = Some (err, fs, s1)"
    "request_done s err fs s1" "err = IO4E_OK \<longleftrightarrow> fs \<noteq> None" "unpacked_by u fs s1" "ready s1" by blast
  show ?thesis
  proof (cases fs)
    case None
    with get show ?thesis by simp
  next
    case (Some p)
    with get(4) obtain bs x where x: "u bs = Some x" "m_store (fb_heap s1) p = Some (OFs x)"
      by (auto simp: unpacked_by_def)
    from u x obtain g where g: "m_store (fb_heap s1) p = Some (OFs x)" "sel x = Some g" by blast
    have "fb_inv s1" using get(2) by (simp add: request_done_def)
    with g have g': "get_fs p (fb_heap s1) = Some x"
      by (simp add: get_fs_def fb_invD(1))
    have "request_done s IO4E_OK (Some p) s1" using get Some by simp
    then obtain m where "free p (fb_heap s1) = Some m"
      "request_done s (fst (f g)) None (s1\<lparr>fb_heap := m\<rparr>)" "client_kept s1 (s1\<lparr>fb_heap := m\<rparr>)"
      by (rule free_handed_out)
    with get(1-4) Some g' g(2) ready_kept [OF get(5)] show ?thesis by simp
  qed
qed

end

text \<open>
  The outcome of such a read by the response \<open>w\<close> of the device to the context \<open>ctx\<close>.
\<close>

fun fc_get_any :: "'s response_type \<Rightarrow> any_pb option" where
  "fc_get_any (RESPONSE_FUNCTION_CONTROL (FUNCTION_CONTROL_RESPONSE_GET any)) = Some any"
| "fc_get_any _ = None"

definition value_outcome ::
  "(bytes \<Rightarrow> 'get option) \<Rightarrow> ('get \<Rightarrow> io4e_err_t \<times> 'v option) \<Rightarrow> bytes \<Rightarrow> 's response_pb \<Rightarrow> io4e_err_t \<times> 'v option"
where
  "value_outcome unpack f ctx w =
     (let err = command_verdict ctx w in
      if err \<noteq> IO4E_OK then (err, None)
      else case fc_get_any (res_type w) of
        None \<Rightarrow> (IO4E_ERR_PROTOBUF, None)
      | Some any \<Rightarrow> (case unpack (any_value any) of
          None \<Rightarrow> (IO4E_ERR_PROTOBUF, None)
        | Some g \<Rightarrow> f g))"

lemma fc_get_any_map: "fc_get_any (map_response_type h t) = fc_get_any t"
  by (cases t rule: fc_get_any.cases) simp_all

lemma fc_get_any_unpacked: "unpacked_as w r \<Longrightarrow> fc_get_any (res_type r) = fc_get_any (res_type w)"
  by (metis fc_get_any_map unpacked_as_def)

lemma correct_fc_get_iff: "is_correct_fc_response r ACTION_GET \<longleftrightarrow> fc_get_any (res_type r) \<noteq> None"
  by (cases "res_type r" rule: fc_get_any.cases)
     (simp_all add: is_correct_fc_response_def is_correct_response_type_case_def)

lemma fc_get_any_Some:
  "fc_get_any t = Some any \<Longrightarrow> response_any t = Some any \<and> type_case t \<noteq> TYPE_STREAM"
  by (cases t rule: fc_get_any.cases) simp_all

text \<open>The client after the response in its hands is freed.\<close>

lemma idle_without_response:
  assumes "client_idle s1" "m_store (fb_heap s1) p = Some x" "p \<in> fb_loose s1"
    and "mem_wf m" "m_fail m = []" "m_store m = (m_store (fb_heap s1))(p := None)"
  shows "client_idle (s1\<lparr>fb_heap := m\<rparr>) \<and> fb_loose (s1\<lparr>fb_heap := m\<rparr>) = fb_loose s1 - {p}"
proof -
  have "fb_inv s1" using assms(1) by (simp add: client_idle_def)
  note I = fb_invD [OF this]
  have owned: "p \<notin> fb_owned s1" using assms(3) by (simp add: fb_loose_def)
  have "fb_inv (s1\<lparr>fb_heap := m\<rparr>)"
    using I owned assms(4,6) by (auto simp: fb_inv_def fb_owned_def split: if_splits)
  then show ?thesis
    using assms owned by (auto simp: client_idle_def fb_loose_def fb_owned_def)
qed

lemma unpack_and_free_eq:
  assumes "mem_wf (fb_heap s)" "m_fail (fb_heap s) = []"
    and "m_store (fb_heap s) p = Some (OResponse r)" "fc_get_any (res_type r) = Some any"
  obtains (bad) "u (any_value any) = None" "unpack_and_free u p s = Some (IO4E_ERR_PROTOBUF, None,
      s\<lparr>fb_heap := (fb_heap s)\<lparr>m_store := (m_store (fb_heap s))(p := None)\<rparr>\<rparr>)"
  | (good) x q m where "u (any_value any) = Some x"
      "unpack_and_free u p s = Some (IO4E_OK, Some q, s\<lparr>fb_heap := m\<rparr>)"
      "q \<notin> live (fb_heap s)" "q \<noteq> p" "mem_wf m" "m_fail m = []"
      "m_store m = (m_store (fb_heap s))(p := None, q \<mapsto> OFs x)"
proof -
  from fc_get_any_Some [OF assms(4)] have any: "response_any (res_type r) = Some any"
    "type_case (res_type r) \<noteq> TYPE_STREAM" by simp_all
  note get = get_response_live [OF assms(1,3)]
  show ?thesis
  proof (cases "u (any_value any)")
    case None
    with get any free_response [OF assms(1,3) any(2)] bad show ?thesis
      by (simp add: unpack_and_free_def exit_proto_def fs_unpack_def)
  next
    case (Some x)
    let ?q = "m_next (fb_heap s)"
    let ?m = "(fb_heap s)\<lparr>m_store := (m_store (fb_heap s))(?q \<mapsto> OFs x), m_next := Suc ?q\<rparr>"
    have un: "fs_unpack u (any_value any) (fb_heap s) = (?q, ?m)"
      using Some assms(2) by (simp add: fs_unpack_def malloc_def)
    have q: "?q \<notin> live (fb_heap s)" "?q \<noteq> NULL" "?q \<noteq> p"
      using mem_wf_fresh [OF assms(1)] mem_wf_next_pos [OF assms(1)] assms(3) by auto
    have wf: "mem_wf ?m" using assms(1) by (auto simp: mem_wf_def less_Suc_eq)
    have "m_store ?m p = Some (OResponse r)" using q(3) assms(3) by simp
    from free_response [OF wf this any(2)] get any un q
    have eq: "unpack_and_free u p s = Some (IO4E_OK, Some ?q,
        s\<lparr>fb_heap := ?m\<lparr>m_store := (m_store ?m)(p := None)\<rparr>\<rparr>)"
      by (simp add: unpack_and_free_def Let_def)
    show ?thesis
      by (rule good [OF Some eq q(1,3) mem_wf_remove [OF wf]])
         (use assms(2) q(3) in \<open>simp_all add: fun_upd_twist\<close>)
  qed
qed

text \<open>
  The commands that carry a request of a function block, and what an exchange leaves: an idle client,
  the response consumed, the command sent, and no object more or less in the user's hands.
\<close>

definition get_command :: "'m msg_class \<Rightarrow> 'm \<Rightarrow> command_pb" where
  "get_command cls req = \<lparr>cmd_ctx = None, cmd_type = COMMAND_FUNCTION_CONTROL
     (FUNCTION_CONTROL_GET (MAKE_ANYPB (IO4E_PACK_PROTOMSG req cls)))\<rparr>"

definition set_command :: "'m msg_class \<Rightarrow> 'm \<Rightarrow> command_pb" where
  "set_command cls req = \<lparr>cmd_ctx = None, cmd_type = COMMAND_FUNCTION_CONTROL
     (FUNCTION_CONTROL_SET (MAKE_ANYPB (IO4E_PACK_PROTOMSG req cls)))\<rparr>"

definition exchanged ::
  "pb_api \<Rightarrow> command_pb \<Rightarrow> byte \<Rightarrow> 's response_pb \<Rightarrow> bytes \<Rightarrow> (sock, 'fs) fbsys \<Rightarrow> (sock, 'fs) fbsys \<Rightarrow> bool"
where
  "exchanged pb cmd c w rest s s' \<longleftrightarrow>
     client_idle s' \<and> s_in (fb_transport s') = rest \<and>
     s_out (fb_transport s') = s_out (fb_transport s) @ frame (packed_command pb cmd [c + 1, 0]) \<and>
     cmd_context s' = context_after [c + 1, 0] w \<and> fb_loose s' = fb_loose s \<and>
     cmd_response s' = NULL \<and> s_fd (fb_transport s') = s_fd (fb_transport s)"

text \<open>The second half of such a read, from the response \<open>r\<close> that \<open>command\<close> hands out.\<close>

lemma take_value:
  assumes idle: "client_idle s1" and r: "m_store (fb_heap s1) res = Some (OResponse r)"
    and loose: "res \<in> fb_loose s1" and tc: "type_case (res_type r) \<noteq> TYPE_STREAM"
    and out: "(case fc_get_any (res_type r) of
        None \<Rightarrow> (IO4E_ERR_PROTOBUF, None)
      | Some any \<Rightarrow> (case unpack (any_value any) of
          None \<Rightarrow> (IO4E_ERR_PROTOBUF, None) | Some g \<Rightarrow> f g)) = (err, v)"
  obtains m where "(do {
      (err, response, s) \<leftarrow> (do {
        r \<leftarrow> get_response res (fb_heap s1);
        if \<not> is_correct_fc_response r ACTION_GET then exit_proto res s1
        else unpack_and_free (unpack_as FS_GET_RESPONSE unpack) res s1 });
      if err \<noteq> IO4E_OK then Some (err, None, s)
      else do {
        p \<leftarrow> response;
        g \<leftarrow> get_get_response p (fb_heap s);
        m \<leftarrow> free p (fb_heap s);
        Some (fst (f g), snd (f g), s\<lparr>fb_heap := m\<rparr>) } }) = Some (err, v, s1\<lparr>fb_heap := m\<rparr>)"
    "client_idle (s1\<lparr>fb_heap := m\<rparr>)" "fb_loose (s1\<lparr>fb_heap := m\<rparr>) = fb_loose s1 - {res}"
proof -
  let ?u = "unpack_as FS_GET_RESPONSE unpack"
  from idle have h: "mem_wf (fb_heap s1)" "m_fail (fb_heap s1) = []"
    by (simp_all add: client_idle_def fb_inv_def)
  note get = get_response_live [OF h(1) r]
  note gone = idle_without_response [OF idle r loose]
  let ?m = "(fb_heap s1)\<lparr>m_store := (m_store (fb_heap s1))(res := None)\<rparr>"
  have m: "client_idle (s1\<lparr>fb_heap := ?m\<rparr>)" "fb_loose (s1\<lparr>fb_heap := ?m\<rparr>) = fb_loose s1 - {res}"
    using gone [of ?m] mem_wf_remove [OF h(1)] h(2) by simp_all
  show ?thesis
  proof (cases "fc_get_any (res_type r)")
    case None
    then have "\<not> is_correct_fc_response r ACTION_GET" by (simp add: correct_fc_get_iff)
    with None out get free_response [OF h(1) r tc] show ?thesis
      by (intro that [OF _ m]) (simp add: exit_proto_def err_defs)
  next
    case (Some any)
    then have ok: "is_correct_fc_response r ACTION_GET" by (simp add: correct_fc_get_iff)
    from h r Some show ?thesis
    proof (cases rule: unpack_and_free_eq [where u = ?u])
      case bad
      with out Some get ok show ?thesis
        by (intro that [OF _ m]) (simp add: unpack_as_def err_defs)
    next
      case (good x q m)
      then obtain g where g: "unpack (any_value any) = Some g" "x = FS_GET_RESPONSE g"
        by (auto simp: unpack_as_def)
      let ?m2 = "m\<lparr>m_store := (m_store m)(q := None)\<rparr>"
      have "m_store ?m2 = (m_store (fb_heap s1))(res := None)"
        using good(3,4,7) by (auto simp: fun_eq_iff domIff)
      from gone [OF mem_wf_remove [OF good(5)] _ this] good(6)
      have m2: "client_idle (s1\<lparr>fb_heap := ?m2\<rparr>)" "fb_loose (s1\<lparr>fb_heap := ?m2\<rparr>) = fb_loose s1 - {res}"
        by simp_all
      have "get_get_response q m = Some g" "free q m = Some ?m2"
        using good(5,7) g(2) by (simp_all add: get_get_response_def get_fs_def)
      with out Some g(1) get ok good(2) show ?thesis by (intro that [OF _ m2]) simp
    qed
  qed
qed

lemma read_value_exchange:
  assumes idle: "client_idle s" and s_in: "s_in (fb_transport s) = frame data @ rest"
    and ans: "answer pb data w" and c: "cmd_context s = [c, 0]"
    and len: "FSTREAM_HEADER_SIZE + length (packed_command pb (get_command cls req) [c + 1, 0]) < 2 ^ 32"
  shows "\<exists>s'. (do {
      (err, response, s) \<leftarrow> io4e_functionblock_function_control_get socket_methods pb
        (read_thread 1 socket_methods pb sz) (IO4E_PACK_PROTOMSG req cls) (unpack_as FS_GET_RESPONSE unpack) s;
      if err \<noteq> IO4E_OK then Some (err, None, s)
      else do {
        p \<leftarrow> response;
        g \<leftarrow> get_get_response p (fb_heap s);
        m \<leftarrow> free p (fb_heap s);
        Some (fst (f g), snd (f g), s\<lparr>fb_heap := m\<rparr>) } }) = Some (fst (value_outcome unpack f [c + 1, 0] w), snd (value_outcome unpack f [c + 1, 0] w), s') \<and>
    exchanged pb (get_command cls req) c w rest s s'"
proof -
  obtain err v where out: "value_outcome unpack f [c + 1, 0] w = (err, v)" by fastforce
  let ?cmd = "get_command cls req"
  obtain res s1 where ex: "command socket_methods pb (read_thread 1 socket_methods pb sz) ?cmd True s
      = Some (command_verdict [c + 1, 0] w, res, s1)" "client_idle s1"
    "s_out (fb_transport s1) = s_out (fb_transport s) @ frame (packed_command pb ?cmd [c + 1, 0])"
    "s_in (fb_transport s1) = rest"
    "cmd_response s1 = NULL \<and> s_fd (fb_transport s1) = s_fd (fb_transport s)"
    "cmd_context s1 = context_after [c + 1, 0] w"
    "if command_verdict [c + 1, 0] w = IO4E_OK \<and> True
     then \<exists>r. m_store (fb_heap s1) res = Some (OResponse r) \<and> unpacked_as w r \<and> res \<noteq> NULL \<and>
            res \<notin> fb_loose s \<and> fb_loose s1 = insert res (fb_loose s)
     else res = NULL \<and> fb_loose s1 = fb_loose s"
    by (rule exchange [OF idle s_in ans c len, of sz True])
  note get_def = io4e_functionblock_function_control_get_def [of socket_methods pb
      "read_thread 1 socket_methods pb sz" "IO4E_PACK_PROTOMSG req cls"
      "unpack_as FS_GET_RESPONSE unpack" s, folded get_command_def]
  show ?thesis
  proof (cases "command_verdict [c + 1, 0] w = IO4E_OK")
    case False
    with out have "err = command_verdict [c + 1, 0] w" "v = None" by (simp_all add: value_outcome_def)
    with False ex show ?thesis by (simp add: get_def exchanged_def out del: One_nat_def)
  next
    case True
    with ex(7) obtain r where r: "m_store (fb_heap s1) res = Some (OResponse r)" "unpacked_as w r"
      "res \<notin> fb_loose s" "fb_loose s1 = insert res (fb_loose s)" by auto
    have "type_case (res_type r) \<noteq> TYPE_STREAM"
      using r(2) ans by (simp add: unpacked_as_def answer_def)
    with r(4) out True fc_get_any_unpacked [OF r(2)] show ?thesis
      using ex(1,3-6) r(3)
      by - (rule take_value [OF ex(2) r(1), where unpack = unpack and f = f and err = err and v = v],
        auto simp: get_def value_outcome_def exchanged_def simp del: One_nat_def)
  qed
qed


text \<open>The same for any state between two calls, over the socket transport.\<close>

lemma read_call_done:
  assumes "steady fd pb ok s" "\<And>g. fst (f g) = IO4E_OK \<longleftrightarrow> snd (f g) \<noteq> None"
  shows "\<exists>err v s'. (do {
      (err, response, s) \<leftarrow> io4e_functionblock_function_control_get socket_methods pb
        (reader_turn n pb sz) msg (unpack_as FS_GET_RESPONSE unpack) s;
      if err \<noteq> IO4E_OK then Some (err, None, s)
      else do {
        p \<leftarrow> response;
        g \<leftarrow> get_get_response p (fb_heap s);
        m \<leftarrow> free p (fb_heap s);
        Some (fst (f g), snd (f g), s\<lparr>fb_heap := m\<rparr>) } }) = Some (err, v, s') \<and>
    request_done s err None s' \<and> (err = IO4E_OK \<longleftrightarrow> v \<noteq> None) \<and> steady fd pb ok s'"
proof -
  have sel: "\<forall>bs x. unpack_as FS_GET_RESPONSE unpack bs = Some x \<longrightarrow> (\<exists>g. as_get_response x = Some g)"
    by (auto simp: unpack_as_def)
  have "\<forall>g. fst (f g) = IO4E_OK \<longleftrightarrow> snd (f g) \<noteq> None" using assms(2) by simp
  with turn_fb.read_value_done [where u = "unpack_as FS_GET_RESPONSE unpack" and sel = as_get_response
      and f = f and msg = msg and sz = sz, OF assms(1) [folded steady_iff] sel,
      folded get_get_response_def, unfolded steady_iff]
  show ?thesis by blast
qed

section \<open>Requests without a result\<close>

lemma plain_exchange:
  assumes "client_idle s" "s_in (fb_transport s) = frame data @ rest" "answer pb data w"
    and "cmd_context s = [c, 0]"
    and "FSTREAM_HEADER_SIZE + length (packed_command pb cmd [c + 1, 0]) < 2 ^ 32"
  obtains s' where "command socket_methods pb (read_thread 1 socket_methods pb sz) cmd False s
      = Some (command_verdict [c + 1, 0] w, NULL, s')" "exchanged pb cmd c w rest s s'"
proof -
  obtain res s' where ex: "command socket_methods pb (read_thread 1 socket_methods pb sz) cmd False s
      = Some (command_verdict [c + 1, 0] w, res, s')" "client_idle s'"
    "s_out (fb_transport s') = s_out (fb_transport s) @ frame (packed_command pb cmd [c + 1, 0])"
    "s_in (fb_transport s') = rest"
    "cmd_response s' = NULL \<and> s_fd (fb_transport s') = s_fd (fb_transport s)"
    "cmd_context s' = context_after [c + 1, 0] w" "res = NULL \<and> fb_loose s' = fb_loose s"
    by (rule exchange [OF assms, of sz False]) simp
  then show ?thesis by (intro that [of s']) (simp_all add: exchanged_def)
qed

lemma start_call_done:
  assumes "steady fd pb ok s"
  shows "\<exists>err cfg' s'. io4e_functionblock_start_stream socket_methods pb (reader_turn n pb sz) msg cfg s
      = Some (err, cfg', s') \<and> request_done s err None s' \<and> steady fd pb ok s'"
  using start_stream_steady [OF assms, of n sz msg cfg] by blast


section \<open>Setting a value\<close>

text \<open>The outcome of \<open>function_control_set\<close> without a result by the response of the device.\<close>

fun fc_set_any :: "'s response_type \<Rightarrow> any_pb option" where
  "fc_set_any (RESPONSE_FUNCTION_CONTROL (FUNCTION_CONTROL_RESPONSE_SET any)) = Some any"
| "fc_set_any _ = None"

definition set_outcome :: "bytes \<Rightarrow> 's response_pb \<Rightarrow> io4e_err_t" where
  "set_outcome ctx w =
     (let err = command_verdict ctx w in
      if err = IO4E_OK \<and> fc_set_any (res_type w) = None then IO4E_ERR_PROTOBUF else err)"

lemma fc_set_any_map: "fc_set_any (map_response_type h t) = fc_set_any t"
  by (cases t rule: fc_set_any.cases) simp_all

lemma fc_set_any_unpacked: "unpacked_as w r \<Longrightarrow> fc_set_any (res_type r) = fc_set_any (res_type w)"
  by (metis fc_set_any_map unpacked_as_def)

lemma correct_fc_set_iff: "is_correct_fc_response r ACTION_SET \<longleftrightarrow> fc_set_any (res_type r) \<noteq> None"
  by (cases "res_type r" rule: fc_set_any.cases)
     (simp_all add: is_correct_fc_response_def is_correct_response_type_case_def)

lemma set_value_exchange:
  assumes idle: "client_idle s" and s_in: "s_in (fb_transport s) = frame data @ rest"
    and ans: "answer pb data w" and c: "cmd_context s = [c, 0]"
    and len: "FSTREAM_HEADER_SIZE + length (packed_command pb (set_command cls req) [c + 1, 0]) < 2 ^ 32"
  shows "\<exists>s'. io4e_functionblock_function_control_set socket_methods pb
      (read_thread 1 socket_methods pb sz) (IO4E_PACK_PROTOMSG req cls) None s
      = Some (set_outcome [c + 1, 0] w, None, s') \<and> exchanged pb (set_command cls req) c w rest s s'"
proof -
  let ?cmd = "set_command cls req"
  obtain res s1 where ex: "command socket_methods pb (read_thread 1 socket_methods pb sz) ?cmd True s
      = Some (command_verdict [c + 1, 0] w, res, s1)" "client_idle s1"
    "s_out (fb_transport s1) = s_out (fb_transport s) @ frame (packed_command pb ?cmd [c + 1, 0])"
    "s_in (fb_transport s1) = rest"
    "cmd_response s1 = NULL \<and> s_fd (fb_transport s1) = s_fd (fb_transport s)"
    "cmd_context s1 = context_after [c + 1, 0] w"
    "if command_verdict [c + 1, 0] w = IO4E_OK \<and> True
     then \<exists>r. m_store (fb_heap s1) res = Some (OResponse r) \<and> unpacked_as w r \<and> res \<noteq> NULL \<and>
            res \<notin> fb_loose s \<and> fb_loose s1 = insert res (fb_loose s)
     else res = NULL \<and> fb_loose s1 = fb_loose s"
    by (rule exchange [OF idle s_in ans c len, of sz True])
  note set_def = io4e_functionblock_function_control_set_def [of socket_methods pb
      "read_thread 1 socket_methods pb sz" "IO4E_PACK_PROTOMSG req cls" None s, folded set_command_def]
  show ?thesis
  proof (cases "command_verdict [c + 1, 0] w = IO4E_OK")
    case False
    with ex show ?thesis by (simp add: set_def set_outcome_def exchanged_def del: One_nat_def)
  next
    case True
    with ex(7) obtain r where r: "m_store (fb_heap s1) res = Some (OResponse r)" "unpacked_as w r"
      "res \<notin> fb_loose s" "fb_loose s1 = insert res (fb_loose s)" by auto
    have tc: "type_case (res_type r) \<noteq> TYPE_STREAM"
      using r(2) ans by (simp add: unpacked_as_def answer_def)
    from ex(2) have h: "mem_wf (fb_heap s1)" "m_fail (fb_heap s1) = []"
      by (simp_all add: client_idle_def fb_inv_def)
    let ?m = "(fb_heap s1)\<lparr>m_store := (m_store (fb_heap s1))(res := None)\<rparr>"
    have "client_idle (s1\<lparr>fb_heap := ?m\<rparr>) \<and> fb_loose (s1\<lparr>fb_heap := ?m\<rparr>) = fb_loose s1 - {res}"
      using idle_without_response [OF ex(2) r(1), of ?m] mem_wf_remove [OF h(1)] h(2) r(4) by simp
    then show ?thesis
      using True ex(1,3-6) r(3,4) get_response_live [OF h(1) r(1)] free_response [OF h(1) r(1) tc]
        correct_fc_set_iff [of r] fc_set_any_unpacked [OF r(2)]
      by (auto simp: set_def set_outcome_def exit_proto_def err_defs exchanged_def simp del: One_nat_def)
  qed
qed


text \<open>The shape of the functions that set a value, and their outcomes.\<close>

lemma set_call_exchange:
  assumes "client_idle s" "s_in (fb_transport s) = frame data @ rest" "answer pb data w"
    and "cmd_context s = [c, 0]"
    and "FSTREAM_HEADER_SIZE + length (packed_command pb (set_command cls req) [c + 1, 0]) < 2 ^ 32"
  shows "\<exists>s'. (do {
      (err, _, s) \<leftarrow> io4e_functionblock_function_control_set socket_methods pb
        (read_thread 1 socket_methods pb sz) (IO4E_PACK_PROTOMSG req cls) None s;
      Some (err, s) }) = Some (set_outcome [c + 1, 0] w, s') \<and>
    exchanged pb (set_command cls req) c w rest s s'"
  using set_value_exchange [OF assms, of sz] by auto

lemma set_call_done:
  assumes "steady fd pb ok s"
  shows "\<exists>err s'. (do {
      (err, _, s) \<leftarrow> io4e_functionblock_function_control_set socket_methods pb (reader_turn n pb sz) msg None s;
      Some (err, s) }) = Some (err, s') \<and> request_done s err None s' \<and> steady fd pb ok s'"
  using function_control_set_steady [OF assms, of n sz msg] by auto

section \<open>An example client\<close>

text \<open>The example client of \<open>Exchange\<close> for any type of messages, and a device that confirms what is set.\<close>

definition demo_fs_client :: "bytes \<Rightarrow> (sock, 'fs) fbsys" where
  "demo_fs_client input = \<lparr>fb_transport = demo_sock input, cmd_context = [65, 0], cmd_timeout = 5,
     cmd_mutex = False, cmd_response = NULL, cmd_sem = 0, fb_streamq = demo_streamq,
     fb_heap = \<lparr>m_store = Map.empty, m_next = 1, m_fail = []\<rparr>, fb_now = 100\<rparr>"

definition confirm_pb :: pb_api where
  "confirm_pb = echo_pb\<lparr>pb_unpack_response := \<lambda>data. Some \<lparr>res_context = Some data,
     res_status = STATUS_OK, res_error = None,
     res_type = RESPONSE_FUNCTION_CONTROL (FUNCTION_CONTROL_RESPONSE_SET
       \<lparr>type_url = [], any_value = []\<rparr>)\<rparr>\<rparr>"

definition confirm :: "bytes \<Rightarrow> stream_data response_pb" where
  "confirm bs = \<lparr>res_context = Some bs, res_status = STATUS_OK, res_error = None,
     res_type = RESPONSE_FUNCTION_CONTROL (FUNCTION_CONTROL_RESPONSE_SET
       \<lparr>type_url = [], any_value = []\<rparr>)\<rparr>"

lemma demo_fs_client_fields [simp]:
  "fb_transport (demo_fs_client x) = demo_sock x" "cmd_context (demo_fs_client x) = [65, 0]"
  by (simp_all add: demo_fs_client_def)

lemma demo_fs_client_loose: "fb_loose (demo_fs_client x) = {}"
  by (simp add: demo_fs_client_def fb_loose_def)

lemma demo_fs_client_inv: "fb_inv (demo_fs_client x)"
  by (simp add: demo_fs_client_def fb_inv_def demo_streamq_facts mem_wf_def SEM_VALUE_MAX_def)

lemma demo_fs_client_idle: "client_idle (demo_fs_client x)"
  using demo_fs_client_inv [of x] demo_reliable
  by (simp add: client_idle_def demo_wf) (simp add: demo_fs_client_def)

lemma demo_fs_steady:
  assumes "frames_ok (msg_wf pb ok) x"
  shows "steady 3 pb ok (demo_fs_client x)"
  using demo_fs_client_inv [of x] demo_sock_live [OF assms]
  by (simp add: steady_def pending_wf_def) (simp add: demo_fs_client_def demo_streamq_facts)

lemma demo_fs_client_steady: "steady 3 echo_pb ok (demo_fs_client x)"
  by (rule demo_fs_steady [OF demo_frames])

lemma confirm_answer: "answer confirm_pb [66] (confirm [66])"
  by (simp add: answer_def confirm_pb_def confirm_def response_wf_def)

lemma confirm_outcome: "set_outcome [66, 0] (confirm [66]) = IO4E_OK"
  by (simp add: set_outcome_def command_verdict_def confirm_def strcmp_eq_def)

lemma demo_commands_short:
  "FSTREAM_HEADER_SIZE + length (packed_command echo_pb cmd [b, 0]) < 4294967296"
  "FSTREAM_HEADER_SIZE + length (packed_command confirm_pb cmd [b, 0]) < 4294967296"
  by (simp_all add: packed_command_def confirm_pb_def echo_pb_def FSTREAM_HEADER_SIZE_def)

lemma demo_packed:
  "packed_command echo_pb cmd [66, 0] = [0, 66]" "packed_command confirm_pb cmd [66, 0] = [0, 66]"
  by (simp_all add: packed_command_def confirm_pb_def echo_pb_def)

lemma echo_value_outcome:
  "value_outcome unpack f [66, 0] (echo [66])
     = (case unpack [66] of None \<Rightarrow> (IO4E_ERR_PROTOBUF, None) | Some g \<Rightarrow> f g)"
  by (simp add: value_outcome_def command_verdict_def echo_def strcmp_eq_def)

end
