(* ===== verification/Binaryiotypea.thy ===== *)
theory Binaryiotypea
  imports Fs_Client
begin

text \<open>
  The client of the binary input/output function block (\<open>binaryiotypea.c\<close>). The messages have the
  members the file sets and reads; the generated functions it calls are the fields of
  \<open>binaryiotypea_api\<close>, the configuration messages, which it only passes on, are type parameters.
  A function that stores its result through a pointer returns the value stored, \<open>None\<close> when it
  stores nothing.
\<close>

section \<open>Messages\<close>

datatype binary_function_control_set =
    BINARY_SET_SINGLE (set_channel: u32) (set_state: bool)
  | BINARY_SET_ALL (set_values: u32) (set_mask: u32)
  | BINARY_SET_EXIT_ERROR

datatype binary_function_control_get =
    BINARY_GET_SINGLE (get_channel: u32)
  | BINARY_GET_ALL (get_mask: u32)

datatype binary_get_response =
    BINARY_RESPONSE_SINGLE (single_state: bool)
  | BINARY_RESPONSE_ALL (all_inputs: u32)
  | BINARY_RESPONSE_OTHER

record binary_stream_control_start =
  channelfiltermask :: u32

record ('conf, 'confres, 'desc) binaryiotypea_api =
  binary_configuration_set :: "'conf msg_class"
  binary_configuration_get :: "unit msg_class"
  binary_configuration_describe :: "unit msg_class"
  binary_function_control_set :: "binary_function_control_set msg_class"
  binary_function_control_get :: "binary_function_control_get msg_class"
  binary_stream_control_start :: "binary_stream_control_start msg_class"
  binary_unpack_configuration :: "bytes \<Rightarrow> 'confres option"
  binary_unpack_description :: "bytes \<Rightarrow> 'desc option"
  binary_unpack_get_response :: "bytes \<Rightarrow> binary_get_response option"

type_synonym ('confres, 'desc, 'stream) binary_msg = "(binary_get_response, 'confres, 'desc, 'stream) fs_msg"


section \<open>Operations\<close>

definition io4edge_binaryiotypea_upload_configuration ::
  "('h, ('r, 'd, 'st) binary_msg) transport_t \<Rightarrow> pb_api \<Rightarrow>
   (('h, ('r, 'd, 'st) binary_msg) fbsys \<Rightarrow> ('h, ('r, 'd, 'st) binary_msg) fbsys option) \<Rightarrow>
   ('conf, 'r, 'd) binaryiotypea_api \<Rightarrow> 'conf \<Rightarrow> ('h, ('r, 'd, 'st) binary_msg) fbsys \<Rightarrow>
   (io4e_err_t \<times> ('h, ('r, 'd, 'st) binary_msg) fbsys) option" where
  "io4edge_binaryiotypea_upload_configuration methods pb env api configuration s =
     (let packed_req = IO4E_PACK_PROTOMSG configuration (binary_configuration_set api)
      in io4e_functionblock_upload_configuration methods pb env packed_req s)"

definition io4edge_binaryiotypea_download_configuration ::
  "('h, ('r, 'd, 'st) binary_msg) transport_t \<Rightarrow> pb_api \<Rightarrow>
   (('h, ('r, 'd, 'st) binary_msg) fbsys \<Rightarrow> ('h, ('r, 'd, 'st) binary_msg) fbsys option) \<Rightarrow>
   ('conf, 'r, 'd) binaryiotypea_api \<Rightarrow> ('h, ('r, 'd, 'st) binary_msg) fbsys \<Rightarrow>
   (io4e_err_t \<times> ptr option \<times> ('h, ('r, 'd, 'st) binary_msg) fbsys) option" where
  "io4edge_binaryiotypea_download_configuration methods pb env api s =
     (let packed_req = IO4E_PACK_PROTOMSG () (binary_configuration_get api)
      in io4e_functionblock_download_configuration methods pb env packed_req
           (unpack_as FS_CONFIGURATION (binary_unpack_configuration api)) s)"

definition io4edge_binaryiotypea_describe ::
  "('h, ('r, 'd, 'st) binary_msg) transport_t \<Rightarrow> pb_api \<Rightarrow>
   (('h, ('r, 'd, 'st) binary_msg) fbsys \<Rightarrow> ('h, ('r, 'd, 'st) binary_msg) fbsys option) \<Rightarrow>
   ('conf, 'r, 'd) binaryiotypea_api \<Rightarrow> ('h, ('r, 'd, 'st) binary_msg) fbsys \<Rightarrow>
   (io4e_err_t \<times> ptr option \<times> ('h, ('r, 'd, 'st) binary_msg) fbsys) option" where
  "io4edge_binaryiotypea_describe methods pb env api s =
     (let packed_req = IO4E_PACK_PROTOMSG () (binary_configuration_describe api)
      in io4e_functionblock_describe methods pb env packed_req
           (unpack_as FS_DESCRIPTION (binary_unpack_description api)) s)"

definition io4edge_binaryiotypea_set_output ::
  "('h, ('r, 'd, 'st) binary_msg) transport_t \<Rightarrow> pb_api \<Rightarrow>
   (('h, ('r, 'd, 'st) binary_msg) fbsys \<Rightarrow> ('h, ('r, 'd, 'st) binary_msg) fbsys option) \<Rightarrow>
   ('conf, 'r, 'd) binaryiotypea_api \<Rightarrow> u32 \<Rightarrow> bool \<Rightarrow> ('h, ('r, 'd, 'st) binary_msg) fbsys \<Rightarrow>
   (io4e_err_t \<times> ('h, ('r, 'd, 'st) binary_msg) fbsys) option" where
  "io4edge_binaryiotypea_set_output methods pb env api channel state s = do {
     let set_req = BINARY_SET_SINGLE channel state;
     let packed_req = IO4E_PACK_PROTOMSG set_req (binary_function_control_set api);
     (err, _, s) \<leftarrow> io4e_functionblock_function_control_set methods pb env packed_req None s;
     Some (err, s) }"

definition io4edge_binaryiotypea_set_all_outputs ::
  "('h, ('r, 'd, 'st) binary_msg) transport_t \<Rightarrow> pb_api \<Rightarrow>
   (('h, ('r, 'd, 'st) binary_msg) fbsys \<Rightarrow> ('h, ('r, 'd, 'st) binary_msg) fbsys option) \<Rightarrow>
   ('conf, 'r, 'd) binaryiotypea_api \<Rightarrow> u32 \<Rightarrow> u32 \<Rightarrow> ('h, ('r, 'd, 'st) binary_msg) fbsys \<Rightarrow>
   (io4e_err_t \<times> ('h, ('r, 'd, 'st) binary_msg) fbsys) option" where
  "io4edge_binaryiotypea_set_all_outputs methods pb env api states msk s = do {
     let set_req = BINARY_SET_ALL states msk;
     let packed_req = IO4E_PACK_PROTOMSG set_req (binary_function_control_set api);
     (err, _, s) \<leftarrow> io4e_functionblock_function_control_set methods pb env packed_req None s;
     Some (err, s) }"

definition io4edge_binaryiotypea_exit_error_state ::
  "('h, ('r, 'd, 'st) binary_msg) transport_t \<Rightarrow> pb_api \<Rightarrow>
   (('h, ('r, 'd, 'st) binary_msg) fbsys \<Rightarrow> ('h, ('r, 'd, 'st) binary_msg) fbsys option) \<Rightarrow>
   ('conf, 'r, 'd) binaryiotypea_api \<Rightarrow> ('h, ('r, 'd, 'st) binary_msg) fbsys \<Rightarrow>
   (io4e_err_t \<times> ('h, ('r, 'd, 'st) binary_msg) fbsys) option" where
  "io4edge_binaryiotypea_exit_error_state methods pb env api s = do {
     let packed_req = IO4E_PACK_PROTOMSG BINARY_SET_EXIT_ERROR (binary_function_control_set api);
     (err, _, s) \<leftarrow> io4e_functionblock_function_control_set methods pb env packed_req None s;
     Some (err, s) }"

definition io4edge_binaryiotypea_input ::
  "('h, ('r, 'd, 'st) binary_msg) transport_t \<Rightarrow> pb_api \<Rightarrow>
   (('h, ('r, 'd, 'st) binary_msg) fbsys \<Rightarrow> ('h, ('r, 'd, 'st) binary_msg) fbsys option) \<Rightarrow>
   ('conf, 'r, 'd) binaryiotypea_api \<Rightarrow> u32 \<Rightarrow> ('h, ('r, 'd, 'st) binary_msg) fbsys \<Rightarrow>
   (io4e_err_t \<times> bool option \<times> ('h, ('r, 'd, 'st) binary_msg) fbsys) option" where
  "io4edge_binaryiotypea_input methods pb env api channel s = do {
     let packed_req = IO4E_PACK_PROTOMSG (BINARY_GET_SINGLE channel) (binary_function_control_get api);
     (err, response, s) \<leftarrow> io4e_functionblock_function_control_get methods pb env packed_req
        (unpack_as FS_GET_RESPONSE (binary_unpack_get_response api)) s;
     if err \<noteq> IO4E_OK then Some (err, None, s)
     else do {
       p \<leftarrow> response;
       g \<leftarrow> get_get_response p (fb_heap s);
       let (err, state) = (case g of
            BINARY_RESPONSE_SINGLE state \<Rightarrow> (IO4E_OK, Some state)
          | _ \<Rightarrow> (IO4E_ERR_PROTOBUF, None));
       m \<leftarrow> free p (fb_heap s);
       Some (err, state, s\<lparr>fb_heap := m\<rparr>) } }"

definition io4edge_binaryiotypea_all_inputs ::
  "('h, ('r, 'd, 'st) binary_msg) transport_t \<Rightarrow> pb_api \<Rightarrow>
   (('h, ('r, 'd, 'st) binary_msg) fbsys \<Rightarrow> ('h, ('r, 'd, 'st) binary_msg) fbsys option) \<Rightarrow>
   ('conf, 'r, 'd) binaryiotypea_api \<Rightarrow> u32 \<Rightarrow> ('h, ('r, 'd, 'st) binary_msg) fbsys \<Rightarrow>
   (io4e_err_t \<times> u32 option \<times> ('h, ('r, 'd, 'st) binary_msg) fbsys) option" where
  "io4edge_binaryiotypea_all_inputs methods pb env api msk s = do {
     let packed_req = IO4E_PACK_PROTOMSG (BINARY_GET_ALL msk) (binary_function_control_get api);
     (err, response, s) \<leftarrow> io4e_functionblock_function_control_get methods pb env packed_req
        (unpack_as FS_GET_RESPONSE (binary_unpack_get_response api)) s;
     if err \<noteq> IO4E_OK then Some (err, None, s)
     else do {
       p \<leftarrow> response;
       g \<leftarrow> get_get_response p (fb_heap s);
       let (err, states) = (case g of
            BINARY_RESPONSE_ALL inputs \<Rightarrow> (IO4E_OK, Some inputs)
          | _ \<Rightarrow> (IO4E_ERR_PROTOBUF, None));
       m \<leftarrow> free p (fb_heap s);
       Some (err, states, s\<lparr>fb_heap := m\<rparr>) } }"

definition io4edge_binaryiotypea_start_stream ::
  "('h, ('r, 'd, 'st) binary_msg) transport_t \<Rightarrow> pb_api \<Rightarrow>
   (('h, ('r, 'd, 'st) binary_msg) fbsys \<Rightarrow> ('h, ('r, 'd, 'st) binary_msg) fbsys option) \<Rightarrow>
   ('conf, 'r, 'd) binaryiotypea_api \<Rightarrow> u32 \<Rightarrow> stream_control_start \<Rightarrow>
   ('h, ('r, 'd, 'st) binary_msg) fbsys \<Rightarrow>
   (io4e_err_t \<times> stream_control_start \<times> ('h, ('r, 'd, 'st) binary_msg) fbsys) option" where
  "io4edge_binaryiotypea_start_stream methods pb env api msk fb_config s =
     (let start = \<lparr>channelfiltermask = msk\<rparr>;
          packed_req = IO4E_PACK_PROTOMSG start (binary_stream_control_start api)
      in io4e_functionblock_start_stream methods pb env packed_req fb_config s)"


section \<open>What the functions make of a response\<close>

definition single_result :: "binary_get_response \<Rightarrow> io4e_err_t \<times> bool option" where
  "single_result g = (case g of
      BINARY_RESPONSE_SINGLE state \<Rightarrow> (IO4E_OK, Some state) | _ \<Rightarrow> (IO4E_ERR_PROTOBUF, None))"

definition all_result :: "binary_get_response \<Rightarrow> io4e_err_t \<times> u32 option" where
  "all_result g = (case g of
      BINARY_RESPONSE_ALL inputs \<Rightarrow> (IO4E_OK, Some inputs) | _ \<Rightarrow> (IO4E_ERR_PROTOBUF, None))"

text \<open>The two reads in the shape of \<open>read_value_done\<close> and \<open>read_value_exchange\<close>.\<close>

lemma input_shape:
  "io4edge_binaryiotypea_input methods pb env api channel s = (do {
      (err, response, s) \<leftarrow> io4e_functionblock_function_control_get methods pb env
        (IO4E_PACK_PROTOMSG (BINARY_GET_SINGLE channel) (binary_function_control_get api))
        (unpack_as FS_GET_RESPONSE (binary_unpack_get_response api)) s;
      if err \<noteq> IO4E_OK then Some (err, None, s)
      else do {
        p \<leftarrow> response;
        g \<leftarrow> get_get_response p (fb_heap s);
        m \<leftarrow> free p (fb_heap s);
        Some (fst (single_result g), snd (single_result g), s\<lparr>fb_heap := m\<rparr>) } })"
  by (simp only: io4edge_binaryiotypea_input_def single_result_def [symmetric] Let_def split_def)

lemma all_inputs_shape:
  "io4edge_binaryiotypea_all_inputs methods pb env api msk s = (do {
      (err, response, s) \<leftarrow> io4e_functionblock_function_control_get methods pb env
        (IO4E_PACK_PROTOMSG (BINARY_GET_ALL msk) (binary_function_control_get api))
        (unpack_as FS_GET_RESPONSE (binary_unpack_get_response api)) s;
      if err \<noteq> IO4E_OK then Some (err, None, s)
      else do {
        p \<leftarrow> response;
        g \<leftarrow> get_get_response p (fb_heap s);
        m \<leftarrow> free p (fb_heap s);
        Some (fst (all_result g), snd (all_result g), s\<lparr>fb_heap := m\<rparr>) } })"
  by (simp only: io4edge_binaryiotypea_all_inputs_def all_result_def [symmetric] Let_def split_def)

lemma result_iff:
  "fst (single_result g) = IO4E_OK \<longleftrightarrow> snd (single_result g) \<noteq> None"
  "fst (all_result g) = IO4E_OK \<longleftrightarrow> snd (all_result g) \<noteq> None"
  by (simp_all add: single_result_def all_result_def err_defs split: binary_get_response.split)


section \<open>Properties\<close>

text \<open>C7 Reading inputs, from the bytes on the wire to the caller's variable: the command with the channel
  or the mask is sent, and for any response of the device the result is what the response says: the
  state or the states for \<open>IO4E_OK\<close>; the device's error, mapped; \<open>IO4E_FAIL\<close> for a foreign context;
  \<open>IO4E_ERR_PROTOBUF\<close> for a response of another kind, one that does not unpack or one that answers
  the other request. In every case the response and the unpacked message are freed.\<close>

theorem binaryiotypea_reads:
  assumes "client_idle s" "s_in (fb_transport s) = frame data @ rest" "answer pb data w"
    and "cmd_context s = [c, 0]"
    and "\<And>req. FSTREAM_HEADER_SIZE
      + length (packed_command pb (get_command (binary_function_control_get api) req) [c + 1, 0]) < 2 ^ 32"
  shows "(\<exists>s'. io4edge_binaryiotypea_input socket_methods pb (read_thread 1 socket_methods pb sz) api channel s
        = Some (fst (value_outcome (binary_unpack_get_response api) single_result [c + 1, 0] w),
            snd (value_outcome (binary_unpack_get_response api) single_result [c + 1, 0] w), s') \<and>
      exchanged pb (get_command (binary_function_control_get api) (BINARY_GET_SINGLE channel)) c w rest s s') \<and>
    (\<exists>s'. io4edge_binaryiotypea_all_inputs socket_methods pb (read_thread 1 socket_methods pb sz) api msk s
        = Some (fst (value_outcome (binary_unpack_get_response api) all_result [c + 1, 0] w),
            snd (value_outcome (binary_unpack_get_response api) all_result [c + 1, 0] w), s') \<and>
      exchanged pb (get_command (binary_function_control_get api) (BINARY_GET_ALL msk)) c w rest s s')"
  unfolding input_shape all_inputs_shape
  by (intro conjI read_value_exchange [OF assms])

definition demo_binary :: "(unit, unit, unit) binaryiotypea_api" where
  "demo_binary = \<lparr>binary_configuration_set = \<lparr>msg_pack = \<lambda>_. [], msg_name = ''ConfigurationSet''\<rparr>,
     binary_configuration_get = \<lparr>msg_pack = \<lambda>_. [], msg_name = ''ConfigurationGet''\<rparr>,
     binary_configuration_describe = \<lparr>msg_pack = \<lambda>_. [], msg_name = ''ConfigurationDescribe''\<rparr>,
     binary_function_control_set = \<lparr>msg_pack = \<lambda>_. [7], msg_name = ''FunctionControlSet''\<rparr>,
     binary_function_control_get = \<lparr>msg_pack = \<lambda>_. [8], msg_name = ''FunctionControlGet''\<rparr>,
     binary_stream_control_start = \<lparr>msg_pack = \<lambda>_. [], msg_name = ''StreamControlStart''\<rparr>,
     binary_unpack_configuration = \<lambda>_. Some (), binary_unpack_description = \<lambda>_. Some (),
     binary_unpack_get_response = \<lambda>bs. Some (BINARY_RESPONSE_SINGLE (bs = [66]))\<rparr>"

lemma demo_binary_unpack:
  "binary_unpack_get_response demo_binary bs = Some (BINARY_RESPONSE_SINGLE (bs = [66]))"
  by (simp add: demo_binary_def)

theorem binaryiotypea_reads_witness:
  "\<exists>s'. io4edge_binaryiotypea_input socket_methods echo_pb (read_thread 1 socket_methods echo_pb 8)
      demo_binary 3 (demo_fs_client (frame [0, 66])) = Some (IO4E_OK, Some True, s') \<and>
    s_out (fb_transport s') = frame [0, 66] \<and> fb_loose s' = {}"
proof -
  have "\<exists>s'. io4edge_binaryiotypea_input socket_methods echo_pb (read_thread 1 socket_methods echo_pb 8)
        demo_binary 3 (demo_fs_client (frame [0, 66]))
      = Some (fst (value_outcome (binary_unpack_get_response demo_binary) single_result [65 + 1, 0] (echo [66])),
          snd (value_outcome (binary_unpack_get_response demo_binary) single_result [65 + 1, 0] (echo [66])), s') \<and>
    exchanged echo_pb (get_command (binary_function_control_get demo_binary) (BINARY_GET_SINGLE 3)) 65
      (echo [66]) [] (demo_fs_client (frame [0, 66])) s'"
    by (rule binaryiotypea_reads [where data = "[0, 66]", THEN conjunct1])
       (simp_all add: demo_fs_client_idle demo_wf echo_answer demo_commands_short)
  then show ?thesis
    by (simp add: echo_value_outcome demo_binary_unpack single_result_def exchanged_def demo_packed
        demo_wf demo_fs_client_loose) blast
qed

text \<open>C25 Setting outputs, from the call to the bytes on the wire: each of the three functions sends exactly
  one frame, the command with the channel and state, the values and mask, or the request to leave
  the error state, and returns what the response says; a response of another kind gives
  \<open>IO4E_ERR_PROTOBUF\<close>. Nothing is left on the heap.\<close>

theorem binaryiotypea_sets:
  assumes "client_idle s" "s_in (fb_transport s) = frame data @ rest" "answer pb data w"
    and "cmd_context s = [c, 0]"
    and "\<And>req. FSTREAM_HEADER_SIZE
      + length (packed_command pb (set_command (binary_function_control_set api) req) [c + 1, 0]) < 2 ^ 32"
  shows "(\<exists>s'. io4edge_binaryiotypea_set_output socket_methods pb (read_thread 1 socket_methods pb sz) api
        channel state s = Some (set_outcome [c + 1, 0] w, s') \<and>
      exchanged pb (set_command (binary_function_control_set api) (BINARY_SET_SINGLE channel state)) c w rest s s') \<and>
    (\<exists>s'. io4edge_binaryiotypea_set_all_outputs socket_methods pb (read_thread 1 socket_methods pb sz) api
        states msk s = Some (set_outcome [c + 1, 0] w, s') \<and>
      exchanged pb (set_command (binary_function_control_set api) (BINARY_SET_ALL states msk)) c w rest s s') \<and>
    (\<exists>s'. io4edge_binaryiotypea_exit_error_state socket_methods pb (read_thread 1 socket_methods pb sz) api s
        = Some (set_outcome [c + 1, 0] w, s') \<and>
      exchanged pb (set_command (binary_function_control_set api) BINARY_SET_EXIT_ERROR) c w rest s s')"
  unfolding io4edge_binaryiotypea_set_output_def io4edge_binaryiotypea_set_all_outputs_def
    io4edge_binaryiotypea_exit_error_state_def Let_def
  by (intro conjI set_call_exchange [OF assms])

theorem binaryiotypea_sets_witness:
  "\<exists>s'. io4edge_binaryiotypea_set_output socket_methods confirm_pb (read_thread 1 socket_methods confirm_pb 8)
      demo_binary 3 True (demo_fs_client (frame [66])) = Some (IO4E_OK, s') \<and>
    s_out (fb_transport s') = frame [0, 66]"
proof -
  have "\<exists>s'. io4edge_binaryiotypea_set_output socket_methods confirm_pb (read_thread 1 socket_methods confirm_pb 8)
        demo_binary 3 True (demo_fs_client (frame [66])) = Some (set_outcome [65 + 1, 0] (confirm [66]), s') \<and>
      exchanged confirm_pb (set_command (binary_function_control_set demo_binary) (BINARY_SET_SINGLE 3 True))
        65 (confirm [66]) [] (demo_fs_client (frame [66])) s'"
    by (rule binaryiotypea_sets [where data = "[66]", THEN conjunct1])
       (simp_all add: demo_fs_client_idle demo_wf confirm_answer demo_commands_short)
  then show ?thesis
    by (simp add: confirm_outcome exchanged_def demo_packed demo_wf) blast
qed

text \<open>The reads from any state between calls.\<close>

lemma input_done:
  assumes "steady fd pb ok s"
  shows "\<exists>err v s'. io4edge_binaryiotypea_input socket_methods pb (reader_turn n pb sz) api
      channel s = Some (err, v, s') \<and> request_done s err None s' \<and> (err = IO4E_OK \<longleftrightarrow> v \<noteq> None) \<and> steady fd pb ok s'"
  unfolding input_shape by (rule read_call_done [OF assms result_iff(1)])

lemma all_inputs_done:
  assumes "steady fd pb ok s"
  shows "\<exists>err v s'. io4edge_binaryiotypea_all_inputs socket_methods pb (reader_turn n pb sz) api
      msk s = Some (err, v, s') \<and> request_done s err None s' \<and> (err = IO4E_OK \<longleftrightarrow> v \<noteq> None) \<and> steady fd pb ok s'"
  unfolding all_inputs_shape by (rule read_call_done [OF assms result_iff(2)])

lemmas binary_call_defs =
  io4edge_binaryiotypea_download_configuration_def io4edge_binaryiotypea_describe_def
  io4edge_binaryiotypea_upload_configuration_def io4edge_binaryiotypea_set_output_def
  io4edge_binaryiotypea_set_all_outputs_def io4edge_binaryiotypea_exit_error_state_def
  io4edge_binaryiotypea_start_stream_def



end
