(* ===== verification/Analogintypea.thy ===== *)
theory Analogintypea
  imports Fs_Client
begin

text \<open>
  The client of the analog input function block (\<open>analogintypea.c\<close>), modelled as the one of the binary
  function block. A \<open>float\<close> is only copied; it is represented by its 32 bits.
\<close>

section \<open>Messages\<close>

record analog_get_response =
  analog_value :: u32

record ('conf, 'confres) analogintypea_api =
  analog_configuration_set :: "'conf msg_class"
  analog_configuration_get :: "unit msg_class"
  analog_function_control_get :: "unit msg_class"
  analog_stream_control_start :: "unit msg_class"
  analog_unpack_configuration :: "bytes \<Rightarrow> 'confres option"
  analog_unpack_get_response :: "bytes \<Rightarrow> analog_get_response option"

type_synonym ('confres, 'stream) analog_msg = "(analog_get_response, 'confres, unit, 'stream) fs_msg"


section \<open>Operations\<close>

definition io4edge_analogintypea_upload_configuration ::
  "('h, ('r, 'st) analog_msg) transport_t \<Rightarrow> pb_api \<Rightarrow> (('h, ('r, 'st) analog_msg) fbsys \<Rightarrow> ('h, ('r, 'st) analog_msg) fbsys option) \<Rightarrow>
   ('conf, 'r) analogintypea_api \<Rightarrow> 'conf \<Rightarrow> ('h, ('r, 'st) analog_msg) fbsys \<Rightarrow>
   (io4e_err_t \<times> ('h, ('r, 'st) analog_msg) fbsys) option" where
  "io4edge_analogintypea_upload_configuration methods pb env api configuration s =
     (let packed_req = IO4E_PACK_PROTOMSG configuration (analog_configuration_set api)
      in io4e_functionblock_upload_configuration methods pb env packed_req s)"

definition io4edge_analogintypea_download_configuration ::
  "('h, ('r, 'st) analog_msg) transport_t \<Rightarrow> pb_api \<Rightarrow> (('h, ('r, 'st) analog_msg) fbsys \<Rightarrow> ('h, ('r, 'st) analog_msg) fbsys option) \<Rightarrow>
   ('conf, 'r) analogintypea_api \<Rightarrow> ('h, ('r, 'st) analog_msg) fbsys \<Rightarrow>
   (io4e_err_t \<times> ptr option \<times> ('h, ('r, 'st) analog_msg) fbsys) option" where
  "io4edge_analogintypea_download_configuration methods pb env api s =
     (let packed_req = IO4E_PACK_PROTOMSG () (analog_configuration_get api)
      in io4e_functionblock_download_configuration methods pb env packed_req
           (unpack_as FS_CONFIGURATION (analog_unpack_configuration api)) s)"

definition io4edge_analogintypea_value ::
  "('h, ('r, 'st) analog_msg) transport_t \<Rightarrow> pb_api \<Rightarrow> (('h, ('r, 'st) analog_msg) fbsys \<Rightarrow> ('h, ('r, 'st) analog_msg) fbsys option) \<Rightarrow>
   ('conf, 'r) analogintypea_api \<Rightarrow> ('h, ('r, 'st) analog_msg) fbsys \<Rightarrow>
   (io4e_err_t \<times> u32 option \<times> ('h, ('r, 'st) analog_msg) fbsys) option" where
  "io4edge_analogintypea_value methods pb env api s = do {
     let packed_req = IO4E_PACK_PROTOMSG () (analog_function_control_get api);
     (err, response, s) \<leftarrow> io4e_functionblock_function_control_get methods pb env packed_req
        (unpack_as FS_GET_RESPONSE (analog_unpack_get_response api)) s;
     if err \<noteq> IO4E_OK then Some (err, None, s)
     else do {
       p \<leftarrow> response;
       g \<leftarrow> get_get_response p (fb_heap s);
       let value = analog_value g;
       m \<leftarrow> free p (fb_heap s);
       Some (IO4E_OK, Some value, s\<lparr>fb_heap := m\<rparr>) } }"

definition io4edge_analogintypea_start_stream ::
  "('h, ('r, 'st) analog_msg) transport_t \<Rightarrow> pb_api \<Rightarrow> (('h, ('r, 'st) analog_msg) fbsys \<Rightarrow> ('h, ('r, 'st) analog_msg) fbsys option) \<Rightarrow>
   ('conf, 'r) analogintypea_api \<Rightarrow> stream_control_start \<Rightarrow> ('h, ('r, 'st) analog_msg) fbsys \<Rightarrow>
   (io4e_err_t \<times> stream_control_start \<times> ('h, ('r, 'st) analog_msg) fbsys) option" where
  "io4edge_analogintypea_start_stream methods pb env api fb_config s =
     (let packed_req = IO4E_PACK_PROTOMSG () (analog_stream_control_start api)
      in io4e_functionblock_start_stream methods pb env packed_req fb_config s)"


section \<open>The read in the common shape\<close>

definition analog_result :: "analog_get_response \<Rightarrow> io4e_err_t \<times> u32 option" where
  "analog_result g = (IO4E_OK, Some (analog_value g))"

lemma value_shape:
  "io4edge_analogintypea_value methods pb env api s = (do {
      (err, response, s) \<leftarrow> io4e_functionblock_function_control_get methods pb env
        (IO4E_PACK_PROTOMSG () (analog_function_control_get api))
        (unpack_as FS_GET_RESPONSE (analog_unpack_get_response api)) s;
      if err \<noteq> IO4E_OK then Some (err, None, s)
      else do {
        p \<leftarrow> response;
        g \<leftarrow> get_get_response p (fb_heap s);
        m \<leftarrow> free p (fb_heap s);
        Some (fst (analog_result g), snd (analog_result g), s\<lparr>fb_heap := m\<rparr>) } })"
  by (simp only: io4edge_analogintypea_value_def analog_result_def Let_def split_def fst_conv snd_conv)

lemma analog_result_iff: "fst (analog_result g) = IO4E_OK \<longleftrightarrow> snd (analog_result g) \<noteq> None"
  by (simp add: analog_result_def)

definition demo_analog :: "(unit, unit) analogintypea_api" where
  "demo_analog = \<lparr>analog_configuration_set = \<lparr>msg_pack = \<lambda>_. [], msg_name = ''ConfigurationSet''\<rparr>,
     analog_configuration_get = \<lparr>msg_pack = \<lambda>_. [], msg_name = ''ConfigurationGet''\<rparr>,
     analog_function_control_get = \<lparr>msg_pack = \<lambda>_. [], msg_name = ''FunctionControlGet''\<rparr>,
     analog_stream_control_start = \<lparr>msg_pack = \<lambda>_. [], msg_name = ''StreamControlStart''\<rparr>,
     analog_unpack_configuration = \<lambda>_. Some (),
     analog_unpack_get_response = \<lambda>bs. case bs of [] \<Rightarrow> None | b # _ \<Rightarrow> Some \<lparr>analog_value = ucast b\<rparr>\<rparr>"


section \<open>Properties\<close>

text \<open>C35 Reading the analog value, from the bytes on the wire to the caller's variable: one frame with an
  empty request is sent, and for any response the result is the value it carries, the device's
  error, \<open>IO4E_FAIL\<close> for a foreign context or \<open>IO4E_ERR_PROTOBUF\<close> for a response of another kind or one
  that does not unpack; the response and the message are freed in every case.\<close>

theorem analogintypea_reads:
  assumes "client_idle s" "s_in (fb_transport s) = frame data @ rest" "answer pb data w"
    and "cmd_context s = [c, 0]"
    and "FSTREAM_HEADER_SIZE
      + length (packed_command pb (get_command (analog_function_control_get api) ()) [c + 1, 0]) < 2 ^ 32"
  shows "\<exists>s'. io4edge_analogintypea_value socket_methods pb (read_thread 1 socket_methods pb sz) api s
      = Some (fst (value_outcome (analog_unpack_get_response api) analog_result [c + 1, 0] w),
          snd (value_outcome (analog_unpack_get_response api) analog_result [c + 1, 0] w), s') \<and>
    exchanged pb (get_command (analog_function_control_get api) ()) c w rest s s'"
  unfolding value_shape by (rule read_value_exchange [OF assms])

theorem analogintypea_reads_witness:
  "\<exists>s'. io4edge_analogintypea_value socket_methods echo_pb (read_thread 1 socket_methods echo_pb 8)
      demo_analog (demo_fs_client (frame [0, 66])) = Some (IO4E_OK, Some 66, s') \<and>
    s_out (fb_transport s') = frame [0, 66] \<and> fb_loose s' = {}"
proof -
  have "\<exists>s'. io4edge_analogintypea_value socket_methods echo_pb (read_thread 1 socket_methods echo_pb 8)
        demo_analog (demo_fs_client (frame [0, 66]))
      = Some (fst (value_outcome (analog_unpack_get_response demo_analog) analog_result [65 + 1, 0] (echo [66])),
          snd (value_outcome (analog_unpack_get_response demo_analog) analog_result [65 + 1, 0] (echo [66])), s') \<and>
    exchanged echo_pb (get_command (analog_function_control_get demo_analog) ()) 65
      (echo [66]) [] (demo_fs_client (frame [0, 66])) s'"
    by (rule analogintypea_reads [where data = "[0, 66]"])
       (simp_all add: demo_fs_client_idle demo_wf echo_answer demo_commands_short)
  moreover have "analog_unpack_get_response demo_analog [66] = Some \<lparr>analog_value = 66\<rparr>"
    by (simp add: demo_analog_def)
  ultimately show ?thesis
    by (simp add: echo_value_outcome analog_result_def exchanged_def demo_packed
        demo_wf demo_fs_client_loose) blast
qed

text \<open>Every call of the analog client, from any state between calls and with any well-formed messages coming in,
  returns, keeps the client's invariant, releases the mutex and leaves a state between calls; the read hands out a value exactly for
  \<open>IO4E_OK\<close> and leaves no object, the download hands out one new message exactly for \<open>IO4E_OK\<close>.\<close>

theorem analogintypea_calls_safe:
  assumes "steady fd pb ok s" "env = reader_turn n pb sz"
  shows "(\<exists>err v s'. io4edge_analogintypea_value socket_methods pb env api s = Some (err, v, s') \<and>
      request_done s err None s' \<and> (err = IO4E_OK \<longleftrightarrow> v \<noteq> None) \<and> steady fd pb ok s') \<and>
    (\<exists>err fs s'. io4edge_analogintypea_download_configuration socket_methods pb env api s = Some (err, fs, s') \<and>
      request_done s err fs s' \<and> (err = IO4E_OK \<longleftrightarrow> fs \<noteq> None) \<and>
      unpacked_by (unpack_as FS_CONFIGURATION (analog_unpack_configuration api)) fs s' \<and> steady fd pb ok s') \<and>
    (\<exists>err s'. io4edge_analogintypea_upload_configuration socket_methods pb env api conf s = Some (err, s') \<and>
      request_done s err None s' \<and> steady fd pb ok s') \<and>
    (\<exists>err cfg' s'. io4edge_analogintypea_start_stream socket_methods pb env api cfg s
        = Some (err, cfg', s') \<and> request_done s err None s' \<and> steady fd pb ok s')"
proof -
  show ?thesis
    unfolding assms(2) value_shape io4edge_analogintypea_download_configuration_def
      io4edge_analogintypea_upload_configuration_def io4edge_analogintypea_start_stream_def Let_def
    using read_call_done [OF assms(1) analog_result_iff] upload_steady [OF assms(1)]
      download_steady [OF assms(1)] start_call_done [OF assms(1)]
    by (intro conjI)
qed

theorem analogintypea_calls_safe_witness:
  "\<exists>err v s'. io4edge_analogintypea_value socket_methods echo_pb (reader_turn 2 echo_pb 8)
      demo_analog (demo_fs_client [1, 2, 3]) = Some (err, v, s') \<and>
    request_done (demo_fs_client [1, 2, 3]) err None s' \<and> (err = IO4E_OK \<longleftrightarrow> v \<noteq> None) \<and>
    steady 3 echo_pb (\<lambda>_. True) s'"
  by (rule analogintypea_calls_safe [OF demo_fs_client_steady refl, THEN conjunct1])

end
