(* ===== verification/Canl2.thy ===== *)
theory Canl2
  imports Fs_Client
begin

text \<open>
  The client of the CAN function block (\<open>canl2.c\<close>), modelled as the one of the binary function block.
  Frames and the stream's configuration are only passed on: type parameters. An enumeration is
  an \<open>int\<close>.
\<close>

section \<open>Messages\<close>

record can_get_response =
  can_controllerstate :: int

record ('conf, 'confres, 'frame, 'stream) canl2_api =
  can_configuration_set :: "'conf msg_class"
  can_configuration_get :: "unit msg_class"
  can_function_control_set :: "'frame list msg_class"
  can_function_control_get :: "unit msg_class"
  can_stream_control_start :: "'stream msg_class"
  can_unpack_configuration :: "bytes \<Rightarrow> 'confres option"
  can_unpack_get_response :: "bytes \<Rightarrow> can_get_response option"

type_synonym ('confres, 'data) can_msg = "(can_get_response, 'confres, unit, 'data) fs_msg"


section \<open>Operations\<close>

definition io4edge_canl2_upload_configuration ::
  "('h, ('r, 'st) can_msg) transport_t \<Rightarrow> pb_api \<Rightarrow> (('h, ('r, 'st) can_msg) fbsys \<Rightarrow> ('h, ('r, 'st) can_msg) fbsys option) \<Rightarrow>
   ('conf, 'r, 'frame, 'stream) canl2_api \<Rightarrow> 'conf \<Rightarrow> ('h, ('r, 'st) can_msg) fbsys \<Rightarrow>
   (io4e_err_t \<times> ('h, ('r, 'st) can_msg) fbsys) option" where
  "io4edge_canl2_upload_configuration methods pb env api configuration s =
     (let packed_req = IO4E_PACK_PROTOMSG configuration (can_configuration_set api)
      in io4e_functionblock_upload_configuration methods pb env packed_req s)"

definition io4edge_canl2_download_configuration ::
  "('h, ('r, 'st) can_msg) transport_t \<Rightarrow> pb_api \<Rightarrow> (('h, ('r, 'st) can_msg) fbsys \<Rightarrow> ('h, ('r, 'st) can_msg) fbsys option) \<Rightarrow>
   ('conf, 'r, 'frame, 'stream) canl2_api \<Rightarrow> ('h, ('r, 'st) can_msg) fbsys \<Rightarrow>
   (io4e_err_t \<times> ptr option \<times> ('h, ('r, 'st) can_msg) fbsys) option" where
  "io4edge_canl2_download_configuration methods pb env api s =
     (let packed_req = IO4E_PACK_PROTOMSG () (can_configuration_get api)
      in io4e_functionblock_download_configuration methods pb env packed_req
           (unpack_as FS_CONFIGURATION (can_unpack_configuration api)) s)"

text \<open>
  The message refers to the caller's array \<open>frames\<close>; packing reads its first \<open>n_frames\<close> elements, which
  is undefined when the array is shorter.
\<close>

definition io4edge_canl2_send_frames ::
  "('h, ('r, 'st) can_msg) transport_t \<Rightarrow> pb_api \<Rightarrow> (('h, ('r, 'st) can_msg) fbsys \<Rightarrow> ('h, ('r, 'st) can_msg) fbsys option) \<Rightarrow>
   ('conf, 'r, 'frame, 'stream) canl2_api \<Rightarrow> 'frame list \<Rightarrow> nat \<Rightarrow> ('h, ('r, 'st) can_msg) fbsys \<Rightarrow>
   (io4e_err_t \<times> ('h, ('r, 'st) can_msg) fbsys) option" where
  "io4edge_canl2_send_frames methods pb env api frames n_frames s = do {
     set_req \<leftarrow> (if n_frames \<le> length frames then Some (take n_frames frames) else None);
     let packed_req = IO4E_PACK_PROTOMSG set_req (can_function_control_set api);
     (err, _, s) \<leftarrow> io4e_functionblock_function_control_set methods pb env packed_req None s;
     Some (err, s) }"

definition io4edge_canl2_ctrl_state ::
  "('h, ('r, 'st) can_msg) transport_t \<Rightarrow> pb_api \<Rightarrow> (('h, ('r, 'st) can_msg) fbsys \<Rightarrow> ('h, ('r, 'st) can_msg) fbsys option) \<Rightarrow>
   ('conf, 'r, 'frame, 'stream) canl2_api \<Rightarrow> ('h, ('r, 'st) can_msg) fbsys \<Rightarrow>
   (io4e_err_t \<times> int option \<times> ('h, ('r, 'st) can_msg) fbsys) option" where
  "io4edge_canl2_ctrl_state methods pb env api s = do {
     let packed_req = IO4E_PACK_PROTOMSG () (can_function_control_get api);
     (err, response, s) \<leftarrow> io4e_functionblock_function_control_get methods pb env packed_req
        (unpack_as FS_GET_RESPONSE (can_unpack_get_response api)) s;
     if err \<noteq> IO4E_OK then Some (err, None, s)
     else do {
       p \<leftarrow> response;
       g \<leftarrow> get_get_response p (fb_heap s);
       let state = can_controllerstate g;
       m \<leftarrow> free p (fb_heap s);
       Some (IO4E_OK, Some state, s\<lparr>fb_heap := m\<rparr>) } }"

definition io4edge_canl2_start_stream ::
  "('h, ('r, 'st) can_msg) transport_t \<Rightarrow> pb_api \<Rightarrow> (('h, ('r, 'st) can_msg) fbsys \<Rightarrow> ('h, ('r, 'st) can_msg) fbsys option) \<Rightarrow>
   ('conf, 'r, 'frame, 'stream) canl2_api \<Rightarrow> 'stream \<Rightarrow> stream_control_start \<Rightarrow> ('h, ('r, 'st) can_msg) fbsys \<Rightarrow>
   (io4e_err_t \<times> stream_control_start \<times> ('h, ('r, 'st) can_msg) fbsys) option" where
  "io4edge_canl2_start_stream methods pb env api config fb_config s =
     (let packed_req = IO4E_PACK_PROTOMSG config (can_stream_control_start api)
      in io4e_functionblock_start_stream methods pb env packed_req fb_config s)"


section \<open>The read in the common shape\<close>

definition can_result :: "can_get_response \<Rightarrow> io4e_err_t \<times> int option" where
  "can_result g = (IO4E_OK, Some (can_controllerstate g))"

lemma ctrl_state_shape:
  "io4edge_canl2_ctrl_state methods pb env api s = (do {
      (err, response, s) \<leftarrow> io4e_functionblock_function_control_get methods pb env
        (IO4E_PACK_PROTOMSG () (can_function_control_get api))
        (unpack_as FS_GET_RESPONSE (can_unpack_get_response api)) s;
      if err \<noteq> IO4E_OK then Some (err, None, s)
      else do {
        p \<leftarrow> response;
        g \<leftarrow> get_get_response p (fb_heap s);
        m \<leftarrow> free p (fb_heap s);
        Some (fst (can_result g), snd (can_result g), s\<lparr>fb_heap := m\<rparr>) } })"
  by (simp only: io4edge_canl2_ctrl_state_def can_result_def Let_def split_def fst_conv snd_conv)

lemma can_result_iff: "fst (can_result g) = IO4E_OK \<longleftrightarrow> snd (can_result g) \<noteq> None"
  by (simp add: can_result_def)

lemma send_frames_shape:
  "n_frames \<le> length frames \<Longrightarrow> io4edge_canl2_send_frames methods pb env api frames n_frames s = (do {
      (err, _, s) \<leftarrow> io4e_functionblock_function_control_set methods pb env
        (IO4E_PACK_PROTOMSG (take n_frames frames) (can_function_control_set api)) None s;
      Some (err, s) })"
  by (simp add: io4edge_canl2_send_frames_def Let_def)

definition demo_can :: "(unit, unit, nat, unit) canl2_api" where
  "demo_can = \<lparr>can_configuration_set = \<lparr>msg_pack = \<lambda>_. [], msg_name = ''ConfigurationSet''\<rparr>,
     can_configuration_get = \<lparr>msg_pack = \<lambda>_. [], msg_name = ''ConfigurationGet''\<rparr>,
     can_function_control_set = \<lparr>msg_pack = \<lambda>fs. map of_nat fs, msg_name = ''FunctionControlSet''\<rparr>,
     can_function_control_get = \<lparr>msg_pack = \<lambda>_. [], msg_name = ''FunctionControlGet''\<rparr>,
     can_stream_control_start = \<lparr>msg_pack = \<lambda>_. [], msg_name = ''StreamControlStart''\<rparr>,
     can_unpack_configuration = \<lambda>_. Some (),
     can_unpack_get_response = \<lambda>bs. Some \<lparr>can_controllerstate = int (length bs)\<rparr>\<rparr>"


section \<open>Properties\<close>

text \<open>C26 Sending frames and reading the controller state, end to end: \<open>send_frames\<close> sends one command with
  exactly the first \<open>n_frames\<close> frames of the array, all in one or none at all, and returns the
  device's verdict (for example temporarily unavailable, when its queue is full); \<open>ctrl_state\<close> returns
  the state the response carries, or the error it shows. Nothing is left on the heap.\<close>

theorem canl2_exchanges:
  assumes "client_idle s" "s_in (fb_transport s) = frame data @ rest" "answer pb data w"
    and "cmd_context s = [c, 0]" "n_frames \<le> length frames"
    and "FSTREAM_HEADER_SIZE + length (packed_command pb
          (set_command (can_function_control_set api) (take n_frames frames)) [c + 1, 0]) < 2 ^ 32"
    and "FSTREAM_HEADER_SIZE
      + length (packed_command pb (get_command (can_function_control_get api) ()) [c + 1, 0]) < 2 ^ 32"
  shows "(\<exists>s'. io4edge_canl2_send_frames socket_methods pb (read_thread 1 socket_methods pb sz) api
        frames n_frames s = Some (set_outcome [c + 1, 0] w, s') \<and>
      exchanged pb (set_command (can_function_control_set api) (take n_frames frames)) c w rest s s') \<and>
    (\<exists>s'. io4edge_canl2_ctrl_state socket_methods pb (read_thread 1 socket_methods pb sz) api s
      = Some (fst (value_outcome (can_unpack_get_response api) can_result [c + 1, 0] w),
          snd (value_outcome (can_unpack_get_response api) can_result [c + 1, 0] w), s') \<and>
      exchanged pb (get_command (can_function_control_get api) ()) c w rest s s')"
  unfolding send_frames_shape [OF assms(5)] ctrl_state_shape
  by (intro conjI set_call_exchange [OF assms(1-4,6)] read_value_exchange [OF assms(1-4,7)])

theorem canl2_exchanges_witness:
  "\<exists>s'. io4edge_canl2_send_frames socket_methods confirm_pb (read_thread 1 socket_methods confirm_pb 8)
      demo_can [1, 2, 3] 2 (demo_fs_client (frame [66])) = Some (IO4E_OK, s') \<and>
    s_out (fb_transport s') = frame [0, 66]"
proof -
  have "\<exists>s'. io4edge_canl2_send_frames socket_methods confirm_pb (read_thread 1 socket_methods confirm_pb 8)
        demo_can [1, 2, 3] 2 (demo_fs_client (frame [66])) = Some (set_outcome [65 + 1, 0] (confirm [66]), s') \<and>
      exchanged confirm_pb (set_command (can_function_control_set demo_can) (take 2 [1, 2, 3]))
        65 (confirm [66]) [] (demo_fs_client (frame [66])) s'"
    by (rule canl2_exchanges [where data = "[66]", THEN conjunct1])
       (simp_all add: demo_fs_client_idle demo_wf confirm_answer demo_commands_short)
  then show ?thesis
    by (simp add: confirm_outcome exchanged_def demo_packed demo_wf) blast
qed

text \<open>Every call of the CAN client, from any state between calls and with any well-formed messages coming in, returns,
  keeps the client's invariant, releases the mutex and leaves a state between calls, provided the array has \<open>n_frames\<close> elements
  (with fewer the call is undefined); objects are handed out exactly as for the other clients.\<close>

theorem canl2_calls_safe:
  assumes "steady fd pb ok s" "env = reader_turn n pb sz"
  shows "(if n_frames \<le> length frames
       then \<exists>err s'. io4edge_canl2_send_frames socket_methods pb env api frames n_frames s = Some (err, s') \<and>
         request_done s err None s' \<and> steady fd pb ok s'
       else io4edge_canl2_send_frames socket_methods pb env api frames n_frames s = None) \<and>
    (\<exists>err v s'. io4edge_canl2_ctrl_state socket_methods pb env api s = Some (err, v, s') \<and>
      request_done s err None s' \<and> (err = IO4E_OK \<longleftrightarrow> v \<noteq> None) \<and> steady fd pb ok s') \<and>
    (\<exists>err fs s'. io4edge_canl2_download_configuration socket_methods pb env api s = Some (err, fs, s') \<and>
      request_done s err fs s' \<and> (err = IO4E_OK \<longleftrightarrow> fs \<noteq> None) \<and>
      unpacked_by (unpack_as FS_CONFIGURATION (can_unpack_configuration api)) fs s' \<and> steady fd pb ok s') \<and>
    (\<exists>err s'. io4edge_canl2_upload_configuration socket_methods pb env api conf s = Some (err, s') \<and>
      request_done s err None s' \<and> steady fd pb ok s') \<and>
    (\<exists>err cfg' s'. io4edge_canl2_start_stream socket_methods pb env api config cfg s
        = Some (err, cfg', s') \<and> request_done s err None s' \<and> steady fd pb ok s')"
proof -
  have send: "if n_frames \<le> length frames
       then \<exists>err s'. io4edge_canl2_send_frames socket_methods pb env api frames n_frames s = Some (err, s') \<and>
         request_done s err None s' \<and> steady fd pb ok s'
       else io4edge_canl2_send_frames socket_methods pb env api frames n_frames s = None"
    using set_call_done [OF assms(1)] send_frames_shape [of n_frames frames] assms(2)
    by (simp add: io4edge_canl2_send_frames_def)
  show ?thesis
    using send [unfolded assms(2)] read_call_done [OF assms(1) can_result_iff]
      upload_steady [OF assms(1)]
      download_steady [OF assms(1)] start_call_done [OF assms(1)]
    unfolding assms(2) ctrl_state_shape io4edge_canl2_download_configuration_def
      io4edge_canl2_upload_configuration_def io4edge_canl2_start_stream_def Let_def
    by (intro conjI)
qed

theorem canl2_calls_safe_witness:
  "\<exists>err v s'. io4edge_canl2_ctrl_state socket_methods echo_pb (reader_turn 2 echo_pb 8)
      demo_can (demo_fs_client (frame [0, 66])) = Some (err, v, s') \<and>
    request_done (demo_fs_client (frame [0, 66])) err None s' \<and> (err = IO4E_OK \<longleftrightarrow> v \<noteq> None) \<and>
    steady 3 echo_pb (\<lambda>_. True) s'"
  by (rule canl2_calls_safe [OF demo_fs_client_steady refl, THEN conjunct2, THEN conjunct1])

end
