(* ===== verification/Mvbsniffer.thy ===== *)
theory Mvbsniffer
  imports Fs_Client
begin

text \<open>
  The client of the MVB sniffer function block (\<open>mvbsniffer.c\<close>), modelled as the one of the binary
  function block. The pattern is a C string, given without its terminating zero byte.
\<close>

record mvb_function_control_set =
  generator_pattern :: bytes

record 'stream mvbsniffer_api =
  mvb_function_control_set :: "mvb_function_control_set msg_class"
  mvb_stream_control_start :: "'stream msg_class"

definition io4edge_mvbsniffer_send_pattern ::
  "('h, 'fs) transport_t \<Rightarrow> pb_api \<Rightarrow> (('h, 'fs) fbsys \<Rightarrow> ('h, 'fs) fbsys option) \<Rightarrow>
   'stream mvbsniffer_api \<Rightarrow> bytes \<Rightarrow> ('h, 'fs) fbsys \<Rightarrow>
   (io4e_err_t \<times> ('h, 'fs) fbsys) option" where
  "io4edge_mvbsniffer_send_pattern methods pb env api msg s = do {
     let set_req = \<lparr>generator_pattern = msg\<rparr>;
     let packed_req = IO4E_PACK_PROTOMSG set_req (mvb_function_control_set api);
     (err, _, s) \<leftarrow> io4e_functionblock_function_control_set methods pb env packed_req None s;
     Some (err, s) }"

definition io4edge_mvbsniffer_start_stream ::
  "('h, 'fs) transport_t \<Rightarrow> pb_api \<Rightarrow> (('h, 'fs) fbsys \<Rightarrow> ('h, 'fs) fbsys option) \<Rightarrow>
   'stream mvbsniffer_api \<Rightarrow> 'stream \<Rightarrow> stream_control_start \<Rightarrow> ('h, 'fs) fbsys \<Rightarrow>
   (io4e_err_t \<times> stream_control_start \<times> ('h, 'fs) fbsys) option" where
  "io4edge_mvbsniffer_start_stream methods pb env api config fb_config s =
     (let packed_req = IO4E_PACK_PROTOMSG config (mvb_stream_control_start api)
      in io4e_functionblock_start_stream methods pb env packed_req fb_config s)"

definition start_command :: "stream_control_start \<Rightarrow> 'm msg_class \<Rightarrow> 'm \<Rightarrow> command_pb" where
  "start_command cfg cls config = \<lparr>cmd_ctx = None, cmd_type = COMMAND_STREAM_CONTROL
     (STREAM_CONTROL_START (cfg\<lparr>functionspecificstreamcontrolstart :=
        Some (MAKE_ANYPB (IO4E_PACK_PROTOMSG config cls))\<rparr>))\<rparr>"

definition demo_mvb :: "unit mvbsniffer_api" where
  "demo_mvb = \<lparr>mvb_function_control_set = \<lparr>msg_pack = generator_pattern, msg_name = ''FunctionControlSet''\<rparr>,
     mvb_stream_control_start = \<lparr>msg_pack = \<lambda>_. [], msg_name = ''StreamControlStart''\<rparr>\<rparr>"

text \<open>C36 Sending a pattern and starting the stream, end to end: each call sends exactly one frame, the
  command with the pattern, or with the two configurations of the stream, and returns the device's
  verdict; nothing is left on the heap. The caller's configuration is returned with its \<open>Any\<close> member set.\<close>

theorem mvbsniffer_exchanges:
  assumes "client_idle s" "s_in (fb_transport s) = frame data @ rest" "answer pb data w"
    and "cmd_context s = [c, 0]"
    and "FSTREAM_HEADER_SIZE + length (packed_command pb
          (set_command (mvb_function_control_set api) \<lparr>generator_pattern = msg\<rparr>) [c + 1, 0]) < 2 ^ 32"
    and "FSTREAM_HEADER_SIZE + length (packed_command pb
          (start_command cfg (mvb_stream_control_start api) config) [c + 1, 0]) < 2 ^ 32"
  shows "(\<exists>s'. io4edge_mvbsniffer_send_pattern socket_methods pb (read_thread 1 socket_methods pb sz) api
        msg s = Some (set_outcome [c + 1, 0] w, s') \<and>
      exchanged pb (set_command (mvb_function_control_set api) \<lparr>generator_pattern = msg\<rparr>) c w rest s s') \<and>
    (\<exists>cfg' s'. io4edge_mvbsniffer_start_stream socket_methods pb (read_thread 1 socket_methods pb sz) api
        config cfg s = Some (command_verdict [c + 1, 0] w, cfg', s') \<and>
      cmd_type (start_command cfg (mvb_stream_control_start api) config)
        = COMMAND_STREAM_CONTROL (STREAM_CONTROL_START cfg') \<and>
      exchanged pb (start_command cfg (mvb_stream_control_start api) config) c w rest s s')"
proof
  show "\<exists>s'. io4edge_mvbsniffer_send_pattern socket_methods pb (read_thread 1 socket_methods pb sz) api
        msg s = Some (set_outcome [c + 1, 0] w, s') \<and>
      exchanged pb (set_command (mvb_function_control_set api) \<lparr>generator_pattern = msg\<rparr>) c w rest s s'"
    unfolding io4edge_mvbsniffer_send_pattern_def Let_def by (rule set_call_exchange [OF assms(1-5)])
  obtain s' where "command socket_methods pb (read_thread 1 socket_methods pb sz)
      (start_command cfg (mvb_stream_control_start api) config) False s
      = Some (command_verdict [c + 1, 0] w, NULL, s')"
    "exchanged pb (start_command cfg (mvb_stream_control_start api) config) c w rest s s'"
    by (rule plain_exchange [OF assms(1-4,6)])
  then show "\<exists>cfg' s'. io4edge_mvbsniffer_start_stream socket_methods pb (read_thread 1 socket_methods pb sz)
        api config cfg s = Some (command_verdict [c + 1, 0] w, cfg', s') \<and>
      cmd_type (start_command cfg (mvb_stream_control_start api) config)
        = COMMAND_STREAM_CONTROL (STREAM_CONTROL_START cfg') \<and>
      exchanged pb (start_command cfg (mvb_stream_control_start api) config) c w rest s s'"
    by (simp add: io4edge_mvbsniffer_start_stream_def io4e_functionblock_start_stream_def start_command_def
        Let_def del: One_nat_def) 
qed

theorem mvbsniffer_exchanges_witness:
  "\<exists>s'. io4edge_mvbsniffer_send_pattern socket_methods confirm_pb (read_thread 1 socket_methods confirm_pb 8)
      demo_mvb [50] (demo_fs_client (frame [66])) = Some (IO4E_OK, s') \<and>
    s_out (fb_transport s') = frame [0, 66]"
proof -
  have "\<exists>s'. io4edge_mvbsniffer_send_pattern socket_methods confirm_pb (read_thread 1 socket_methods confirm_pb 8)
        demo_mvb [50] (demo_fs_client (frame [66])) = Some (set_outcome [65 + 1, 0] (confirm [66]), s') \<and>
      exchanged confirm_pb (set_command (mvb_function_control_set demo_mvb) \<lparr>generator_pattern = [50]\<rparr>)
        65 (confirm [66]) [] (demo_fs_client (frame [66])) s'"
    by (rule mvbsniffer_exchanges [where data = "[66]", THEN conjunct1])
       (simp_all add: demo_fs_client_idle demo_wf confirm_answer demo_commands_short)
  then show ?thesis
    by (simp add: confirm_outcome exchanged_def demo_packed demo_wf) blast
qed

text \<open>Both calls of the MVB client return from any state between calls and with any well-formed messages coming
  in, keep the client's invariant, leave no object behind and leave a state between calls.\<close>

theorem mvbsniffer_calls_safe:
  assumes "steady fd pb ok s" "env = reader_turn n pb sz"
  shows "(\<exists>err s'. io4edge_mvbsniffer_send_pattern socket_methods pb env api msg s = Some (err, s') \<and>
      request_done s err None s' \<and> steady fd pb ok s') \<and>
    (\<exists>err cfg' s'. io4edge_mvbsniffer_start_stream socket_methods pb env api config cfg s
      = Some (err, cfg', s') \<and> request_done s err None s' \<and> steady fd pb ok s')"
  unfolding assms(2) io4edge_mvbsniffer_send_pattern_def io4edge_mvbsniffer_start_stream_def Let_def
  using set_call_done [OF assms(1)] start_call_done [OF assms(1)] by (intro conjI)

theorem mvbsniffer_calls_safe_witness:
  "\<exists>err s'. io4edge_mvbsniffer_send_pattern socket_methods echo_pb (reader_turn 2 echo_pb 8)
      demo_mvb [50] (demo_client [0xFE, 0xED, 1]) = Some (err, s') \<and>
    request_done (demo_client [0xFE, 0xED, 1]) err None s' \<and> steady 3 echo_pb (\<lambda>_. True) s'"
  by (rule mvbsniffer_calls_safe [OF demo_steady refl, THEN conjunct1])

end
