(* ===== verification/Client_Session.thy ===== *)
theory Client_Session
  imports Fs_Client
begin

text \<open>
  Programs that make many calls on one client: every request and reading the stream keep the state between two
  calls (\<open>steady\<close>), so that programs compose. What a program relies on about the messages of the stream is
  the parameter \<open>ok\<close>: a condition on what the device sends.
\<close>

section \<open>Reading the stream and giving back what was read\<close>

lemma reader_turn_steady:
  assumes "steady fd pb ok s"
  shows "\<exists>s'. reader_turn n pb sz s = Some s' \<and> steady fd pb ok s' \<and> fb_loose s' = fb_loose s"
  using assms reader_turn_sound [of fd "msg_wf pb ok" s n pb sz ok]
  by (auto simp: steady_def sock_live_def reader_frame_def)

text \<open>Giving back an object of the user's.\<close>

lemma free_steady:
  assumes "steady fd pb ok s" "p \<in> fb_loose s"
  obtains m where "free p (fb_heap s) = Some m" "steady fd pb ok (s\<lparr>fb_heap := m\<rparr>)"
    "fb_loose (s\<lparr>fb_heap := m\<rparr>) = fb_loose s - {p}"
    "m_store m = (m_store (fb_heap s))(p := None)"
proof -
  from assms(1) have inv: "fb_inv s" and wf: "pending_wf pb ok s" by (simp_all add: steady_def)
  note I = fb_invD [OF inv]
  from assms(2) obtain x where x: "m_store (fb_heap s) p = Some x" and own: "p \<notin> fb_owned s"
    by (auto simp: fb_loose_def)
  let ?m = "(fb_heap s)\<lparr>m_store := (m_store (fb_heap s))(p := None)\<rparr>"
  have "free p (fb_heap s) = Some ?m" using I(1) x by simp
  moreover have "fb_inv (s\<lparr>fb_heap := ?m\<rparr>)"
    using I mem_wf_remove [OF I(1), of p] own by (auto simp: fb_inv_def fb_owned_def split: if_splits)
  moreover have "client_kept s (s\<lparr>fb_heap := ?m\<rparr>)" using own by (auto simp: client_kept_def)
  from pending_wf_kept [OF this calculation(2) wf] have "pending_wf pb ok (s\<lparr>fb_heap := ?m\<rparr>)" .
  moreover have "fb_loose (s\<lparr>fb_heap := ?m\<rparr>) = fb_loose s - {p}"
    by (auto simp: fb_loose_def fb_owned_def)
  ultimately show ?thesis using assms(1) by (intro that [of ?m]) (simp_all add: steady_def)
qed

text \<open>
  The outcome of \<open>read_stream\<close>: two new objects for \<open>IO4E_OK\<close>; otherwise at most the message itself is
  lost.
\<close>

lemma read_stream_steady:
  assumes "steady fd pb ok s"
  obtains (got) sd fs s' d x any where
      "io4edge_functionblock_read_stream sz u t s = Some (IO4E_OK, sd, fs, s')" "steady fd pb ok s'"
      "sd \<noteq> fs" "sd \<notin> fb_loose s" "fs \<notin> fb_loose s" "fb_loose s' = insert fs (insert sd (fb_loose s))"
      "m_store (fb_heap s') sd = Some (OStreamData d)" "m_store (fb_heap s') fs = Some (OFs x)"
      "ok d" "functionspecificstreamdata d = Some any" "u (any_value any) = Some x"
  | (fail) err s' where
      "io4edge_functionblock_read_stream sz u t s = Some (err, NULL, NULL, s')" "err \<noteq> IO4E_OK"
      "steady fd pb ok s'" "\<exists>lost. fb_loose s' = fb_loose s \<union> lost \<and> finite lost \<and> card lost \<le> 1"
proof (cases "sq_list (fb_streamq s)")
  case Nil
  from assms have inv: "fb_inv s" and wf: "pending_wf pb ok s" by (simp_all add: steady_def)
  note I = fb_invD [OF inv]
  let ?s = "s\<lparr>fb_streamq := fb_streamq s, fb_now := max (fb_now s) (get_timeout sz (fb_now s) (word_of_int t))\<rparr>"
  have "fb_inv ?s" "fb_loose ?s = fb_loose s" "pending_wf pb ok ?s"
    using inv wf by (simp_all add: fb_inv_def fb_loose_def fb_owned_def pending_wf_def)
  with pop_empty [OF I(2) Nil] assms show ?thesis
    by (intro fail [of IO4E_ERR_TIMEOUT ?s])
       (auto simp: io4edge_functionblock_read_stream_def err_defs steady_def intro!: exI [of _ "{}"])
next
  case (Cons m ms)
  from assms have inv: "fb_inv s" and wf: "pending_wf pb ok s" by (simp_all add: steady_def)
  note I = fb_invD [OF inv]
  obtain d q where d: "m_store (fb_heap s) m = Some (OStreamData d)" and get: "get_stream_data m (fb_heap s) = Some d"
    and q: "io4e_streamq_pop sz (fb_now s) (fb_streamq s) (word_of_int t) = Some (IO4E_OK, Some m, q, fb_now s)"
      "sq_list q = ms"
    and inv1: "fb_inv (s\<lparr>fb_streamq := q, fb_now := fb_now s\<rparr>)"
    and loose: "fb_loose (s\<lparr>fb_streamq := q, fb_now := fb_now s\<rparr>) = insert m (fb_loose s)" "m \<notin> fb_loose s"
    by (rule pop_stream [OF inv Cons])
  let ?s = "s\<lparr>fb_streamq := q, fb_now := fb_now s\<rparr>"
  have st: "steady fd pb ok ?s" using assms inv1 wf q(2) Cons by (simp add: steady_def pending_wf_def)
  note eq = io4edge_functionblock_read_stream_def [of sz u t s]
  have lost: "\<exists>lost. insert m (fb_loose s) = fb_loose s \<union> lost \<and> finite lost \<and> card lost \<le> 1"
    by (rule exI [of _ "{m}"]) simp
  show ?thesis
  proof (cases "functionspecificstreamdata d")
    case None
    with q(1,2) get st loose lost show ?thesis
      by (intro fail [of IO4E_ERR_PROTOBUF ?s]) (simp_all add: eq err_defs)
  next
    case (Some any)
    obtain fs mm where un: "fs_unpack u (any_value any) (fb_heap s) = (fs, mm)" by fastforce
    from I(1) un show ?thesis
    proof (cases rule: fs_unpack_cases)
      case none
      let ?s' = "?s\<lparr>fb_heap := mm\<rparr>"
      have "fb_inv ?s'" "pending_wf pb ok ?s'" "fb_loose ?s' = fb_loose ?s"
        using inv1 st none(2,3) by (auto simp: fb_inv_def steady_def pending_wf_def fb_loose_def fb_owned_def)
      with q(1,2) get st loose lost Some un none(1) show ?thesis
        by (intro fail [of IO4E_ERR_PROTOBUF ?s']) (simp_all add: eq err_defs steady_def Let_def)
    next
      case (some x)
      let ?s' = "?s\<lparr>fb_heap := mm\<rparr>"
      have new: "fb_inv ?s'" "fb_loose ?s' = insert fs (fb_loose ?s)"
        using fb_inv_alloc [OF inv1, of mm fs "OFs x"] some(3-5) by simp_all
      have nf: "fs \<notin> fb_loose s" "fs \<noteq> m" using some(4) d by (auto simp: fb_loose_def)
      have "pending_wf pb ok ?s'"
        by (rule pending_wf_kept [of ?s])
           (use st new(1) some(4,5) fb_owned_live [OF inv1] in \<open>auto simp: client_kept_def steady_def\<close>)
      moreover have "ok d" using wf Cons d by (auto simp: pending_wf_def)
      ultimately show ?thesis using new q(1,2) get st loose Some un some nf d
        by (intro got [of m fs ?s' d x any]) (simp_all add: eq steady_def Let_def)
    qed
  qed
qed


section \<open>The loop that the example programs share\<close>

text \<open>
  Read a message, show it, free it; \<open>False\<close> when reading fails. \<open>display\<close> is what the program reads of
  the message to print it, \<open>env\<close> what the other threads do before.
\<close>

definition read_sample ::
  "nat \<Rightarrow> (bytes \<Rightarrow> 'fs option) \<Rightarrow> int \<Rightarrow> (stream_data \<Rightarrow> 'fs \<Rightarrow> unit option) \<Rightarrow>
   (('h, 'fs) fbsys \<Rightarrow> ('h, 'fs) fbsys option) \<Rightarrow> ('h, 'fs) fbsys \<Rightarrow> (bool \<times> ('h, 'fs) fbsys) option"
where
  "read_sample sz u timeout display env s = do {
     s \<leftarrow> env s;
     (err, sd, fs, s) \<leftarrow> io4edge_functionblock_read_stream sz u timeout s;
     if err \<noteq> IO4E_OK then Some (False, s)
     else do {
       d \<leftarrow> get_stream_data sd (fb_heap s);
       x \<leftarrow> get_fs fs (fb_heap s);
       _ \<leftarrow> display d x;
       m \<leftarrow> free fs (fb_heap s);
       m \<leftarrow> free sd m;
       Some (True, s\<lparr>fb_heap := m\<rparr>) } }"

text \<open>\<open>n\<close> messages; 1 when reading fails, as in the \<open>main\<close> functions that return.\<close>

fun read_samples ::
  "nat \<Rightarrow> nat \<Rightarrow> (bytes \<Rightarrow> 'fs option) \<Rightarrow> int \<Rightarrow> (stream_data \<Rightarrow> 'fs \<Rightarrow> unit option) \<Rightarrow>
   (('h, 'fs) fbsys \<Rightarrow> ('h, 'fs) fbsys option) \<Rightarrow> ('h, 'fs) fbsys \<Rightarrow> (int \<times> ('h, 'fs) fbsys) option"
where
  "read_samples 0 sz u timeout display env s = Some (0, s)"
| "read_samples (Suc n) sz u timeout display env s = do {
     (ok, s) \<leftarrow> read_sample sz u timeout display env s;
     if ok then read_samples n sz u timeout display env s else Some (1, s) }"

text \<open>What a program leaves: all given back for 0, else at most one object lost.\<close>

definition lost_one :: "('h, 'fs) fbsys \<Rightarrow> ('h, 'fs) fbsys \<Rightarrow> bool" where
  "lost_one s s' \<longleftrightarrow> (\<exists>lost. fb_loose s' = fb_loose s \<union> lost \<and> finite lost \<and> card lost \<le> 1)"

definition program_done :: "int \<Rightarrow> pb_api \<Rightarrow> (stream_data \<Rightarrow> bool) \<Rightarrow> (sock, 'fs) fbsys \<Rightarrow> int \<Rightarrow> (sock, 'fs) fbsys \<Rightarrow> bool" where
  "program_done fd pb ok s ret s' \<longleftrightarrow>
     steady fd pb ok s' \<and> (ret = 0 \<and> fb_loose s' = fb_loose s \<or> ret = 1 \<and> lost_one s s')"

lemma lost_one_refl: "fb_loose s' = fb_loose s \<Longrightarrow> lost_one s s'"
  by (auto simp: lost_one_def intro!: exI [of _ "{}"])

lemma program_done_trans:
  "fb_loose s1 = fb_loose s \<Longrightarrow> program_done fd pb ok s1 ret s' \<Longrightarrow> program_done fd pb ok s ret s'"
  by (simp add: program_done_def lost_one_def)

lemma program_done_1: "steady fd pb ok s' \<Longrightarrow> fb_loose s' = fb_loose s \<Longrightarrow> program_done fd pb ok s 1 s'"
  by (simp add: program_done_def lost_one_refl)

text \<open>
  What the program reads of a message to print it is there, for every message that is \<open>ok\<close> and whose data
  unpack.
\<close>

definition shows_all ::
  "(stream_data \<Rightarrow> bool) \<Rightarrow> (bytes \<Rightarrow> 'fs option) \<Rightarrow> (stream_data \<Rightarrow> 'fs \<Rightarrow> unit option) \<Rightarrow> bool"
where
  "shows_all ok u display \<longleftrightarrow>
     (\<forall>d any x. ok d \<and> functionspecificstreamdata d = Some any \<and> u (any_value any) = Some x \<longrightarrow>
        display d x \<noteq> None)"

lemma read_sample_done:
  assumes "env s = Some s1" "steady fd pb ok s1" "fb_loose s1 = fb_loose s"
    and d: "shows_all ok u display"
  shows "\<exists>more s'. read_sample sz u t display env s = Some (more, s') \<and> steady fd pb ok s' \<and>
    (if more then fb_loose s' = fb_loose s else lost_one s s')"
  using assms(2)
proof (cases rule: read_stream_steady [where sz = sz and u = u and t = t])
  case (got sd fs s2 e x any)
  have live: "get_stream_data sd (fb_heap s2) = Some e" "get_fs fs (fb_heap s2) = Some x"
    using got(2,7,8) by (simp_all add: get_stream_data_def get_fs_def steady_def fb_invD(1))
  have "fs \<in> fb_loose s2" using got(6) by simp
  with got(2) obtain m where m: "free fs (fb_heap s2) = Some m" "steady fd pb ok (s2\<lparr>fb_heap := m\<rparr>)"
    "fb_loose (s2\<lparr>fb_heap := m\<rparr>) = fb_loose s2 - {fs}" by (rule free_steady)
  have "sd \<in> fb_loose (s2\<lparr>fb_heap := m\<rparr>)" using m(3) got(3,6) by simp
  with m(2) obtain m' where m': "free sd (fb_heap (s2\<lparr>fb_heap := m\<rparr>)) = Some m'"
    "steady fd pb ok (s2\<lparr>fb_heap := m, fb_heap := m'\<rparr>)"
    "fb_loose (s2\<lparr>fb_heap := m, fb_heap := m'\<rparr>) = fb_loose (s2\<lparr>fb_heap := m\<rparr>) - {sd}"
    by (rule free_steady)
  from d got(9-11) obtain v where v: "display e x = Some v" by (auto simp: shows_all_def)
  have "steady fd pb ok (s2\<lparr>fb_heap := m'\<rparr>)" "fb_loose (s2\<lparr>fb_heap := m'\<rparr>) = fb_loose s"
    using m'(2,3) m(3) got(3-6) assms(3) by auto
  with assms(1) got(1) live v m(1) m'(1) show ?thesis by (auto simp: read_sample_def)
next
  case (fail err s2)
  with assms(1,3) show ?thesis by (auto simp: read_sample_def lost_one_def)
qed

lemma read_samples_done:
  assumes "steady fd pb ok s" and d: "shows_all ok u display"
  shows "\<exists>ret s'. read_samples k sz u t display (reader_turn n pb sz) s = Some (ret, s') \<and>
    program_done fd pb ok s ret s'"
  using assms(1)
proof (induction k arbitrary: s)
  case (Suc k)
  from reader_turn_steady [OF Suc.prems] obtain s1 where s1: "reader_turn n pb sz s = Some s1"
    "steady fd pb ok s1" "fb_loose s1 = fb_loose s" by blast
  from read_sample_done [where env = "reader_turn n pb sz" and u = u and display = display and sz = sz
      and t = t, OF s1 d] obtain more s2 where
    s2: "read_sample sz u t display (reader_turn n pb sz) s = Some (more, s2)" "steady fd pb ok s2"
      "if more then fb_loose s2 = fb_loose s else lost_one s s2" by blast
  show ?case
  proof (cases more)
    case True
    with s2(3) have eq: "fb_loose s2 = fb_loose s" by simp
    from Suc.IH [OF s2(2)] s2(1) True program_done_trans [OF eq] show ?thesis by fastforce
  next
    case False
    with s2 show ?thesis by (simp add: program_done_def)
  qed
qed (simp add: program_done_def)


section \<open>The typed calls\<close>

text \<open>Setting, starting the stream, uploading and downloading a configuration, for all clients at once.\<close>

lemma set_call_steady:
  assumes "steady fd pb ok s"
  shows "\<exists>err s'. (do { (err, _, s) \<leftarrow> io4e_functionblock_function_control_set socket_methods pb
        (reader_turn n pb sz) msg None s; Some (err, s) }) = Some (err, s') \<and>
    fb_loose s' = fb_loose s \<and> steady fd pb ok s'"
  using function_control_set_steady [OF assms, of n sz msg] by (auto simp: request_done_def)

lemma start_loose:
  "steady fd pb ok s \<Longrightarrow> \<exists>err cfg' s'. io4e_functionblock_start_stream socket_methods pb (reader_turn n pb sz) msg cfg s
      = Some (err, cfg', s') \<and> fb_loose s' = fb_loose s \<and> steady fd pb ok s'"
  using start_stream_steady [of fd pb ok s n sz msg cfg] by (auto simp: request_done_def)

lemma upload_loose:
  "steady fd pb ok s \<Longrightarrow> \<exists>err s'. io4e_functionblock_upload_configuration socket_methods pb (reader_turn n pb sz) msg s
      = Some (err, s') \<and> fb_loose s' = fb_loose s \<and> steady fd pb ok s'"
  using upload_steady [of fd pb ok s n sz msg] by (auto simp: request_done_def)

text \<open>Download, look and free.\<close>

lemma download_and_free:
  assumes "steady fd pb ok s"
  obtains (fail) err s' where "io4e_functionblock_download_configuration socket_methods pb (reader_turn n pb sz)
        msg u s = Some (err, None, s')" "err \<noteq> IO4E_OK" "fb_loose s' = fb_loose s" "steady fd pb ok s'"
  | (ok) p s' x m where "io4e_functionblock_download_configuration socket_methods pb (reader_turn n pb sz)
        msg u s = Some (IO4E_OK, Some p, s')" "get_fs p (fb_heap s') = Some x" "free p (fb_heap s') = Some m"
      "fb_loose (s'\<lparr>fb_heap := m\<rparr>) = fb_loose s" "steady fd pb ok (s'\<lparr>fb_heap := m\<rparr>)"
proof -
  from download_steady [OF assms] obtain err fs s' where d:
    "io4e_functionblock_download_configuration socket_methods pb (reader_turn n pb sz) msg u s
      = Some (err, fs, s')" "request_done s err fs s'" "err = IO4E_OK \<longleftrightarrow> fs \<noteq> None" "steady fd pb ok s'" by blast
  show ?thesis
  proof (cases fs)
    case None
    with d show ?thesis by (intro fail [of err s']) (simp_all add: request_done_def)
  next
    case (Some p)
    with d(2) obtain x where x: "m_store (fb_heap s') p = Some (OFs x)" "p \<notin> fb_loose s"
      "fb_loose s' = insert p (fb_loose s)" by (auto simp: request_done_def)
    then have "p \<in> fb_loose s'" by simp
    with d(4) obtain m where m: "free p (fb_heap s') = Some m" "steady fd pb ok (s'\<lparr>fb_heap := m\<rparr>)"
      "fb_loose (s'\<lparr>fb_heap := m\<rparr>) = fb_loose s' - {p}" by (rule free_steady)
    have "get_fs p (fb_heap s') = Some x"
      using x(1) d(4) by (simp add: get_fs_def steady_def fb_invD(1))
    with Some d m x show ?thesis by (intro ok [of p s' x m]) auto
  qed
qed

text \<open>The reads in their common shape.\<close>

lemma read_call_steady:
  assumes "steady fd pb ok s"
  shows "\<exists>err v s'. (do {
      (err, response, s) \<leftarrow> io4e_functionblock_function_control_get socket_methods pb
        (reader_turn n pb sz) msg (unpack_as FS_GET_RESPONSE unpack) s;
      if err \<noteq> IO4E_OK then Some (err, None, s)
      else do {
        p \<leftarrow> response;
        g \<leftarrow> get_get_response p (fb_heap s);
        m \<leftarrow> free p (fb_heap s);
        Some (fst (f g), snd (f g), s\<lparr>fb_heap := m\<rparr>) } }) = Some (err, v, s') \<and>
    fb_loose s' = fb_loose s \<and> steady fd pb ok s'"
proof -
  let ?u = "unpack_as FS_GET_RESPONSE unpack"
  from function_control_get_steady [OF assms] obtain err fs s1 where g:
    "io4e_functionblock_function_control_get socket_methods pb (reader_turn n pb sz) msg ?u s
      = Some (err, fs, s1)"
    "request_done s err fs s1" "err = IO4E_OK \<longleftrightarrow> fs \<noteq> None" "unpacked_by ?u fs s1" "steady fd pb ok s1" by blast
  show ?thesis
  proof (cases fs)
    case None
    with g show ?thesis by (simp add: request_done_def)
  next
    case (Some p)
    with g(4) obtain r where r: "m_store (fb_heap s1) p = Some (OFs (FS_GET_RESPONSE r))"
      by (auto simp: unpacked_by_def unpack_as_def)
    from g(2) Some have l: "p \<notin> fb_loose s" "fb_loose s1 = insert p (fb_loose s)"
      by (simp_all add: request_done_def)
    then have "p \<in> fb_loose s1" by simp
    with g(5) obtain m where "free p (fb_heap s1) = Some m" "steady fd pb ok (s1\<lparr>fb_heap := m\<rparr>)"
      "fb_loose (s1\<lparr>fb_heap := m\<rparr>) = fb_loose s1 - {p}" by (rule free_steady)
    moreover have "get_get_response p (fb_heap s1) = Some r"
      using r g(5) by (simp add: get_get_response_def get_fs_def steady_def fb_invD(1))
    ultimately show ?thesis using g(1,3) Some l by simp
  qed
qed


text \<open>Upload a configuration, read it back and free it, then go on.\<close>

lemma configure_done:
  assumes "steady fd pb ok s"
    and failed: "\<And>s2. steady fd pb ok s2 \<Longrightarrow> fb_loose s2 = fb_loose s \<Longrightarrow> P 1 s2"
    and rest: "\<And>s2. steady fd pb ok s2 \<Longrightarrow> fb_loose s2 = fb_loose s \<Longrightarrow>
      \<exists>ret s'. rest s2 = Some (ret, s') \<and> P ret s'"
  shows "\<exists>ret s'. (do {
      (err, s) \<leftarrow> io4e_functionblock_upload_configuration socket_methods pb (reader_turn n pb sz) conf s;
      if err \<noteq> IO4E_OK then Some (1, s)
      else do {
        (err, dl_config, s) \<leftarrow> io4e_functionblock_download_configuration socket_methods pb (reader_turn n pb sz) req u s;
        if err \<noteq> IO4E_OK then Some (1, s)
        else do {
          p \<leftarrow> dl_config;
          _ \<leftarrow> get_fs p (fb_heap s);
          m \<leftarrow> free p (fb_heap s);
          rest (s\<lparr>fb_heap := m\<rparr>) } } }) = Some (ret, s') \<and> P ret s'"
proof -
  from upload_loose [OF assms(1)] obtain err1 s1 where s1:
    "io4e_functionblock_upload_configuration socket_methods pb (reader_turn n pb sz) conf s = Some (err1, s1)"
    "fb_loose s1 = fb_loose s" "steady fd pb ok s1" by blast
  note done1 = failed [OF s1(3,2)]
  from s1(3) show ?thesis
  proof (cases rule: download_and_free [where msg = req and u = u and n = n and sz = sz])
    case (fail err s2)
    with s1 done1 failed [OF fail(4)] show ?thesis by (cases "err1 = IO4E_OK") auto
  next
    case (ok p s2 x m)
    with s1(1,2) rest [OF ok(5)] done1 show ?thesis by (cases "err1 = IO4E_OK") auto
  qed
qed

end
