(* ===== verification/Client_Program.thy ===== *)
theory Client_Program
  imports Client_Session
begin

text \<open>
  Whole programs: create a client, use it, delete it. The locale \<open>client_body\<close> is what is asked of the
  part that uses the client.
\<close>

section \<open>Programs around a client\<close>

text \<open>
  \<open>client_delete\<close> on a client whose reader thread runs: the thread is cancelled, at its cancellation point
  number \<open>k\<close>, and joined; then the client's blocks and its connection are given back. The state is the one in
  which the reader was stopped, its heap what the deletion leaves.
\<close>

definition delete_running_client ::
  "nat \<Rightarrow> pb_api \<Rightarrow> nat \<Rightarrow> (sock, 'fs) fbsys \<Rightarrow> net \<Rightarrow> blocks \<Rightarrow>
   (io4e_err_t \<times> net \<times> blocks \<times> (sock, 'fs) fbsys) option" where
  "delete_running_client k pb sz s n b = do {
     s \<leftarrow> reader_stop k pb sz s;
     let (err, _, n, b) = io4edge_functionblock_client_delete (Some (client.truncate s)) n b;
     Some (err, n, b, s) }"

text \<open>
  The frame of a \<open>main\<close> function: 1 when the client cannot be created; whatever \<open>body\<close> returns, with the
  client still there, when that is not 0; otherwise the client is deleted. The result also has the
  resources of the network and the library and the heap.
\<close>

definition main_program ::
  "string \<Rightarrow> int \<Rightarrow> pb_api \<Rightarrow> nat \<Rightarrow> ((sock, 'fs) fbsys \<Rightarrow> (int \<times> (sock, 'fs) fbsys) option) \<Rightarrow>
   nat \<Rightarrow> bool \<Rightarrow> net \<Rightarrow> blocks \<Rightarrow> 'fs heap \<Rightarrow> int \<Rightarrow> (int \<times> net \<times> blocks \<times> 'fs heap) option" where
  "main_program host port pb sz body k thread_ok n b m now = do {
     (err, handle, n, b) \<leftarrow> io4edge_functionblock_client_new_from_host_port host port 5 thread_ok n b;
     if err \<noteq> IO4E_OK then Some (1, n, b, m)
     else do {
       c \<leftarrow> handle;
       (ret, s) \<leftarrow> body (client.extend c (fbsys.fields m now));
       if ret \<noteq> 0 then Some (ret, n, b, fb_heap s)
       else do {
         (_, n, b, s) \<leftarrow> delete_running_client k pb sz s n b;
         Some (0, n, b, fb_heap s) } } }"

text \<open>
  The endless loop of \<open>reconnect.c\<close>: one attempt after the other, each with what \<open>pthread_create\<close>, the
  cancellation of the reader and the network do then; the client is deleted whatever \<open>body\<close> returns.
\<close>

fun reconnect_program ::
  "string \<Rightarrow> int \<Rightarrow> pb_api \<Rightarrow> nat \<Rightarrow> ((sock, 'fs) fbsys \<Rightarrow> (int \<times> (sock, 'fs) fbsys) option) \<Rightarrow>
   (bool \<times> nat \<times> (u32 \<Rightarrow> 16 word \<Rightarrow> sock option)) list \<Rightarrow> net \<Rightarrow> blocks \<Rightarrow> 'fs heap \<Rightarrow> int \<Rightarrow>
   (net \<times> blocks \<times> 'fs heap) option" where
  "reconnect_program host port pb sz body [] n b m now = Some (n, b, m)"
| "reconnect_program host port pb sz body ((thread_ok, k, peer) # attempts) n b m now = do {
     (err, handle, n, b) \<leftarrow>
       io4edge_functionblock_client_new_from_host_port host port 5 thread_ok (n\<lparr>n_peer := peer\<rparr>) b;
     if err \<noteq> IO4E_OK then reconnect_program host port pb sz body attempts n b m now
     else do {
       c \<leftarrow> handle;
       (ret, s) \<leftarrow> body (client.extend c (fbsys.fields m now));
       (_, n, b, s) \<leftarrow> delete_running_client k pb sz s n b;
       reconnect_program host port pb sz body attempts n b (fb_heap s) (fb_now s) } }"


section \<open>What a program leaves\<close>

text \<open>
  The network: names resolve to at least one address, descriptors fit into an \<open>fd_set\<close>, connections take in
  the end what is written, and the peers send messages that are \<open>good\<close>.
\<close>

definition net_ok :: "(bytes \<Rightarrow> bool) \<Rightarrow> net \<Rightarrow> bool" where
  "net_ok good n \<longleftrightarrow>
     (\<forall>host. n_dns n host \<noteq> Some []) \<and> n_next_fd n < FD_SETSIZE \<and>
     (\<forall>a p s. n_peer n a p = Some s \<longrightarrow> errno_wf s \<and> wr_live s \<and> frames_ok good (s_in s))"

text \<open>Descriptors, handles and blocks as before.\<close>

definition balanced :: "net \<Rightarrow> blocks \<Rightarrow> net \<Rightarrow> blocks \<Rightarrow> bool" where
  "balanced n b n' b' \<longleftrightarrow> n_open n' = n_open n \<and> n_handles n' = n_handles n \<and> b_live b' = b_live b"

text \<open>
  All that is new in the heap are messages the client had received, of the stream and responses, and at
  most one buffer into which the reader was receiving.
\<close>

definition left_messages :: "'fs heap \<Rightarrow> 'fs heap \<Rightarrow> bool" where
  "left_messages m m' \<longleftrightarrow>
     (\<exists>q. \<forall>p \<in> live m' - live m. message_at m' p \<or> p = q \<and> (\<exists>b. m_store m' p = Some (OBuf b)))"

text \<open>
  The result of a program: it returns 0 or 1, the heap is intact, and for 0 the resources are given back
  and only unread messages are left.
\<close>

definition program_ok :: "net \<Rightarrow> blocks \<Rightarrow> 'fs heap \<Rightarrow> (int \<times> net \<times> blocks \<times> 'fs heap) option \<Rightarrow> bool" where
  "program_ok n b m r \<longleftrightarrow>
     (\<exists>ret n' b' m'. r = Some (ret, n', b', m') \<and> (ret = 0 \<or> ret = 1) \<and> mem_wf m' \<and> live m \<subseteq> live m' \<and>
        (ret = 0 \<longrightarrow> balanced n b n' b' \<and> left_messages m m'))"

definition same_peers :: "net \<Rightarrow> net \<Rightarrow> bool" where
  "same_peers n n' \<longleftrightarrow> n_dns n' = n_dns n \<and> n_peer n' = n_peer n \<and> n_next_fd n' = n_next_fd n"

text \<open>Creation: what the new client and its connection look like, and that deletion undoes it.\<close>

lemma transport_new_ok:
  assumes "net_ok good n"
  obtains (fail) err n' where "io4edge_transport_new host port n = Some (err, None, n')" "err \<noteq> IO4E_OK"
      "n_open n' = n_open n" "n_handles n' = n_handles n" "same_peers n n'"
  | (connected) h n' where "io4edge_transport_new host port n = Some (IO4E_OK, Some h, n')"
      "sock_live (s_fd h) good h" "remove1 (s_fd h) (n_open n') = n_open n" "n_handles n' = Suc (n_handles n)"
      "same_peers n n'"
proof (cases "io4edge_transport_new host port n")
  case None
  with assms show ?thesis
    by (auto simp: io4edge_transport_new_def transport_connect_def net_ok_def Let_def
        split: if_splits option.splits list.splits)
next
  case (Some r)
  obtain err h n' where r: "r = (err, h, n')" by (metis prod_cases3)
  show ?thesis
  proof (cases h)
    case None
    with Some r fail show ?thesis
      by (auto simp: io4edge_transport_new_def transport_connect_def sys_close_def same_peers_def Let_def err_defs
          split: if_splits option.splits list.splits)
  next
    case (Some h')
    with \<open>io4edge_transport_new host port n = Some r\<close> r assms show ?thesis
      by (intro connected [of h' n'])
         (auto simp: io4edge_transport_new_def transport_connect_def sys_close_def Let_def err_defs
           net_ok_def sock_live_def rd_sound_def errno_wf_def wr_live_def fd_set_ok_def same_peers_def
           split: if_splits option.splits list.splits)
  qed
qed

text \<open>What the new client holds, until it is deleted.\<close>

definition holds :: "net \<Rightarrow> blocks \<Rightarrow> int \<Rightarrow> net \<Rightarrow> blocks \<Rightarrow> bool" where
  "holds n b fd n' b' \<longleftrightarrow>
     remove1 fd (n_open n') = n_open n \<and> n_handles n' = Suc (n_handles n) \<and> b_live b' = b_live b + 3"

lemma client_new_ok:
  assumes "net_ok (msg_wf pb ok) n" "mem_wf m"
  obtains (fail) err n' b' where
      "io4edge_functionblock_client_new_from_host_port host port tmo thread_ok n b = Some (err, None, n', b')"
      "err \<noteq> IO4E_OK" "balanced n b n' b'" "same_peers n n'"
  | (created) c fd n' b' where
      "io4edge_functionblock_client_new_from_host_port host port tmo thread_ok n b = Some (IO4E_OK, Some c, n', b')"
      "steady fd pb ok (client.extend c (fbsys.fields m now))"
      "fb_loose (client.extend c (fbsys.fields m now)) = live m" "holds n b fd n' b'" "same_peers n n'"
proof -
  note D = io4edge_functionblock_client_new_from_host_port_def
  obtain ok0 b0 where b0: "calloc_block b = (ok0, b0)" by fastforce
  show ?thesis
  proof (cases ok0)
    case False
    with b0 show ?thesis
      by (intro fail [of IO4E_ERR_NO_MEM n b0])
         (auto simp: D balanced_def same_peers_def calloc_block_def err_defs split: if_splits)
  next
    case True
    then have live0: "b_live b0 = Suc (b_live b)" using b0 by (auto simp: calloc_block_def split: if_splits)
    from assms(1) show ?thesis
    proof (cases rule: transport_new_ok [where host = host and port = port])
      case (fail err n')
      with b0 True live0 show ?thesis
        by (intro that(1) [of err n' "free_block b0"])
           (simp_all add: D balanced_def same_peers_def free_block_def)
    next
      case (connected h n')
      obtain qerr q b2 where sq: "io4e_streamq_new CONFIG_STREAMQ_CAPACITY b0 = (qerr, q, b2)"
        by (metis prod_cases3)
      from sq show ?thesis
      proof (cases rule: streamq_new_cases)
        case fail
        with b0 True live0 connected sq show ?thesis
          by (intro that(1) [of IO4E_ERR_NO_MEM "snd (destroy (Some h) n')" "free_block b2"])
             (simp_all add: D balanced_def same_peers_def free_block_def destroy_def sys_close_def
               Let_def err_defs)
      next
        case (ok q')
        show ?thesis
        proof (cases thread_ok)
          case False
          with b0 True live0 connected sq ok show ?thesis
            by (intro that(1) [of IO4E_FAIL "snd (destroy (Some h) n')"
                  "free_block (snd (io4e_streamq_delete (Some q') b2))"])
               (simp_all add: D balanced_def same_peers_def free_block_def destroy_def sys_close_def
                 io4e_streamq_delete_def Let_def err_defs)
        next
          case True
          let ?c = "\<lparr>fb_transport = h, cmd_context = [65, 0], cmd_timeout = tmo, cmd_mutex = False,
            cmd_response = NULL, cmd_sem = sem_init_value 0, fb_streamq = q'\<rparr>"
          have st: "steady (s_fd h) pb ok (client.extend ?c (fbsys.fields m now))"
            "fb_loose (client.extend ?c (fbsys.fields m now)) = live m"
            using connected(2) ok(4,5) assms(2) NULL_not_live [OF assms(2)]
            by (simp_all add: steady_def fb_inv_def pending_wf_def fb_loose_def fb_owned_def
                client.defs fbsys.defs sem_init_value_def)
          with b0 True \<open>ok0\<close> live0 connected sq ok show ?thesis
            by (intro that(2) [of ?c n' b2 "s_fd h"])
               (simp_all add: D holds_def same_peers_def Let_def err_defs)
        qed
      qed
    qed
  qed
qed

text \<open>
  A client that can be deleted: its connection, whatever bytes the peer sends, and its invariant, whoever
  holds \<open>cmd_mutex\<close>. Deleting it gives back what it holds, wherever its reader is cancelled.
\<close>

definition deletable :: "int \<Rightarrow> (sock, 'fs) fbsys \<Rightarrow> bool" where
  "deletable fd s \<longleftrightarrow>
     errno_wf (fb_transport s) \<and> s_fd (fb_transport s) = fd \<and> fd_set_ok fd \<and> fb_inv s"

lemma deletable_sound: "deletable fd s \<Longrightarrow> rd_sound fd (\<lambda>_. True) (fb_transport s) \<and> fb_inv s"
  by (simp add: deletable_def rd_sound_def frames_ok_def list_all_iff)

lemma sock_live_deletable: "sock_live fd good (fb_transport s) \<Longrightarrow> fb_inv s \<Longrightarrow> deletable fd s"
  by (simp add: sock_live_def rd_sound_def deletable_def)

lemma steady_deletable: "steady fd pb ok s \<Longrightarrow> deletable fd s"
  by (auto simp: steady_def intro: sock_live_deletable)

lemma delete_running_client_ok:
  assumes "deletable fd s" "holds n b fd n' b'"
  obtains n2 b2 c where "delete_running_client k pb sz s n' b' = Some (IO4E_OK, n2, b2, c)"
    "reader_stop k pb sz s = Some c" "reader_left s c" "balanced n b n2 b2" "same_peers n' n2"
proof -
  from deletable_sound [OF assms(1)] reader_stop_left [of fd "\<lambda>_. True" s k pb sz] obtain c where
    c: "reader_stop k pb sz s = Some c" "reader_left s c" by blast
  then have "s_fd (fb_transport c) = fd" using assms(1) by (simp add: deletable_def reader_left_def)
  with assms(2) c show ?thesis
    by (intro that [of "(sys_close fd n')\<lparr>n_handles := n_handles n' - 1\<rparr>" "free_block (free_block (free_block b'))" c])
       (simp_all add: delete_running_client_def io4edge_functionblock_client_delete_def io4e_streamq_delete_def destroy_def
         client.defs sys_close_def free_block_def holds_def balanced_def same_peers_def Let_def)
qed


section \<open>The contract of a program's body\<close>

text \<open>
  What a program's body leaves: a client that can be deleted, the user's objects, and for 0 nothing else
  that is not the client's than responses.
\<close>

definition program_left :: "int \<Rightarrow> (sock, 'fs) fbsys \<Rightarrow> int \<Rightarrow> (sock, 'fs) fbsys \<Rightarrow> bool" where
  "program_left fd s ret s' \<longleftrightarrow>
     deletable fd s' \<and> (ret = 0 \<or> ret = 1) \<and> fb_loose s \<subseteq> fb_loose s' \<and>
     (ret = 0 \<longrightarrow> (\<forall>p \<in> fb_loose s' - fb_loose s. \<exists>r. m_store (fb_heap s') p = Some (OResponse r)))"

lemma program_done_left: "program_done fd pb ok s ret s' \<Longrightarrow> program_left fd s ret s'"
  by (auto simp: program_done_def program_left_def lost_one_def steady_deletable)

lemma left_if_done:
  "\<exists>ret s'. r = Some (ret, s') \<and> program_done fd pb ok s ret s' \<Longrightarrow>
     \<exists>ret s'. r = Some (ret, s') \<and> program_left fd s ret s'"
  using program_done_left by blast

lemma program_left_messages:
  assumes "fb_loose s = live m" "program_left fd s 0 s'" "reader_left s' c"
  shows "left_messages m (fb_heap c)"
proof -
  from assms(3) obtain q where q: "\<forall>p \<in> live (fb_heap c) - fb_loose s'.
      p \<in> fb_owned c \<and> message_at (fb_heap c) p \<or>
      p = q \<and> (message_at (fb_heap c) p \<or> (\<exists>b. m_store (fb_heap c) p = Some (OBuf b)))"
    by (auto simp: reader_left_def)
  have "message_at (fb_heap c) p" if "p \<in> fb_loose s'" "p \<notin> live m" for p
    using that assms by (auto simp: program_left_def reader_left_def message_at_def)
  with q show ?thesis unfolding left_messages_def by blast
qed

lemma reader_left_live:
  assumes "reader_left s c" "L \<subseteq> fb_loose s"
  shows "L \<subseteq> live (fb_heap c)"
  using assms by (fastforce simp: reader_left_def fb_loose_def)

text \<open>
  \<open>pre\<close> is what the body relies on besides a client between calls, \<open>ok\<close> what it relies on about the messages of
  the stream.
\<close>

locale client_body =
  fixes pb :: pb_api
    and body :: "(sock, 'fs) fbsys \<Rightarrow> (int \<times> (sock, 'fs) fbsys) option"
    and pre :: bool
    and ok :: "stream_data \<Rightarrow> bool"
  assumes body_done: "pre \<Longrightarrow> steady fd pb ok s \<Longrightarrow> \<exists>ret s'. body s = Some (ret, s') \<and> program_left fd s ret s'"
begin

text \<open>The program returns, and when it returns 0 all resources are given back but the unread messages.\<close>

lemma main_program_ok:
  assumes pre "net_ok (msg_wf pb ok) n" "mem_wf m"
  shows "program_ok n b m (main_program host port pb sz body k thread_ok n b m now)"
  using assms(2,3)
proof (cases rule: client_new_ok [where host = host and port = port and tmo = 5
      and thread_ok = thread_ok and b = b and now = now])
  case (fail err n' b')
  with assms(3) show ?thesis by (simp add: main_program_def program_ok_def)
next
  case (created c fd n1 b1)
  from body_done [OF assms(1) created(2)] obtain ret s where s:
    "body (client.extend c (fbsys.fields m now)) = Some (ret, s)"
    "program_left fd (client.extend c (fbsys.fields m now)) ret s" by blast
  then have del: "deletable fd s" and loose: "live m \<subseteq> fb_loose s" and ret: "ret = 0 \<or> ret = 1"
    by (simp_all add: program_left_def created(3))
  from del created(4) obtain n2 b2 t where t: "delete_running_client k pb sz s n1 b1 = Some (IO4E_OK, n2, b2, t)"
    "reader_left s t" "balanced n b n2 b2" by (rule delete_running_client_ok)
  show ?thesis
  proof (cases "ret = 0")
    case True
    with s(2) program_left_messages [OF created(3) _ t(2)] have "left_messages m (fb_heap t)" by simp
    moreover have "mem_wf (fb_heap t)" using t(2) by (simp add: reader_left_def)
    ultimately show ?thesis
      using created(1) s(1) t True reader_left_live [OF t(2) loose] by (simp add: main_program_def program_ok_def)
  next
    case False
    have "mem_wf (fb_heap s)" "live m \<subseteq> live (fb_heap s)"
      using del loose by (auto simp: deletable_def fb_loose_def dest: fb_invD(1))
    with created(1) s(1) ret False show ?thesis by (simp add: main_program_def program_ok_def)
  qed
qed

text \<open>Reconnecting any number of times keeps descriptors, handles and blocks.\<close>

lemma reconnect_program_done:
  assumes pre
  shows "mem_wf m \<Longrightarrow> net_ok (msg_wf pb ok) n \<Longrightarrow>
    \<forall>(thread_ok, k, peer) \<in> set attempts. net_ok (msg_wf pb ok) (n\<lparr>n_peer := peer\<rparr>) \<Longrightarrow>
    \<exists>n' b' m'. reconnect_program host port pb sz body attempts n b m now = Some (n', b', m') \<and>
      balanced n b n' b' \<and> mem_wf m' \<and> live m \<subseteq> live m'"
proof (induction attempts arbitrary: n b m now)
  case Nil
  then show ?case by (simp add: balanced_def)
next
  case (Cons a as)
  obtain thread_ok k peer where a: "a = (thread_ok, k, peer)" by (cases a)
  let ?n = "n\<lparr>n_peer := peer\<rparr>"
  have net: "net_ok (msg_wf pb ok) ?n" using Cons.prems(3) a by simp
  have next_net: "net_ok (msg_wf pb ok) n'" "\<forall>(thread_ok, k, peer) \<in> set as. net_ok (msg_wf pb ok) (n'\<lparr>n_peer := peer\<rparr>)"
    if "same_peers ?n n'" for n'
    using that net Cons.prems(3) by (auto simp: net_ok_def same_peers_def a)
  from net Cons.prems(1) show ?case
  proof (cases rule: client_new_ok [where host = host and port = port and tmo = 5
        and thread_ok = thread_ok and b = b and now = now])
    case (fail err n1 b1)
    from Cons.IH [OF Cons.prems(1) next_net [OF fail(4)], of b1 now] fail show ?thesis
      by (auto simp: a balanced_def)
  next
    case (created c fd n1 b1)
    from body_done [OF assms(1) created(2)] obtain ret s where s:
      "body (client.extend c (fbsys.fields m now)) = Some (ret, s)"
      "program_left fd (client.extend c (fbsys.fields m now)) ret s" by blast
    then have del: "deletable fd s" and loose: "live m \<subseteq> fb_loose s" by (simp_all add: program_left_def created(3))
    from del created(4) obtain n2 b2 t where t: "delete_running_client k pb sz s n1 b1 = Some (IO4E_OK, n2, b2, t)"
      "reader_left s t" "balanced ?n b n2 b2" "same_peers n1 n2" by (rule delete_running_client_ok)
    have heap: "mem_wf (fb_heap t)" "live m \<subseteq> live (fb_heap t)"
      using t(2) reader_left_live [OF t(2) loose] by (simp_all add: reader_left_def)
    have "same_peers ?n n2" using created(5) t(4) by (simp add: same_peers_def)
    from Cons.IH [OF heap(1) next_net [OF this], of b2 "fb_now t"] created(1) s(1) t(1,3) heap(2)
    show ?thesis by (auto simp: a balanced_def)
  qed
qed

end


section \<open>An example network\<close>

text \<open>Every address answers, with the same input.\<close>

definition demo_lan :: "bytes \<Rightarrow> net" where
  "demo_lan input = \<lparr>n_dns = \<lambda>_. Some [0x7F000001], n_peer = \<lambda>_ _. Some (demo_sock input),
     n_next_fd = 5, n_calloc_ok = True, n_open = [0, 1, 2], n_handles = 0\<rparr>"

lemma demo_lan_ok: "frames_ok good input \<Longrightarrow> net_ok good (demo_lan input)"
  using demo_wf(4) demo_live by (simp add: net_ok_def demo_lan_def FD_SETSIZE_def demo_wf)


section \<open>Deleting a client whose reader is at work\<close>


text \<open>A client with one message in its queue, whose reader is receiving a payload of two bytes.\<close>

definition demo_busy :: "(sock, nat) fbsys" where
  "demo_busy = (demo_stream None)\<lparr>fb_transport := demo_sock [0xFE, 0xED, 2, 0, 0, 0, 0, 66]\<rparr>"

lemma demo_busy_deletable: "deletable 3 demo_busy"
  using demo_wf(4,8) [of "[0xFE, 0xED, 2, 0, 0, 0, 0, 66]"]
  by (simp add: demo_busy_def deletable_def demo_stream_inv) (simp add: demo_sock_def)

lemma demo_busy_points:
  "read_msg_points (fb_transport demo_busy) 1 (fb_heap demo_busy) ! 4 =
     (At_Read, (demo_sock [0, 66])\<lparr>s_rd := []\<rparr>, snd (malloc (OBuf []) (fb_heap demo_busy))) \<and>
   4 < length (read_msg_points (fb_transport demo_busy) 1 (fb_heap demo_busy))"
  by (simp add: demo_busy_def demo_stream_def demo_client_def read_msg_points_def read_complete_points.simps
      read_complete.simps sys_read_def sys_select_def demo_sock_def FSTREAM_HEADER_SIZE_def MAX_RW_COUNT_def
      magic_bytes_def hdr_len_def malloc_def NULL_def err_defs errno_defs Let_def)

lemma demo_busy_stop:
  "reader_stop 4 echo_pb 8 demo_busy =
     Some (demo_busy\<lparr>fb_transport := (demo_sock [0, 66])\<lparr>s_rd := []\<rparr>,
                      fb_heap := snd (malloc (OBuf []) (fb_heap demo_busy))\<rparr>)"
  using demo_busy_points demo_busy_deletable
  by (simp add: reader_stop.simps [of 4] reader_points_def nth_append deletable_def Let_def split_def)


end
