(* ===== verification/Rendering.thy ===== *)
theory Rendering
  imports C_Prelude
begin

text \<open>
  How the example programs print what the stream delivers: \<open>telegram_to_string\<close> of
  \<open>examples/mvbsniffer\<close> (the same in \<open>main.c\<close> and \<open>reconnect.c\<close> but for a comma) and \<open>sample_to_string\<close> of
  \<open>examples/canl2/dumpstream.c\<close> write into a buffer of the caller with \<open>snprintf\<close>, advancing a pointer
  and a remaining length by what each call returns. \<open>snprintf\<close> returns the length of the whole text
  also when it does not fit, so the remaining length can wrap around.
\<close>

section \<open>Formatting\<close>

text \<open>\<open>%u\<close>, \<open>%x\<close> and \<open>%X\<close> with a minimal width; \<open>base\<close> is 10 or 16.\<close>

fun digits :: "nat \<Rightarrow> nat \<Rightarrow> nat list" where
  "digits base n = (if n < base \<or> base < 2 then [n] else digits base (n div base) @ [n mod base])"

declare digits.simps [simp del]

definition digit_char :: "bool \<Rightarrow> nat \<Rightarrow> byte" where
  "digit_char upper d = (if d < 10 then of_nat (48 + d) else of_nat ((if upper then 55 else 87) + d))"

definition fmt_number :: "nat \<Rightarrow> bool \<Rightarrow> byte \<Rightarrow> nat \<Rightarrow> nat \<Rightarrow> bytes" where
  "fmt_number base upper fill width n =
     (let ds = map (digit_char upper) (digits base n) in replicate (width - length ds) fill @ ds)"

definition ascii :: "string \<Rightarrow> bytes" where
  "ascii s = map (\<lambda>c. of_nat (of_char c)) s"

definition fmt_u64 :: "nat \<Rightarrow> u64 \<Rightarrow> bytes" where
  "fmt_u64 width w = fmt_number 10 False 32 width (unat w)"

definition fmt_hex :: "bool \<Rightarrow> nat \<Rightarrow> 'a::len word \<Rightarrow> bytes" where
  "fmt_hex upper width w = fmt_number 16 upper 48 width (unat w)"

text \<open>\<open>descriptor.values[i].name\<close> where the number is in the table.\<close>

definition enum_name :: "bytes list \<Rightarrow> u32 \<Rightarrow> bytes" where
  "enum_name names i = (if unat i < length names then names ! unat i else ascii ''unknown'')"


section \<open>Writing into the buffer\<close>

text \<open>
  \<open>snprintf(p, n, ...)\<close> where the formatted text is \<open>t\<close> and \<open>p\<close> an index into \<open>buf\<close>: nothing is written for
  \<open>n = 0\<close>; a write outside the buffer is undefined.
\<close>

definition snprintf :: "nat \<Rightarrow> u64 \<Rightarrow> bytes \<Rightarrow> bytes \<Rightarrow> bytes option" where
  "snprintf p n t buf =
     (if n = 0 then Some buf
      else let out = take (unat n - 1) t @ [0] in
        if p + length out \<le> length buf
        then Some (take p buf @ out @ drop (p + length out) buf) else None)"

text \<open>
  \<open>ret = snprintf(p, buf_left, ...); p += ret; buf_left -= ret\<close>. Addresses are flat: a \<open>p\<close> beyond the end of
  the buffer is not itself undefined here, as it is by the letter of C, only a write through it is.
\<close>

definition append_text :: "bytes \<Rightarrow> nat \<times> u64 \<times> bytes \<Rightarrow> (nat \<times> u64 \<times> bytes) option" where
  "append_text t st = (case st of (p, left, buf) \<Rightarrow> do {
     buf \<leftarrow> snprintf p left t buf;
     Some (p + length t, left - of_nat (length t), buf) })"

fun append_texts :: "bytes list \<Rightarrow> nat \<times> u64 \<times> bytes \<Rightarrow> (nat \<times> u64 \<times> bytes) option" where
  "append_texts [] st = Some st"
| "append_texts (t # ts) st = do { st \<leftarrow> append_text t st; append_texts ts st }"


section \<open>The two functions\<close>

record mvb_telegram =
  tg_timestamp :: u64
  tg_address :: u32
  tg_type :: u32
  tg_data :: bytes

text \<open>\<open>names\<close> are those of \<open>mvb_sniffer__telegram__type__descriptor\<close>; \<open>comma\<close> is the one after the timestamp.\<close>

definition telegram_to_string :: "bytes list \<Rightarrow> string \<Rightarrow> bytes \<Rightarrow> mvb_telegram \<Rightarrow> bytes option" where
  "telegram_to_string names comma buf tg = do {
     let buf_len = of_nat (length buf);
     st \<leftarrow> append_text (ascii ''Telegram: ts='' @ fmt_u64 0 (tg_timestamp tg) @ ascii comma @ ascii '' addr=''
             @ fmt_hex False 3 (tg_address tg) @ ascii '', '' @ enum_name names (tg_type tg) @ ascii '','')
             (0, buf_len, buf);
     (p, left, buf) \<leftarrow>
       (if 0 < length (tg_data tg) then do {
          st \<leftarrow> append_text (ascii '' data='') st;
          append_texts (map (\<lambda>b. ascii '' '' @ fmt_hex False 2 b) (tg_data tg)) st }
        else Some st);
     Some buf }"

record can_frame =
  cf_messageid :: u32
  cf_extendedframeformat :: bool
  cf_remoteframe :: bool
  cf_data :: bytes

record can_sample =
  cs_timestamp :: u64
  cs_isdataframe :: bool
  cs_frame :: "can_frame option"
  cs_error :: u32
  cs_controllerstate :: u32

text \<open>The frame is a submessage, which the device can leave out; the code does not look.\<close>

definition sample_to_string :: "bytes list \<Rightarrow> bytes list \<Rightarrow> bytes \<Rightarrow> can_sample \<Rightarrow> bytes option" where
  "sample_to_string errors states buf sample = do {
     let buf_left = of_nat (length buf);
     st \<leftarrow> append_text (fmt_u64 10 (cs_timestamp sample) @ ascii '' us: '') (0, buf_left, buf);
     st \<leftarrow>
       (if cs_isdataframe sample then do {
          frame \<leftarrow> cs_frame sample;
          st \<leftarrow> append_text (ascii ''ID: '' @
                  fmt_hex True (if cf_extendedframeformat frame then 8 else 3) (cf_messageid frame)) st;
          st \<leftarrow> (if cf_remoteframe frame then append_text (ascii '' R'') st else Some st);
          st \<leftarrow> append_text (ascii '' DATA:'') st;
          st \<leftarrow> append_texts (map (\<lambda>b. ascii '' '' @ fmt_hex True 2 b) (cf_data frame)) st;
          append_text (ascii '' '') st }
        else Some st);
     st \<leftarrow> append_text (ascii ''ERROR: '' @ enum_name errors (cs_error sample)) st;
     (p, left, buf) \<leftarrow> append_text (ascii '' STATE: '' @ enum_name states (cs_controllerstate sample)) st;
     Some buf }"


section \<open>The buffer arithmetic\<close>

text \<open>What one call leaves in a buffer with room at \<open>p\<close>.\<close>

definition written :: "nat \<Rightarrow> bytes \<Rightarrow> bytes \<Rightarrow> bytes" where
  "written p t buf =
     (if p = length buf then buf
      else let out = take (length buf - p - 1) t @ [0] in take p buf @ out @ drop (p + length out) buf)"

lemma length_written: "p \<le> length buf \<Longrightarrow> length (written p t buf) = length buf"
  by (auto simp: written_def Let_def)

lemma unat_of_nat_len_u64: "n < 2 ^ 64 \<Longrightarrow> unat (of_nat n :: u64) = n"
  by (simp add: unat_of_nat take_bit_nat_eq_self)

text \<open>The pointer and the remaining length in step, wrapped around or not: the call is defined exactly
  while the pointer is inside the buffer or at its end.\<close>

lemma append_text_eq:
  assumes "length buf < 2 ^ 64" "p < 2 ^ 64"
  shows "append_text t (p, of_nat (length buf) - of_nat p, buf) =
    (if p \<le> length buf
     then Some (p + length t, of_nat (length buf) - of_nat (p + length t), written p t buf) else None)"
proof (cases "p \<le> length buf")
  case True
  then have left: "unat (of_nat (length buf) - of_nat p :: u64) = length buf - p"
    using assms by (simp add: unat_sub word_le_nat_alt take_bit_nat_eq_self unat_of_nat)
  have zero: "(of_nat (length buf) - of_nat p :: u64) = 0 \<longleftrightarrow> p = length buf"
    using left True by (metis diff_is_0_eq le_antisym unat_eq_zero diff_self_eq_0)
  show ?thesis
    using True left zero by (auto simp: append_text_def snprintf_def written_def Let_def)
next
  case False
  then have "(of_nat (length buf) :: u64) \<noteq> of_nat p"
    using assms by (metis nat_le_linear unat_of_nat_len_u64)
  with False show ?thesis by (simp add: append_text_def snprintf_def Let_def)
qed

lemma ex_less_Suc_split: "(\<exists>k < Suc n. P k) \<longleftrightarrow> P 0 \<or> (\<exists>k < n. P (Suc k))"
  by (metis Ex_less_Suc2)

lemma append_texts_undefined:
  assumes "length buf < 2 ^ 64" "p + length (concat ts) < 2 ^ 64"
  shows "append_texts ts (p, of_nat (length buf) - of_nat p, buf) = None \<longleftrightarrow>
    (\<exists>k < length ts. length buf < p + length (concat (take k ts)))"
  using assms
proof (induction ts arbitrary: p buf)
  case (Cons t ts)
  show ?case
  proof (cases "p \<le> length buf")
    case True
    let ?b = "written p t buf"
    have len: "length ?b = length buf" using True by (rule length_written)
    have "append_texts (t # ts) (p, of_nat (length buf) - of_nat p, buf)
        = append_texts ts (p + length t, of_nat (length ?b) - of_nat (p + length t), ?b)"
      using append_text_eq [of buf p t] Cons.prems True len by simp
    also have "\<dots> = None \<longleftrightarrow> (\<exists>k < length ts. length buf < p + length t + length (concat (take k ts)))"
      using Cons.IH [of ?b "p + length t"] Cons.prems len by simp
    also have "\<dots> \<longleftrightarrow> (\<exists>k < length (t # ts). length buf < p + length (concat (take k (t # ts))))"
      using True by (simp add: ex_less_Suc_split add.assoc)
    finally show ?thesis .
  next
    case False
    with append_text_eq [of buf p t] Cons.prems show ?thesis by (auto intro!: exI [of _ 0])
  qed
qed simp

lemma append_texts_content:
  assumes "length buf < 2 ^ 64" "p + length (concat ts) < length buf" "ts \<noteq> []"
  shows "\<exists>st. append_texts ts (p, of_nat (length buf) - of_nat p, buf) = Some st \<and>
    snd (snd st) = take p buf @ concat ts @ [0] @ drop (p + length (concat ts) + 1) buf"
  using assms
proof (induction ts arbitrary: p buf)
  case (Cons t ts)
  let ?b = "written p t buf"
  have b: "?b = take p buf @ t @ [0] @ drop (p + length t + 1) buf"
    using Cons.prems(2) by (simp add: written_def Let_def)
  have len: "length ?b = length buf" using Cons.prems(2) by (simp add: length_written)
  have eq: "append_texts (t # ts) (p, of_nat (length buf) - of_nat p, buf)
      = append_texts ts (p + length t, of_nat (length ?b) - of_nat (p + length t), ?b)"
    using append_text_eq [of buf p t] Cons.prems(1,2) len by simp
  show ?case
  proof (cases "ts = []")
    case True
    with eq b show ?thesis by simp
  next
    case False
    have "take (p + length t) ?b = take p buf @ t" using Cons.prems(2) b by simp
    moreover have "drop (p + length t + length (concat ts) + 1) ?b
        = drop (p + length t + length (concat ts) + 1) buf"
      using Cons.prems(2) b by (simp add: add.commute add.left_commute)
    ultimately show ?thesis
      using Cons.IH [of ?b "p + length t"] Cons.prems(1,2) len False eq by (simp add: add.assoc)
  qed
qed simp


section \<open>The texts and their lengths\<close>

definition telegram_texts :: "bytes list \<Rightarrow> string \<Rightarrow> mvb_telegram \<Rightarrow> bytes list" where
  "telegram_texts names comma tg =
     [ascii ''Telegram: ts='' @ fmt_u64 0 (tg_timestamp tg) @ ascii comma @ ascii '' addr=''
        @ fmt_hex False 3 (tg_address tg) @ ascii '', '' @ enum_name names (tg_type tg) @ ascii '','']
     @ (if tg_data tg = [] then []
        else [ascii '' data=''] @ map (\<lambda>b. ascii '' '' @ fmt_hex False 2 b) (tg_data tg))"

definition sample_texts :: "bytes list \<Rightarrow> bytes list \<Rightarrow> can_sample \<Rightarrow> bytes list" where
  "sample_texts errors states sample =
     [fmt_u64 10 (cs_timestamp sample) @ ascii '' us: '']
     @ (if cs_isdataframe sample
        then let frame = the (cs_frame sample) in
          [ascii ''ID: '' @ fmt_hex True (if cf_extendedframeformat frame then 8 else 3) (cf_messageid frame)]
          @ (if cf_remoteframe frame then [ascii '' R''] else []) @ [ascii '' DATA:'']
          @ map (\<lambda>b. ascii '' '' @ fmt_hex True 2 b) (cf_data frame) @ [ascii '' '']
        else [])
     @ [ascii ''ERROR: '' @ enum_name errors (cs_error sample),
        ascii '' STATE: '' @ enum_name states (cs_controllerstate sample)]"

lemma append_texts_append: "append_texts (xs @ ys) st = Option.bind (append_texts xs st) (append_texts ys)"
  by (induction xs arbitrary: st) (simp_all add: fun_eq_iff cong: Option.bind_cong)

lemma telegram_to_string_texts:
  "telegram_to_string names comma buf tg =
     map_option (\<lambda>st. snd (snd st)) (append_texts (telegram_texts names comma tg) (0, of_nat (length buf), buf))"
  by (simp add: telegram_to_string_def telegram_texts_def Let_def split_def map_conv_bind_option o_def)

lemma sample_to_string_texts:
  "cs_isdataframe sample \<longrightarrow> cs_frame sample \<noteq> None \<Longrightarrow> sample_to_string errors states buf sample =
     map_option (\<lambda>st. snd (snd st)) (append_texts (sample_texts errors states sample) (0, of_nat (length buf), buf))"
  by (auto simp: sample_to_string_def sample_texts_def append_texts_append Let_def split_def
      map_conv_bind_option o_def)

lemma length_digits:
  "n < base ^ k \<Longrightarrow> 2 \<le> base \<Longrightarrow> 0 < k \<Longrightarrow> 0 < length (digits base n) \<and> length (digits base n) \<le> k"
proof (induction base n arbitrary: k rule: digits.induct)
  case (1 base n)
  show ?case
  proof (cases "n < base \<or> base < 2")
    case True
    with 1(4) show ?thesis by (simp add: digits.simps [of base n])
  next
    case False
    then have k: "k \<noteq> 1" using 1(2) by auto
    then obtain j where j: "k = Suc j" "0 < j" using 1(4) by (cases k) auto
    have "n div base < base ^ j" using 1(2) j(1) by (simp add: less_mult_imp_div_less mult.commute)
    with 1(1) [of j] False j 1(3) show ?thesis by (simp add: digits.simps [of base n])
  qed
qed

lemma length_fmt_number:
  "n < base ^ k \<Longrightarrow> 2 \<le> base \<Longrightarrow> 0 < k \<Longrightarrow>
     0 < length (fmt_number base up fill width n) \<and> width \<le> length (fmt_number base up fill width n) \<and>
     length (fmt_number base up fill width n) \<le> max width k"
  using length_digits [of n base k] by (auto simp: fmt_number_def Let_def)

lemma length_fmt_u64:
  "0 < length (fmt_u64 width w) \<and> width \<le> length (fmt_u64 width w) \<and> length (fmt_u64 width w) \<le> max width 20"
proof -
  have "unat w < 2 ^ 64" using unsigned_less [of w, where ?'a = nat] by simp
  also have "(2 :: nat) ^ 64 < 10 ^ 20" by simp
  finally show ?thesis unfolding fmt_u64_def by (intro length_fmt_number) simp_all
qed

lemma length_fmt_hex_u32: 
  "width \<le> length (fmt_hex up width (w :: u32)) \<and> length (fmt_hex up width w) \<le> max width 8"
proof -
  have "unat w < 16 ^ 8" using unsigned_less [of w, where ?'a = nat] by simp
  from length_fmt_number [OF this, of up 48 width] show ?thesis by (simp add: fmt_hex_def)
qed

lemma length_fmt_hex_byte: "length (fmt_hex up 2 (b :: byte)) = 2"
proof -
  have "unat b < 16 ^ 2" using unsigned_less [of b, where ?'a = nat] by simp
  from length_fmt_number [OF this, of up 48 2] show ?thesis by (simp add: fmt_hex_def)
qed

lemma length_enum_name: "\<forall>name \<in> set names. length name \<le> c \<Longrightarrow> 7 \<le> c \<Longrightarrow> length (enum_name names i) \<le> c"
  by (simp add: enum_name_def ascii_def)

lemma length_ascii [simp]: "length (ascii s) = length s"
  by (simp add: ascii_def)

lemma length_data_texts: "length (concat (map (\<lambda>b. ascii '' '' @ fmt_hex up 2 b) data)) = 3 * length (data :: bytes)"
  by (induction data) (simp_all add: length_fmt_hex_byte)

lemma length_telegram_header:
  assumes "\<forall>name \<in> set names. length name \<le> 40" "length comma \<le> 1"
  shows "26 \<le> length (hd (telegram_texts names comma tg)) \<and> length (hd (telegram_texts names comma tg)) \<le> 91"
proof -
  have "length (hd (telegram_texts names comma tg)) = 22 + length (fmt_u64 0 (tg_timestamp tg))
      + length comma + length (fmt_hex False 3 (tg_address tg)) + length (enum_name names (tg_type tg))"
    by (simp add: telegram_texts_def)
  with length_fmt_u64 [of 0 "tg_timestamp tg"] length_fmt_hex_u32 [of 3 False "tg_address tg"]
    length_enum_name [OF assms(1), of "tg_type tg"] assms(2) show ?thesis by linarith
qed

lemma length_telegram_texts:
  "tg_data tg \<noteq> [] \<Longrightarrow> n \<le> length (tg_data tg) \<Longrightarrow>
     length (concat (take (n + 2) (telegram_texts names comma tg)))
       = length (hd (telegram_texts names comma tg)) + 6 + 3 * n"
  using length_data_texts [of False "take n (tg_data tg)"]
  by (simp add: telegram_texts_def take_map)


section \<open>Properties\<close>

text \<open>The whole text fits.\<close>

lemma telegram_content:
  assumes "length buf = 200" "\<forall>name \<in> set names. length name \<le> 40" "length comma \<le> 1" "length (tg_data tg) \<le> 32"
  shows "length (concat (telegram_texts names comma tg)) < 200"
    "telegram_to_string names comma buf tg = Some (concat (telegram_texts names comma tg) @ [0]
       @ drop (length (concat (telegram_texts names comma tg)) + 1) buf)"
proof -
  let ?texts = "telegram_texts names comma tg" and ?n = "length (tg_data tg)"
  have "length (concat ?texts) = length (hd ?texts) + (if tg_data tg = [] then 0 else 6 + 3 * ?n)"
    using length_telegram_texts [of tg ?n names comma] by (auto simp: telegram_texts_def)
  with length_telegram_header [OF assms(2,3), of tg] assms(4)
  show fits: "length (concat ?texts) < 200" by (simp split: if_splits)
  have "?texts \<noteq> []" by (simp add: telegram_texts_def)
  with fits append_texts_content [of buf 0 ?texts] assms(1)
  show "telegram_to_string names comma buf tg
      = Some (concat ?texts @ [0] @ drop (length (concat ?texts) + 1) buf)"
    by (auto simp: telegram_to_string_texts)
qed

text \<open>C22 Printing a telegram into the examples' buffer of 200 bytes, with type names of at most 40 bytes: with
  at most 32 data bytes, the largest MVB telegram, the whole text and its terminating zero are in
  the buffer and nothing else of it is changed. But the device decides the length of the data: from
  58 bytes on the remaining length has wrapped around before the last call and \<open>snprintf\<close> writes
  behind the buffer. In general the function is undefined exactly when the text before the last
  call is longer than the buffer.\<close>

theorem telegram_to_string_bounds:
  assumes "length buf = 200" "\<forall>name \<in> set names. length name \<le> 40" "length comma \<le> 1"
    and "length (tg_data tg) < 2 ^ 60"
  shows "(length (tg_data tg) \<le> 32 \<longrightarrow> (let text = concat (telegram_texts names comma tg) in
      length text < 200 \<and>
      telegram_to_string names comma buf tg = Some (text @ [0] @ drop (length text + 1) buf))) \<and>
    (58 \<le> length (tg_data tg) \<longrightarrow> telegram_to_string names comma buf tg = None) \<and>
    (telegram_to_string names comma buf tg = None \<longleftrightarrow>
      (\<exists>k < length (telegram_texts names comma tg).
        200 < length (concat (take k (telegram_texts names comma tg)))))"
proof -
  let ?texts = "telegram_texts names comma tg" and ?n = "length (tg_data tg)"
  note hd = length_telegram_header [OF assms(2,3), of tg]
  have all: "length (concat ?texts) = length (hd ?texts) + (if tg_data tg = [] then 0 else 6 + 3 * ?n)"
    using length_telegram_texts [of tg ?n names comma] by (auto simp: telegram_texts_def)
  have small: "0 + length (concat ?texts) < 2 ^ 64" using all hd assms(4) by (simp split: if_splits)
  have none: "telegram_to_string names comma buf tg = None \<longleftrightarrow>
      (\<exists>k < length ?texts. 200 < length (concat (take k ?texts)))"
    using append_texts_undefined [of buf 0 ?texts] assms(1) small
    by (simp add: telegram_to_string_texts)
  moreover have "telegram_to_string names comma buf tg = None" if "58 \<le> ?n"
  proof -
    have "tg_data tg \<noteq> []" using that by auto
    then have "length ?texts = ?n + 2" by (simp add: telegram_texts_def)
    moreover have "length (concat (take (?n - 1 + 2) ?texts)) = length (hd ?texts) + 6 + 3 * (?n - 1)"
      using that by (intro length_telegram_texts) auto
    ultimately show ?thesis unfolding none using hd that by (intro exI [of _ "?n - 1 + 2"]) linarith
  qed
  moreover note telegram_content [OF assms(1-3)]
  ultimately show ?thesis by (simp add: Let_def)
qed

definition demo_telegram :: mvb_telegram where
  "demo_telegram = \<lparr>tg_timestamp = 100, tg_address = 1, tg_type = 9, tg_data = replicate 60 1\<rparr>"

theorem telegram_to_string_bounds_witness:
  "telegram_to_string [ascii ''data16''] '','' (replicate 200 0) demo_telegram = None"
proof -
  have "telegram_to_string [ascii ''data16''] '','' (replicate 200 0) demo_telegram = None"
    if "58 \<le> length (tg_data demo_telegram)"
    using telegram_to_string_bounds [of "replicate 200 0" "[ascii ''data16'']" "'',''" demo_telegram] that
    by (simp add: demo_telegram_def)
  then show ?thesis by (simp add: demo_telegram_def)
qed

text \<open>The text of a CAN sample up to the state, and the whole of it.\<close>

lemma length_sample_texts:
  assumes "\<forall>name \<in> set errors. length name \<le> 40" "\<forall>name \<in> set states. length name \<le> 40"
  shows "length (concat (sample_texts errors states sample))
      \<le> (if cs_isdataframe sample then 141 + 3 * length (cf_data (the (cs_frame sample))) else 120)"
    "cs_isdataframe sample \<Longrightarrow> 29 + 3 * length (cf_data (the (cs_frame sample)))
      \<le> length (concat (butlast (sample_texts errors states sample)))"
proof -
  let ?f = "the (cs_frame sample)"
  let ?head = "length (fmt_u64 10 (cs_timestamp sample)) + 5"
  let ?w = "if cf_extendedframeformat ?f then 8 else 3"
  let ?frame = "if cs_isdataframe sample then 4 + length (fmt_hex True ?w (cf_messageid ?f))
      + (if cf_remoteframe ?f then 2 else 0) + 6 + 3 * length (cf_data ?f) + 1 else 0"
  have data: "length (concat (map (\<lambda>b. ascii '' '' @ fmt_hex True 2 b) (cf_data ?f))) = 3 * length (cf_data ?f)"
    by (rule length_data_texts)
  have but: "length (concat (butlast (sample_texts errors states sample)))
      = ?head + ?frame + 7 + length (enum_name errors (cs_error sample))"
    using data by (simp add: sample_texts_def Let_def butlast_append)
  have all: "length (concat (sample_texts errors states sample))
      = ?head + ?frame + 15 + length (enum_name errors (cs_error sample))
        + length (enum_name states (cs_controllerstate sample))"
    using data by (simp add: sample_texts_def Let_def)
  note l = length_fmt_u64 [of 10 "cs_timestamp sample"] length_fmt_hex_u32 [of ?w True "cf_messageid ?f"]
    length_enum_name [OF assms(1), of "cs_error sample"]
    length_enum_name [OF assms(2), of "cs_controllerstate sample"]
  show "length (concat (sample_texts errors states sample))
      \<le> (if cs_isdataframe sample then 141 + 3 * length (cf_data ?f) else 120)"
    unfolding all using l by (simp split: if_splits)
  show "29 + 3 * length (cf_data ?f) \<le> length (concat (butlast (sample_texts errors states sample)))"
    if "cs_isdataframe sample"
    unfolding but using l that by (simp split: if_splits)
qed

lemma sample_content:
  assumes "length buf = 200" "\<forall>name \<in> set errors. length name \<le> 40" "\<forall>name \<in> set states. length name \<le> 40"
    and "cs_isdataframe sample \<longrightarrow> (\<exists>frame. cs_frame sample = Some frame \<and> length (cf_data frame) \<le> 19)"
  shows "length (concat (sample_texts errors states sample)) < 200"
    "sample_to_string errors states buf sample = Some (concat (sample_texts errors states sample) @ [0]
       @ drop (length (concat (sample_texts errors states sample)) + 1) buf)"
proof -
  let ?texts = "sample_texts errors states sample"
  show fits: "length (concat ?texts) < 200"
    using length_sample_texts(1) [OF assms(2,3), of sample] assms(4) by (auto split: if_splits)
  have "?texts \<noteq> []" by (simp add: sample_texts_def)
  with fits append_texts_content [of buf 0 ?texts] assms(1,4)
  show "sample_to_string errors states buf sample
      = Some (concat ?texts @ [0] @ drop (length (concat ?texts) + 1) buf)"
    by (auto simp: sample_to_string_texts)
qed

text \<open>C23 Printing a CAN sample into the example's buffer of 200 bytes, with names of at most 40 bytes: without
  a frame, or with at most 19 data bytes (a CAN frame has at most 8), the whole text and its
  terminating zero are in the buffer and nothing else of it is changed. Neither the presence of the
  frame nor the length of its data is checked: a data sample without a frame is a null pointer
  access, and from 58 bytes on \<open>snprintf\<close> writes behind the buffer.\<close>

theorem sample_to_string_bounds:
  assumes "length buf = 200" "\<forall>name \<in> set errors. length name \<le> 40" "\<forall>name \<in> set states. length name \<le> 40"
    and "\<forall>frame. cs_frame sample = Some frame \<longrightarrow> length (cf_data frame) < 2 ^ 60"
  shows "((cs_isdataframe sample \<longrightarrow> (\<exists>frame. cs_frame sample = Some frame \<and> length (cf_data frame) \<le> 19)) \<longrightarrow>
      (let text = concat (sample_texts errors states sample) in length text < 200 \<and>
       sample_to_string errors states buf sample = Some (text @ [0] @ drop (length text + 1) buf))) \<and>
    (cs_isdataframe sample \<and> (\<forall>frame. cs_frame sample = Some frame \<longrightarrow> 58 \<le> length (cf_data frame)) \<longrightarrow>
      sample_to_string errors states buf sample = None)"
proof -
  let ?texts = "sample_texts errors states sample"
  note len = length_sample_texts [OF assms(2,3), of sample]
  have "sample_to_string errors states buf sample = None"
    if isdata: "cs_isdataframe sample" and long: "\<forall>frame. cs_frame sample = Some frame \<longrightarrow> 58 \<le> length (cf_data frame)"
  proof (cases "cs_frame sample")
    case None
    with isdata show ?thesis by (simp add: sample_to_string_def Let_def)
  next
    case (Some frame)
    with long assms(4) have n: "58 \<le> length (cf_data frame)" "length (cf_data frame) < 2 ^ 60" by auto
    have small: "0 + length (concat ?texts) < 2 ^ 64" using len(1) isdata Some n by simp
    have ne: "?texts \<noteq> []" by (simp add: sample_texts_def)
    have "butlast ?texts = take (length ?texts - 1) ?texts" by (rule butlast_conv_take)
    then have "200 < length (concat (take (length ?texts - 1) ?texts))" using len(2) isdata Some n by simp
    moreover have "length ?texts - 1 < length ?texts" using ne by simp
    ultimately show ?thesis
      using append_texts_undefined [of buf 0 ?texts] assms(1) small Some
      by (auto simp: sample_to_string_texts)
  qed
  moreover note sample_content [OF assms(1-3)]
  ultimately show ?thesis by (simp add: Let_def)
qed

definition demo_sample :: can_sample where
  "demo_sample = \<lparr>cs_timestamp = 100, cs_isdataframe = True, cs_frame = Some \<lparr>cf_messageid = 256,
     cf_extendedframeformat = False, cf_remoteframe = False, cf_data = replicate 60 7\<rparr>, cs_error = 0,
     cs_controllerstate = 0\<rparr>"

theorem sample_to_string_bounds_witness:
  "sample_to_string [ascii ''CAN_NO_ERROR''] [ascii ''CAN_OK''] (replicate 200 0) demo_sample = None"
proof -
  have "sample_to_string [ascii ''CAN_NO_ERROR''] [ascii ''CAN_OK''] (replicate 200 0) demo_sample = None"
    if "cs_isdataframe demo_sample \<and> (\<forall>frame. cs_frame demo_sample = Some frame \<longrightarrow> 58 \<le> length (cf_data frame))"
    using sample_to_string_bounds [of "replicate 200 0" "[ascii ''CAN_NO_ERROR'']" "[ascii ''CAN_OK'']" demo_sample] that
    by (simp add: demo_sample_def)
  then show ?thesis by (simp add: demo_sample_def)
qed

end
