(* ===== verification/Examples.thy ===== *)
theory Examples
  imports Client_Program Rendering Analogintypea Canl2 Mvbsniffer
begin

text \<open>
  The example programs on top of the library: \<open>examples/mvbsniffer/main.c\<close> and \<open>reconnect.c\<close>,
  \<open>examples/analogintypea/main.c\<close>, \<open>examples/canl2/config.c\<close>, \<open>send.c\<close> and \<open>dumpstream.c\<close>. For each, \<open>_session\<close> is the
  part from the created client to before its deletion and \<open>_main\<close> the whole program. Printing reads what
  it prints and does nothing else. \<open>env\<close> is the reader thread's work before each wait, \<open>k\<close> the
  cancellation point at which \<open>client_delete\<close> ends it, \<open>now\<close> the time.
\<close>

section \<open>MVB sniffer\<close>

definition TEST_PATTERN :: bytes where
  "TEST_PATTERN = ascii ''034H`@`@`@`@a@`@`Cl@`BbH`@`@`@`@b@`@`Cl@aBbH`@`@`@`@c@`@`Cl@bBbH`@`@`@`@d@`@`Cl@cBbH`@`@`@`@e@a@`Cl@dBb1''"

record mvb_filter_mask =
  fm_f_code_mask :: u32
  fm_address :: u32
  fm_mask :: u32
  fm_include_timedout_frames :: bool

definition mvb_config :: "mvb_filter_mask list" where
  "mvb_config = [\<lparr>fm_f_code_mask = 0xfff, fm_address = 0, fm_mask = 0, fm_include_timedout_frames = False\<rparr>]"

definition stream_attr :: "bool \<Rightarrow> stream_control_start" where
  "stream_attr low_latency = \<lparr>functionspecificstreamcontrolstart = None, bucketsamples = 100,
     keepaliveinterval = 1000, bufferedsamples = 200, low_latency_mode = low_latency\<rparr>"

definition DEVICE_PORT :: int where
  "DEVICE_PORT = 10000"

text \<open>\<open>handle_session\<close>: it prints only counts of what it reads. \<open>u\<close> unpacks a telegram collection.\<close>

definition handle_session ::
  "pb_api \<Rightarrow> nat \<Rightarrow> (bytes \<Rightarrow> mvb_telegram list option) \<Rightarrow> mvb_filter_mask list mvbsniffer_api \<Rightarrow>
   ((sock, mvb_telegram list) fbsys \<Rightarrow> (sock, mvb_telegram list) fbsys option) \<Rightarrow>
   (sock, mvb_telegram list) fbsys \<Rightarrow> (int \<times> (sock, mvb_telegram list) fbsys) option" where
  "handle_session pb sz u api env s = do {
     (err, s) \<leftarrow> io4edge_mvbsniffer_send_pattern socket_methods pb env api TEST_PATTERN s;
     if err \<noteq> IO4E_OK then Some (1, s)
     else do {
       (err, _, s) \<leftarrow> io4edge_mvbsniffer_start_stream socket_methods pb env api mvb_config (stream_attr False) s;
       if err \<noteq> IO4E_OK then Some (1, s)
       else read_samples 500 sz u 2 (\<lambda>sd telegrams. Some ()) env s } }"

text \<open>The copy of \<open>telegram_to_string\<close> in \<open>reconnect.c\<close>, with a comma after the time; its call is commented out.\<close>

definition reconnect_telegram_to_string :: "bytes list \<Rightarrow> bytes \<Rightarrow> mvb_telegram \<Rightarrow> bytes option" where
  "reconnect_telegram_to_string names buf tg = telegram_to_string names '','' buf tg"

definition reconnect_main ::
  "pb_api \<Rightarrow> nat \<Rightarrow> (bytes \<Rightarrow> mvb_telegram list option) \<Rightarrow> mvb_filter_mask list mvbsniffer_api \<Rightarrow>
   ((sock, mvb_telegram list) fbsys \<Rightarrow> (sock, mvb_telegram list) fbsys option) \<Rightarrow>
   (bool \<times> nat \<times> (u32 \<Rightarrow> 16 word \<Rightarrow> sock option)) list \<Rightarrow> net \<Rightarrow> blocks \<Rightarrow> mvb_telegram list heap \<Rightarrow> int \<Rightarrow>
   (net \<times> blocks \<times> mvb_telegram list heap) option" where
  "reconnect_main pb sz u api env =
     reconnect_program ''192.168.24.115'' DEVICE_PORT pb sz (handle_session pb sz u api env)"

text \<open>\<open>main\<close> of \<open>main.c\<close>: five messages, and every telegram is printed through a buffer of 200 bytes.\<close>

fun print_telegrams :: "bytes list \<Rightarrow> mvb_telegram list \<Rightarrow> unit option" where
  "print_telegrams names [] = Some ()"
| "print_telegrams names (tg # tgs) = do {
     buf \<leftarrow> telegram_to_string names '''' (replicate 200 0) tg;
     print_telegrams names tgs }"

definition mvb_session ::
  "bytes list \<Rightarrow> pb_api \<Rightarrow> nat \<Rightarrow> (bytes \<Rightarrow> mvb_telegram list option) \<Rightarrow> mvb_filter_mask list mvbsniffer_api \<Rightarrow>
   ((sock, mvb_telegram list) fbsys \<Rightarrow> (sock, mvb_telegram list) fbsys option) \<Rightarrow>
   (sock, mvb_telegram list) fbsys \<Rightarrow> (int \<times> (sock, mvb_telegram list) fbsys) option" where
  "mvb_session names pb sz u api env s = do {
     (err, s) \<leftarrow> io4edge_mvbsniffer_send_pattern socket_methods pb env api TEST_PATTERN s;
     if err \<noteq> IO4E_OK then Some (1, s)
     else do {
       (err, _, s) \<leftarrow> io4edge_mvbsniffer_start_stream socket_methods pb env api mvb_config (stream_attr False) s;
       if err \<noteq> IO4E_OK then Some (1, s)
       else read_samples 5 sz u 2 (\<lambda>sd telegrams. print_telegrams names telegrams) env s } }"

definition mvb_main ::
  "bytes list \<Rightarrow> pb_api \<Rightarrow> nat \<Rightarrow> (bytes \<Rightarrow> mvb_telegram list option) \<Rightarrow> mvb_filter_mask list mvbsniffer_api \<Rightarrow>
   ((sock, mvb_telegram list) fbsys \<Rightarrow> (sock, mvb_telegram list) fbsys option) \<Rightarrow>
   nat \<Rightarrow> bool \<Rightarrow> net \<Rightarrow> blocks \<Rightarrow> mvb_telegram list heap \<Rightarrow> int \<Rightarrow>
   (int \<times> net \<times> blocks \<times> mvb_telegram list heap) option" where
  "mvb_main names pb sz u api env =
     main_program ''192.168.24.173'' DEVICE_PORT pb sz (mvb_session names pb sz u api env)"


section \<open>Analog input\<close>

record analog_configuration =
  sample_rate :: u32

text \<open>The values read one by one: \<open>n\<close> times, 1 when a call fails.\<close>

fun read_values ::
  "nat \<Rightarrow> pb_api \<Rightarrow> (analog_configuration, analog_configuration) analogintypea_api \<Rightarrow>
   ((sock, (analog_configuration, 'st) analog_msg) fbsys \<Rightarrow> (sock, (analog_configuration, 'st) analog_msg) fbsys option) \<Rightarrow>
   (sock, (analog_configuration, 'st) analog_msg) fbsys \<Rightarrow> (int \<times> (sock, (analog_configuration, 'st) analog_msg) fbsys) option"
where
  "read_values 0 pb api env s = Some (0, s)"
| "read_values (Suc n) pb api env s = do {
     (err, value, s) \<leftarrow> io4edge_analogintypea_value socket_methods pb env api s;
     if err \<noteq> IO4E_OK then Some (1, s) else read_values n pb api env s }"

definition analog_session ::
  "pb_api \<Rightarrow> nat \<Rightarrow> (bytes \<Rightarrow> 'st option) \<Rightarrow> (analog_configuration, analog_configuration) analogintypea_api \<Rightarrow>
   ((sock, (analog_configuration, 'st) analog_msg) fbsys \<Rightarrow> (sock, (analog_configuration, 'st) analog_msg) fbsys option) \<Rightarrow>
   (sock, (analog_configuration, 'st) analog_msg) fbsys \<Rightarrow> (int \<times> (sock, (analog_configuration, 'st) analog_msg) fbsys) option"
where
  "analog_session pb sz u api env s = do {
     (err, s) \<leftarrow> io4edge_analogintypea_upload_configuration socket_methods pb env api \<lparr>sample_rate = 1000\<rparr> s;
     if err \<noteq> IO4E_OK then Some (1, s)
     else do {
       (err, dl_config, s) \<leftarrow> io4edge_analogintypea_download_configuration socket_methods pb env api s;
       if err \<noteq> IO4E_OK then Some (1, s)
       else do {
         p \<leftarrow> dl_config;
         _ \<leftarrow> get_fs p (fb_heap s);
         m \<leftarrow> free p (fb_heap s);
         (err, _, s) \<leftarrow> io4edge_analogintypea_start_stream socket_methods pb env api (stream_attr False) (s\<lparr>fb_heap := m\<rparr>);
         if err \<noteq> IO4E_OK then Some (1, s)
         else do {
           (ret, s) \<leftarrow> read_values 10 pb api env s;
           if ret \<noteq> 0 then Some (ret, s)
           else read_samples 100 sz (unpack_as FS_STREAM_DATA u) 2000 (\<lambda>sd x. Some ()) env s } } } }"

definition analog_main ::
  "pb_api \<Rightarrow> nat \<Rightarrow> (bytes \<Rightarrow> 'st option) \<Rightarrow> (analog_configuration, analog_configuration) analogintypea_api \<Rightarrow>
   ((sock, (analog_configuration, 'st) analog_msg) fbsys \<Rightarrow> (sock, (analog_configuration, 'st) analog_msg) fbsys option) \<Rightarrow>
   nat \<Rightarrow> bool \<Rightarrow> net \<Rightarrow> blocks \<Rightarrow> (analog_configuration, 'st) analog_msg heap \<Rightarrow> int \<Rightarrow>
   (int \<times> net \<times> blocks \<times> (analog_configuration, 'st) analog_msg heap) option" where
  "analog_main pb sz u api env =
     main_program ''192.168.24.154'' DEVICE_PORT pb sz (analog_session pb sz u api env)"


section \<open>CAN\<close>

record can_configuration =
  can_baud :: u32
  can_samplepoint :: u32
  can_sjw :: u32
  can_listenonly :: bool

definition can_config_session ::
  "pb_api \<Rightarrow> (can_configuration, can_configuration, can_frame, 'cfg) canl2_api \<Rightarrow>
   ((sock, (can_configuration, can_sample list) can_msg) fbsys \<Rightarrow>
     (sock, (can_configuration, can_sample list) can_msg) fbsys option) \<Rightarrow>
   (sock, (can_configuration, can_sample list) can_msg) fbsys \<Rightarrow>
   (int \<times> (sock, (can_configuration, can_sample list) can_msg) fbsys) option" where
  "can_config_session pb api env s = do {
     (err, s) \<leftarrow> io4edge_canl2_upload_configuration socket_methods pb env api
        \<lparr>can_baud = 1000000, can_samplepoint = 800, can_sjw = 1, can_listenonly = True\<rparr> s;
     if err \<noteq> IO4E_OK then Some (1, s)
     else do {
       (err, dl_config, s) \<leftarrow> io4edge_canl2_download_configuration socket_methods pb env api s;
       if err \<noteq> IO4E_OK then Some (1, s)
       else do {
         p \<leftarrow> dl_config;
         _ \<leftarrow> get_fs p (fb_heap s);
         m \<leftarrow> free p (fb_heap s);
         Some (0, s\<lparr>fb_heap := m\<rparr>) } } }"

text \<open>\<open>DEVICE_IP\<close> and \<open>DEVICE_PORT\<close> of \<open>can_example.h\<close>.\<close>

definition can_device :: string where
  "can_device = ''192.168.24.102''"

definition can_port :: int where
  "can_port = 10002"

definition can_config_main ::
  "pb_api \<Rightarrow> nat \<Rightarrow> (can_configuration, can_configuration, can_frame, 'cfg) canl2_api \<Rightarrow>
   ((sock, (can_configuration, can_sample list) can_msg) fbsys \<Rightarrow>
     (sock, (can_configuration, can_sample list) can_msg) fbsys option) \<Rightarrow>
   nat \<Rightarrow> bool \<Rightarrow> net \<Rightarrow> blocks \<Rightarrow> (can_configuration, can_sample list) can_msg heap \<Rightarrow> int \<Rightarrow>
   (int \<times> net \<times> blocks \<times> (can_configuration, can_sample list) can_msg heap) option" where
  "can_config_main pb sz api env = main_program can_device can_port pb sz (can_config_session pb api env)"

text \<open>
  \<open>send.c\<close>: ten buckets of five frames. The program allocates each frame with \<open>malloc\<close> and writes to it without
  looking at the result (undefined when it is \<open>NULL\<close>), and frees all five after the call. The frames themselves
  are values; \<open>b\<close> has the program's own blocks.
\<close>

definition bucket_frame :: "nat \<Rightarrow> nat \<Rightarrow> can_frame" where
  "bucket_frame bucket message = \<lparr>cf_messageid = of_nat (0x100 + bucket mod 0xFF),
     cf_extendedframeformat = False, cf_remoteframe = False,
     cf_data = replicate (message mod 8) (of_nat (message mod 0xFF))\<rparr>"

fun make_frames :: "nat list \<Rightarrow> nat \<Rightarrow> blocks \<Rightarrow> (can_frame list \<times> blocks) option" where
  "make_frames [] bucket b = Some ([], b)"
| "make_frames (message # messages) bucket b =
     (case calloc_block b of (ok, b) \<Rightarrow>
      if \<not> ok then None
      else do {
        (frames, b) \<leftarrow> make_frames messages bucket b;
        Some (bucket_frame bucket message # frames, b) })"

fun free_frames :: "can_frame list \<Rightarrow> blocks \<Rightarrow> blocks" where
  "free_frames [] b = b"
| "free_frames (f # frames) b = free_frames frames (free_block b)"

fun send_buckets ::
  "nat list \<Rightarrow> pb_api \<Rightarrow> (can_configuration, can_configuration, can_frame, 'cfg) canl2_api \<Rightarrow>
   ((sock, (can_configuration, can_sample list) can_msg) fbsys \<Rightarrow>
     (sock, (can_configuration, can_sample list) can_msg) fbsys option) \<Rightarrow> blocks \<Rightarrow>
   (sock, (can_configuration, can_sample list) can_msg) fbsys \<Rightarrow>
   (int \<times> blocks \<times> (sock, (can_configuration, can_sample list) can_msg) fbsys) option" where
  "send_buckets [] pb api env b s = Some (0, b, s)"
| "send_buckets (bucket # buckets) pb api env b s = do {
     (frames, b) \<leftarrow> make_frames [0..<5] bucket b;
     (err, s) \<leftarrow> io4edge_canl2_send_frames socket_methods pb env api frames 5 s;
     let b = free_frames frames b;
     if err \<noteq> IO4E_OK then Some (1, b, s) else send_buckets buckets pb api env b s }"

definition can_send_session ::
  "pb_api \<Rightarrow> (can_configuration, can_configuration, can_frame, 'cfg) canl2_api \<Rightarrow>
   ((sock, (can_configuration, can_sample list) can_msg) fbsys \<Rightarrow>
     (sock, (can_configuration, can_sample list) can_msg) fbsys option) \<Rightarrow> blocks \<Rightarrow>
   (sock, (can_configuration, can_sample list) can_msg) fbsys \<Rightarrow>
   (int \<times> blocks \<times> (sock, (can_configuration, can_sample list) can_msg) fbsys) option" where
  "can_send_session pb api env b s = send_buckets [0..<10] pb api env b s"

definition can_send_main ::
  "pb_api \<Rightarrow> nat \<Rightarrow> (can_configuration, can_configuration, can_frame, 'cfg) canl2_api \<Rightarrow>
   ((sock, (can_configuration, can_sample list) can_msg) fbsys \<Rightarrow>
     (sock, (can_configuration, can_sample list) can_msg) fbsys option) \<Rightarrow> blocks \<Rightarrow>
   nat \<Rightarrow> bool \<Rightarrow> net \<Rightarrow> blocks \<Rightarrow> (can_configuration, can_sample list) can_msg heap \<Rightarrow> int \<Rightarrow>
   (int \<times> net \<times> blocks \<times> (can_configuration, can_sample list) can_msg heap) option" where
  "can_send_main pb sz api env frames_b =
     main_program can_device can_port pb sz (\<lambda>s. map_option (\<lambda>(ret, _, s). (ret, s)) (can_send_session pb api env frames_b s))"

text \<open>
  \<open>dumpstream.c\<close> reads until reading fails and frees nothing; at most \<open>n\<close> messages, \<open>None\<close> for a program
  that is still running then.
\<close>

record can_stream_config =
  acceptancecode :: u32
  acceptancemask :: u32

fun print_samples :: "bytes list \<Rightarrow> bytes list \<Rightarrow> can_sample list \<Rightarrow> unit option" where
  "print_samples errors states [] = Some ()"
| "print_samples errors states (x # xs) = do {
     buf \<leftarrow> sample_to_string errors states (replicate 200 0) x;
     print_samples errors states xs }"

fun as_stream_data :: "('get, 'conf, 'desc, 'stream) fs_msg \<Rightarrow> 'stream option" where
  "as_stream_data (FS_STREAM_DATA x) = Some x"
| "as_stream_data _ = None"

fun dump_samples ::
  "nat \<Rightarrow> nat \<Rightarrow> (bytes \<Rightarrow> can_sample list option) \<Rightarrow> bytes list \<Rightarrow> bytes list \<Rightarrow>
   ((sock, (can_configuration, can_sample list) can_msg) fbsys \<Rightarrow>
     (sock, (can_configuration, can_sample list) can_msg) fbsys option) \<Rightarrow>
   (sock, (can_configuration, can_sample list) can_msg) fbsys \<Rightarrow>
   (int option \<times> (sock, (can_configuration, can_sample list) can_msg) fbsys) option" where
  "dump_samples 0 sz u errors states env s = Some (None, s)"
| "dump_samples (Suc n) sz u errors states env s = do {
     s \<leftarrow> env s;
     (err, sd, fs, s) \<leftarrow> io4edge_functionblock_read_stream sz (unpack_as FS_STREAM_DATA u) 2 s;
     if err \<noteq> IO4E_OK then Some (Some 1, s)
     else do {
       d \<leftarrow> get_stream_data sd (fb_heap s);
       x \<leftarrow> get_fs fs (fb_heap s);
       samples \<leftarrow> as_stream_data x;
       _ \<leftarrow> print_samples errors states samples;
       dump_samples n sz u errors states env s } }"

definition can_dump_session ::
  "nat \<Rightarrow> nat \<Rightarrow> (bytes \<Rightarrow> can_sample list option) \<Rightarrow> bytes list \<Rightarrow> bytes list \<Rightarrow> pb_api \<Rightarrow>
   (can_configuration, can_configuration, can_frame, can_stream_config) canl2_api \<Rightarrow>
   ((sock, (can_configuration, can_sample list) can_msg) fbsys \<Rightarrow>
     (sock, (can_configuration, can_sample list) can_msg) fbsys option) \<Rightarrow>
   (sock, (can_configuration, can_sample list) can_msg) fbsys \<Rightarrow>
   (int option \<times> (sock, (can_configuration, can_sample list) can_msg) fbsys) option" where
  "can_dump_session n sz u errors states pb api env s = do {
     (err, _, s) \<leftarrow> io4edge_canl2_start_stream socket_methods pb env api
        \<lparr>acceptancecode = 0, acceptancemask = 0\<rparr> (stream_attr True) s;
     if err \<noteq> IO4E_OK then Some (Some 1, s)
     else dump_samples n sz u errors states env s }"

definition can_dump_main ::
  "nat \<Rightarrow> nat \<Rightarrow> (bytes \<Rightarrow> can_sample list option) \<Rightarrow> bytes list \<Rightarrow> bytes list \<Rightarrow> pb_api \<Rightarrow>
   (can_configuration, can_configuration, can_frame, can_stream_config) canl2_api \<Rightarrow>
   ((sock, (can_configuration, can_sample list) can_msg) fbsys \<Rightarrow>
     (sock, (can_configuration, can_sample list) can_msg) fbsys option) \<Rightarrow>
   bool \<Rightarrow> net \<Rightarrow> blocks \<Rightarrow> (can_configuration, can_sample list) can_msg heap \<Rightarrow> int \<Rightarrow>
   (int option \<times> net \<times> blocks \<times> (can_configuration, can_sample list) can_msg heap) option" where
  "can_dump_main k sz u errors states pb api env thread_ok n b m now = do {
     (err, handle, n, b) \<leftarrow>
       io4edge_functionblock_client_new_from_host_port can_device can_port 5 thread_ok n b;
     if err \<noteq> IO4E_OK then Some (Some 1, n, b, m)
     else do {
       c \<leftarrow> handle;
       (ret, s) \<leftarrow> can_dump_session k sz u errors states pb api env (client.extend c (fbsys.fields m now));
       Some (ret, n, b, fb_heap s) } }"


section \<open>The calls keep the client\<close>

lemma send_pattern_steady:
  "steady fd pb ok s \<Longrightarrow> \<exists>err s'. io4edge_mvbsniffer_send_pattern socket_methods pb (reader_turn n pb sz) api msg s
      = Some (err, s') \<and> fb_loose s' = fb_loose s \<and> steady fd pb ok s'"
  unfolding io4edge_mvbsniffer_send_pattern_def Let_def by (rule set_call_steady)

lemma send_frames_steady:
  assumes "steady fd pb ok s" "k \<le> length frames"
  shows "\<exists>err s'. io4edge_canl2_send_frames socket_methods pb (reader_turn n pb sz) api frames k s
      = Some (err, s') \<and> fb_loose s' = fb_loose s \<and> steady fd pb ok s'"
  unfolding send_frames_shape [OF assms(2)] by (rule set_call_steady [OF assms(1)])

lemma value_steady:
  "steady fd pb ok s \<Longrightarrow> \<exists>err v s'. io4edge_analogintypea_value socket_methods pb (reader_turn n pb sz) api s
      = Some (err, v, s') \<and> fb_loose s' = fb_loose s \<and> steady fd pb ok s'"
  unfolding value_shape by (rule read_call_steady)

lemma read_values_done:
  "steady fd pb ok s \<Longrightarrow> \<exists>ret s'. read_values k pb api (reader_turn n pb sz) s = Some (ret, s') \<and>
     fb_loose s' = fb_loose s \<and> steady fd pb ok s' \<and> (ret = 0 \<or> ret = 1)"
proof (induction k arbitrary: s)
  case (Suc k)
  from value_steady [OF Suc.prems] obtain err v s1 where s1:
    "io4edge_analogintypea_value socket_methods pb (reader_turn n pb sz) api s = Some (err, v, s1)"
    "fb_loose s1 = fb_loose s" "steady fd pb ok s1" by blast
  from Suc.IH [OF s1(3)] s1 show ?case by auto
qed simp

text \<open>The frames of a bucket, when every \<open>malloc\<close> succeeds, and what freeing them leaves.\<close>

definition bucket_frames :: "nat \<Rightarrow> can_frame list" where
  "bucket_frames bucket = map (bucket_frame bucket) [0..<5]"

lemma make_frames_ok:
  "b_fail b = [] \<Longrightarrow> make_frames ms bucket b
     = Some (map (bucket_frame bucket) ms, b\<lparr>b_live := b_live b + length ms\<rparr>)"
  by (induction ms arbitrary: b) (simp_all add: calloc_block_def)

lemma free_frames_eq: "free_frames fs b = b\<lparr>b_live := b_live b - length fs\<rparr>"
  by (induction fs arbitrary: b) (simp_all add: free_block_def)

lemma bucket_round:
  assumes "b_fail b = []"
  shows "send_buckets (bucket # buckets) pb api env b s = do {
     (err, s) \<leftarrow> io4edge_canl2_send_frames socket_methods pb env api (bucket_frames bucket) 5 s;
     if err \<noteq> IO4E_OK then Some (1, b, s) else send_buckets buckets pb api env b s }"
proof -
  have "make_frames [0..<5] bucket b = Some (bucket_frames bucket, b\<lparr>b_live := b_live b + 5\<rparr>)"
    using make_frames_ok [OF assms, of "[0..<5]" bucket] by (simp add: bucket_frames_def)
  moreover have "free_frames (bucket_frames bucket) (b\<lparr>b_live := b_live b + 5\<rparr>) = b"
    by (simp add: free_frames_eq bucket_frames_def)
  ultimately show ?thesis by (simp del: upt_rec_numeral)
qed

lemma send_buckets_done:
  "b_fail b = [] \<Longrightarrow> steady fd pb ok s \<Longrightarrow>
     \<exists>ret s'. send_buckets bs pb api (reader_turn n pb sz) b s = Some (ret, b, s') \<and>
     fb_loose s' = fb_loose s \<and> steady fd pb ok s' \<and> (ret = 0 \<or> ret = 1)"
proof (induction bs arbitrary: s)
  case (Cons bucket bs)
  have len: "5 \<le> length (bucket_frames bucket)" by (simp add: bucket_frames_def)
  from send_frames_steady [OF Cons.prems(2) len] obtain err s1 where s1:
    "io4edge_canl2_send_frames socket_methods pb (reader_turn n pb sz) api (bucket_frames bucket) 5 s = Some (err, s1)"
    "fb_loose s1 = fb_loose s" "steady fd pb ok s1" by blast
  from Cons.IH [OF Cons.prems(1) s1(3)] s1 show ?case
    by (auto simp: bucket_round [OF Cons.prems(1)] simp del: send_buckets.simps(2))
qed simp

lemma print_telegrams_returns:
  "\<forall>name \<in> set names. length name \<le> 40 \<Longrightarrow> \<forall>tg \<in> set tgs. length (tg_data tg) \<le> 32 \<Longrightarrow>
     print_telegrams names tgs = Some ()"
  by (induction tgs) (simp_all add: telegram_content(2))

text \<open>
  The names of the generated table fit into the buffer. A message of the stream has no telegram that is
  longer than the bus allows, if it has data and they unpack.
\<close>

definition names_fit :: "bytes list \<Rightarrow> bool" where
  "names_fit names \<longleftrightarrow> (\<forall>name \<in> set names. length name \<le> 40)"

definition telegrams_ok :: "(bytes \<Rightarrow> mvb_telegram list option) \<Rightarrow> stream_data \<Rightarrow> bool" where
  "telegrams_ok u d =
     (case functionspecificstreamdata d of
        None \<Rightarrow> True
      | Some any \<Rightarrow>
          (case u (any_value any) of None \<Rightarrow> True | Some tgs \<Rightarrow> \<forall>tg \<in> set tgs. length (tg_data tg) \<le> 32))"

lemma shows_nothing: "shows_all ok u (\<lambda>sd x. Some ())"
  by (simp add: shows_all_def)

lemma shows_telegrams:
  "names_fit names \<Longrightarrow> shows_all (telegrams_ok u) u (\<lambda>sd tgs. print_telegrams names tgs)"
  by (auto simp: shows_all_def telegrams_ok_def names_fit_def print_telegrams_returns)

text \<open>What both MVB programs do before reading.\<close>

lemma mvb_start:
  assumes "steady fd pb ok s" and rest:
    "\<And>s1. steady fd pb ok s1 \<Longrightarrow> \<exists>ret s'. read s1 = Some (ret, s') \<and> program_done fd pb ok s1 ret s'"
  shows "\<exists>ret s'. (do {
     (err, s) \<leftarrow> io4edge_mvbsniffer_send_pattern socket_methods pb (reader_turn n pb sz) api TEST_PATTERN s;
     if err \<noteq> IO4E_OK then Some (1, s)
     else do {
       (err, _, s) \<leftarrow> io4edge_mvbsniffer_start_stream socket_methods pb (reader_turn n pb sz) api mvb_config
          (stream_attr False) s;
       if err \<noteq> IO4E_OK then Some (1, s) else read s } }) = Some (ret, s') \<and> program_done fd pb ok s ret s'"
proof -
  from send_pattern_steady [OF assms(1)] obtain err1 s1 where s1:
    "io4edge_mvbsniffer_send_pattern socket_methods pb (reader_turn n pb sz) api TEST_PATTERN s = Some (err1, s1)"
    "fb_loose s1 = fb_loose s" "steady fd pb ok s1" by blast
  from start_loose [OF s1(3)] obtain err2 cfg s2 where s2:
    "io4edge_mvbsniffer_start_stream socket_methods pb (reader_turn n pb sz) api mvb_config (stream_attr False) s1
      = Some (err2, cfg, s2)" "fb_loose s2 = fb_loose s1" "steady fd pb ok s2"
    unfolding io4edge_mvbsniffer_start_stream_def Let_def by blast
  from rest [OF s2(3)] obtain ret s3 where s3: "read s2 = Some (ret, s3)" "program_done fd pb ok s2 ret s3" by blast
  have eq: "fb_loose s2 = fb_loose s" using s1(2) s2(2) by simp
  show ?thesis
    using s1 s2 s3 program_done_1 [OF s1(3,2)] program_done_1 [OF s2(3) eq] program_done_trans [OF eq s3(2)]
    by (cases "err1 = IO4E_OK"; cases "err2 = IO4E_OK") auto
qed

interpretation reconnect: client_body pb "handle_session pb sz u api (reader_turn n pb sz)" True "\<lambda>_. True"
  for pb sz u api n
proof unfold_locales
  fix fd and s :: "(sock, mvb_telegram list) fbsys"
  assume "steady fd pb (\<lambda>_. True) s"
  then show "\<exists>ret s'. handle_session pb sz u api (reader_turn n pb sz) s = Some (ret, s') \<and> program_left fd s ret s'"
    unfolding handle_session_def
    by (rule left_if_done [OF mvb_start]) (rule read_samples_done [OF _ shows_nothing])
qed

interpretation mvb: client_body pb "mvb_session names pb sz u api (reader_turn n pb sz)" "names_fit names" "telegrams_ok u"
  for pb names sz u api n
proof unfold_locales
  fix fd and s :: "(sock, mvb_telegram list) fbsys"
  assume fit: "names_fit names" and st: "steady fd pb (telegrams_ok u) s"
  show "\<exists>ret s'. mvb_session names pb sz u api (reader_turn n pb sz) s = Some (ret, s') \<and> program_left fd s ret s'"
    unfolding mvb_session_def
    by (rule left_if_done [OF mvb_start [OF st]]) (rule read_samples_done [OF _ shows_telegrams [OF fit]])
qed


text \<open>What \<open>analogintypea/main.c\<close> does with the configured client.\<close>

lemma analog_read_done:
  assumes "steady fd pb ok s2" "fb_loose s2 = fb_loose s"
  shows "\<exists>ret s'. (do {
       (err, _, s) \<leftarrow> io4edge_analogintypea_start_stream socket_methods pb (reader_turn n pb sz) api (stream_attr False) s2;
       if err \<noteq> IO4E_OK then Some (1, s)
       else do {
         (ret, s) \<leftarrow> read_values 10 pb api (reader_turn n pb sz) s;
         if ret \<noteq> 0 then Some (ret, s)
         else read_samples 100 sz (unpack_as FS_STREAM_DATA u) 2000 (\<lambda>sd x. Some ()) (reader_turn n pb sz) s } })
      = Some (ret, s') \<and> program_done fd pb ok s ret s'"
proof -
  let ?env = "reader_turn n pb sz"
  from start_loose [OF assms(1)] obtain err3 cfg s3 where s3:
    "io4edge_analogintypea_start_stream socket_methods pb ?env api (stream_attr False) s2 = Some (err3, cfg, s3)"
    "fb_loose s3 = fb_loose s2" "steady fd pb ok s3"
    unfolding io4edge_analogintypea_start_stream_def Let_def by blast
  from read_values_done [OF s3(3)] obtain ret4 s4 where s4:
    "read_values 10 pb api ?env s3 = Some (ret4, s4)" "fb_loose s4 = fb_loose s3" "steady fd pb ok s4"
    "ret4 = 0 \<or> ret4 = 1" by blast
  from read_samples_done [OF s4(3) shows_nothing] obtain ret5 s5 where s5:
    "read_samples 100 sz (unpack_as FS_STREAM_DATA u) 2000 (\<lambda>sd x. Some ()) ?env s4 = Some (ret5, s5)"
    "program_done fd pb ok s4 ret5 s5" by blast
  have eq: "fb_loose s3 = fb_loose s" "fb_loose s4 = fb_loose s" using assms(2) s3(2) s4(2) by simp_all
  show ?thesis
    using s3(1) s4(1,4) s5(1) program_done_1 [OF s3(3) eq(1)] program_done_1 [OF s4(3) eq(2)]
      program_done_trans [OF eq(2) s5(2)]
    by (cases "err3 = IO4E_OK") auto
qed

interpretation analog: client_body pb "analog_session pb sz u api (reader_turn n pb sz)" True "\<lambda>_. True"
  for pb sz u api n
proof unfold_locales
  fix fd and s :: "(sock, (analog_configuration, 'a) analog_msg) fbsys"
  assume "steady fd pb (\<lambda>_. True) s"
  then show "\<exists>ret s'. analog_session pb sz u api (reader_turn n pb sz) s = Some (ret, s') \<and> program_left fd s ret s'"
    unfolding analog_session_def io4edge_analogintypea_upload_configuration_def
      io4edge_analogintypea_download_configuration_def Let_def
    by (rule left_if_done [OF configure_done [where P = "program_done fd pb (\<lambda>_. True) s"]])
       (rule program_done_1 analog_read_done, assumption+)+
qed

interpretation can_config: client_body pb "can_config_session pb api (reader_turn n pb sz)" True "\<lambda>_. True"
  for pb sz api n
proof unfold_locales
  fix fd and s :: "(sock, (can_configuration, can_sample list) can_msg) fbsys"
  assume "steady fd pb (\<lambda>_. True) s"
  then show "\<exists>ret s'. can_config_session pb api (reader_turn n pb sz) s = Some (ret, s') \<and> program_left fd s ret s'"
    unfolding can_config_session_def io4edge_canl2_upload_configuration_def
      io4edge_canl2_download_configuration_def Let_def
    by (rule left_if_done [OF configure_done [where P = "program_done fd pb (\<lambda>_. True) s"]])
       (simp_all add: program_done_def lost_one_refl)
qed

interpretation can_send: client_body pb
    "\<lambda>s. map_option (\<lambda>(ret, _, s). (ret, s)) (can_send_session pb api (reader_turn n pb sz) b s)" "b_fail b = []" "\<lambda>_. True"
  for pb sz api n b
proof unfold_locales
  fix fd and s :: "(sock, (can_configuration, can_sample list) can_msg) fbsys"
  assume "b_fail b = []" "steady fd pb (\<lambda>_. True) s"
  from send_buckets_done [OF this] show "\<exists>ret s'. map_option (\<lambda>(ret, _, s). (ret, s))
      (can_send_session pb api (reader_turn n pb sz) b s) = Some (ret, s') \<and> program_left fd s ret s'"
    unfolding can_send_session_def by (intro left_if_done) (fastforce simp: program_done_def intro: lost_one_refl)
qed

end
