(* ===== verification/Stim_Thread.thy ===== *)
theory Stim_Thread
  imports Client_Program Binaryiotypea
begin

text \<open>
  The second thread of \<open>examples/binaryiotypea/main.c\<close>, \<open>stim_thread\<close>: its calls, the points at which \<open>main\<close> can
  cancel it, and what it leaves there. That the cancelled calls follow the calls of the library is
  \<open>write_rounds_end\<close> and \<open>set_output_cut_finish\<close>.
\<close>

section \<open>The second thread\<close>

record binary_configuration =
  outputwatchdogmask :: u32
  outputwatchdogtimeout :: u32

type_synonym 'st binary_sys =
  "(sock, (binary_configuration, unit, 'st) binary_msg) fbsys"

type_synonym binary_api = "(binary_configuration, binary_configuration, unit) binaryiotypea_api"

text \<open>Where \<open>stim_thread\<close> is: before setting output 0 to a value, or returned after a failure.\<close>

datatype stim_pc = Stim_Set bool | Stim_Return

fun stim_step ::
  "pb_api \<Rightarrow> binary_api \<Rightarrow> ('st binary_sys \<Rightarrow> 'st binary_sys option) \<Rightarrow> stim_pc \<Rightarrow> 'st binary_sys \<Rightarrow>
   (stim_pc \<times> 'st binary_sys) option" where
  "stim_step pb api env (Stim_Set v) s = do {
     (err, s) \<leftarrow> io4edge_binaryiotypea_set_output socket_methods pb env api 0 v s;
     Some (if err \<noteq> IO4E_OK then Stim_Return else Stim_Set (\<not> v), s) }"
| "stim_step pb api env Stim_Return s = Some (Stim_Return, s)"

fun stim_thread ::
  "nat \<Rightarrow> pb_api \<Rightarrow> binary_api \<Rightarrow> ('st binary_sys \<Rightarrow> 'st binary_sys option) \<Rightarrow> stim_pc \<Rightarrow> 'st binary_sys \<Rightarrow>
   (stim_pc \<times> 'st binary_sys) option" where
  "stim_thread 0 pb api env pc s = Some (pc, s)"
| "stim_thread (Suc n) pb api env pc s = do {
     (pc, s) \<leftarrow> stim_step pb api env pc s;
     stim_thread n pb api env pc s }"

text \<open>The thread's turn before the next call of \<open>main\<close>; the schedule says how many calls it makes.\<close>

type_synonym stim = "stim_pc \<times> nat list"

definition stim_turn ::
  "pb_api \<Rightarrow> binary_api \<Rightarrow> ('st binary_sys \<Rightarrow> 'st binary_sys option) \<Rightarrow> stim \<Rightarrow> 'st binary_sys \<Rightarrow>
   (stim \<times> 'st binary_sys) option" where
  "stim_turn pb api env st s = (case st of (pc, sched) \<Rightarrow> do {
     (pc, s) \<leftarrow> stim_thread (case sched of [] \<Rightarrow> 0 | k # _ \<Rightarrow> k) pb api env pc s;
     Some ((pc, tl sched), s) })"


section \<open>Cancelling the second thread\<close>

text \<open>
  The cancellation points of the thread: asleep between two calls, or in a call at one of the writes of
  the command, in the wait for the response, or at the line the call logs when it fails. A cancelled call
  returns nothing and unlocks nothing.
\<close>

datatype stim_cut = Cut_Sleep | Cut_Write nat | Cut_Wait | Cut_Log

text \<open>\<open>write_msg\<close> after \<open>k\<close> calls of \<open>write\<close>, or at its end.\<close>

fun write_rounds :: "nat \<Rightarrow> sock \<Rightarrow> bytes \<Rightarrow> sock" where
  "write_rounds 0 s buf = s"
| "write_rounds (Suc k) s buf =
     (if buf = [] then s
      else case sys_write s buf of
             (Wr_Failed errno, s') \<Rightarrow>
               if errno \<noteq> EINTR \<and> errno \<noteq> EAGAIN \<and> errno \<noteq> EWOULDBLOCK then s' else write_rounds k s' buf
           | (Wr_Wrote ret, s') \<Rightarrow> write_rounds k s' (drop ret buf))"

definition write_msg_rounds :: "nat \<Rightarrow> sock \<Rightarrow> bytes \<Rightarrow> u32 \<Rightarrow> sock" where
  "write_msg_rounds k s buf len =
     (if unat len < FSTREAM_HEADER_SIZE then s
      else write_rounds k s
             (put_header (len - of_nat FSTREAM_HEADER_SIZE) @ drop FSTREAM_HEADER_SIZE (take (unat len) buf)))"

text \<open>
  \<open>command\<close> for a caller that wants the response, up to the cancellation (\<open>True\<close>) or, when it logs nothing, to
  its end with the response. What it logs after the wait: no response, a wrong context, a failed status; in
  the last two cases the response, no longer in \<open>cmd_response\<close>, is in hand.
\<close>

definition command_check_cut :: "pb_api \<Rightarrow> ptr \<Rightarrow> ('h, 'fs) fbsys \<Rightarrow> (bool \<times> ptr \<times> ('h, 'fs) fbsys) option" where
  "command_check_cut pb res s =
     (if res = NULL then Some (True, NULL, s)
      else do {
        r \<leftarrow> get_response res (fb_heap s);
        value \<leftarrow> res_context r;
        if \<not> strcmp_eq value (cmd_context s) then Some (True, NULL, s)
        else do {
          c \<leftarrow> array_get (cmd_context s) 0;
          ctx \<leftarrow> array_put (cmd_context s) 0 (if c + 1 = 90 then 65 else c + 1);
          let s = s\<lparr>cmd_context := ctx\<rparr>;
          if res_status r \<noteq> STATUS_OK then
            (if status_in_table pb (res_status r) \<and> res_error r \<noteq> None then Some (True, NULL, s) else None)
          else Some (False, res, s) } })"

definition command_cut ::
  "stim_cut \<Rightarrow> pb_api \<Rightarrow> ((sock, 'fs) fbsys \<Rightarrow> (sock, 'fs) fbsys option) \<Rightarrow> command_pb \<Rightarrow>
   (sock, 'fs) fbsys \<Rightarrow> (bool \<times> ptr \<times> (sock, 'fs) fbsys) option" where
  "command_cut at pb env cmd s =
     (case at of
        Cut_Write k \<Rightarrow> do {
          s \<leftarrow> command_advance (s\<lparr>cmd_mutex := True\<rparr>);
          let marshaled = pb_pack_command pb (cmd\<lparr>cmd_ctx := Some (c_str (cmd_context s))\<rparr>);
          let header_size = get_write_offset (fb_transport s);
          Some (True, NULL, s\<lparr>fb_transport := write_msg_rounds k (fb_transport s)
            (replicate (unat header_size) 0 @ marshaled) (of_nat (length marshaled) + header_size)\<rparr>) }
      | _ \<Rightarrow> do {
          (err, s) \<leftarrow> command_send socket_methods pb cmd s;
          if err \<noteq> IO4E_OK \<or> at = Cut_Wait then Some (True, NULL, s)
          else do {
            let ts = fb_now s + cmd_timeout s;
            s \<leftarrow> env s;
            case sem_timedwait (cmd_sem s) ts (fb_now s) of (ret, v, now) \<Rightarrow>
            let s = s\<lparr>cmd_sem := v, fb_now := now\<rparr> in
            if ret = -1 then Some (True, NULL, s)
            else command_check_cut pb (cmd_response s) (s\<lparr>cmd_response := NULL\<rparr>) } })"

text \<open>
  \<open>set_output\<close> and the request it makes. A response of the wrong type is logged before it is freed; a call
  that logs nothing returns, and the thread is cancelled in the sleep after it.
\<close>

definition set_output_cut ::
  "stim_cut \<Rightarrow> pb_api \<Rightarrow> ('st binary_sys \<Rightarrow> 'st binary_sys option) \<Rightarrow> binary_api \<Rightarrow> u32 \<Rightarrow> bool \<Rightarrow>
   'st binary_sys \<Rightarrow> 'st binary_sys option" where
  "set_output_cut at pb env api channel state s = do {
     let packed_req = IO4E_PACK_PROTOMSG (BINARY_SET_SINGLE channel state) (binary_function_control_set api);
     (cancelled, pb_res, s) \<leftarrow> command_cut at pb env \<lparr>cmd_ctx = None,
        cmd_type = COMMAND_FUNCTION_CONTROL (FUNCTION_CONTROL_SET (MAKE_ANYPB packed_req))\<rparr> s;
     if cancelled then Some s
     else do {
       let s = s\<lparr>cmd_mutex := False\<rparr>;
       r \<leftarrow> get_response pb_res (fb_heap s);
       if \<not> is_correct_fc_response r ACTION_SET then Some s
       else do {
         m \<leftarrow> response__free_unpacked pb_res (fb_heap s);
         Some (s\<lparr>fb_heap := m\<rparr>) } } }"

definition stim_cancel ::
  "stim_cut \<Rightarrow> pb_api \<Rightarrow> binary_api \<Rightarrow> ('st binary_sys \<Rightarrow> 'st binary_sys option) \<Rightarrow> stim_pc \<Rightarrow>
   'st binary_sys \<Rightarrow> 'st binary_sys option" where
  "stim_cancel at pb api env pc s =
     (case pc of
        Stim_Return \<Rightarrow> Some s
      | Stim_Set v \<Rightarrow> if at = Cut_Sleep then Some s else set_output_cut at pb env api 0 v s)"


section \<open>A call that is not cancelled\<close>

text \<open>
  Enough writes are the whole of \<open>write_loop\<close>, and a call that succeeds (it logs nothing) is not cancelled at a log
  message: then the definitions above agree with the calls they cut.
\<close>

lemma write_rounds_end:
  assumes "write_loop s buf = Some r"
  shows "\<exists>k. write_rounds k s buf = snd r"
    (is "?P s buf r")
proof (rule write_loop.raw_induct [where P = ?P, OF _ assms], goal_cases)
  case (1 f s buf r)
  obtain w t where w: "sys_write s buf = (w, t)" by fastforce
  show ?case
  proof (cases "buf = []")
    case True
    with 1(2) have "write_rounds 0 s buf = snd r" by auto
    then show ?thesis by blast
  next
    case False
    have more: ?thesis if "f t buf' = Some r" "\<And>k. write_rounds (Suc k) s buf = write_rounds k t buf'" for buf'
      using 1(1) [OF that(1)] that(2) by metis
    show ?thesis
    proof (cases w)
      case (Wr_Wrote n)
      with 1(2) False w show ?thesis by (intro more [of "drop n buf"]) simp_all
    next
      case (Wr_Failed e)
      show ?thesis
      proof (cases "e \<noteq> EINTR \<and> e \<noteq> EAGAIN \<and> e \<noteq> EWOULDBLOCK")
        case True
        with 1(2) False w Wr_Failed have "write_rounds (Suc 0) s buf = snd r" by auto
        then show ?thesis by blast
      next
        case F: False
        with 1(2) False w Wr_Failed show ?thesis by (intro more [of buf]) auto
      qed
    qed
  qed
qed

lemma check_cut_finish:
  assumes "command_check pb True p s = Some (IO4E_OK, q, s')"
  shows "command_check_cut pb p s = Some (False, q, s')"
proof (cases "p = NULL")
  case True
  with assms show ?thesis by (simp add: command_check_def err_defs)
next
  case False
  with assms obtain r v where r: "get_response p (fb_heap s) = Some r" "res_context r = Some v"
    by (auto simp: command_check_def bind_eq_Some_conv)
  with assms False have m: "strcmp_eq v (cmd_context s)"
    by (auto simp: command_check_def bind_eq_Some_conv err_defs split: if_splits)
  with assms False r obtain c ctx where c: "array_get (cmd_context s) 0 = Some c"
    "array_put (cmd_context s) 0 (if c + 1 = 90 then 65 else c + 1) = Some ctx"
    by (auto simp: command_check_def bind_eq_Some_conv)
  with assms False r m have "res_status r = STATUS_OK"
    by (auto simp: command_check_def bind_eq_Some_conv Let_def split: if_splits)
  with assms False r m c show ?thesis
    by (simp add: command_check_def command_check_cut_def Let_def)
qed

lemma command_cut_finish:
  assumes "command socket_methods pb env cmd True s = Some (IO4E_OK, p, s')"
  obtains t where "command_cut Cut_Log pb env cmd s = Some (False, p, t)" "s' = t\<lparr>cmd_mutex := False\<rparr>"
proof -
  from assms obtain err s1 where send: "command_send socket_methods pb cmd s = Some (err, s1)"
    by (auto simp: command_def bind_eq_Some_conv)
  with assms have ok: "err = IO4E_OK" by (auto simp: command_def split: if_splits)
  with assms send obtain s2 where env: "env s1 = Some s2"
    by (auto simp: command_def bind_eq_Some_conv Let_def)
  obtain ret v now where sem: "sem_timedwait (cmd_sem s2) (fb_now s1 + cmd_timeout s1) (fb_now s2) = (ret, v, now)"
    by (metis prod_cases3)
  let ?s = "s2\<lparr>cmd_sem := v, fb_now := now\<rparr>"
  from assms send ok env sem have ret: "ret \<noteq> -1" by (auto simp: command_def Let_def err_defs)
  with assms send ok env sem obtain t where fin: "command_finish pb True ?s = Some (IO4E_OK, p, t)"
    "s' = t\<lparr>cmd_mutex := False\<rparr>" by (auto simp: command_def Let_def bind_eq_Some_conv)
  from fin(1) have "command_check_cut pb (cmd_response ?s) (?s\<lparr>cmd_response := NULL\<rparr>) = Some (False, p, t)"
    by (intro check_cut_finish) (simp add: command_finish_def Let_def)
  with send ok env sem ret fin(2) show ?thesis by (intro that [of t]) (simp_all add: command_cut_def Let_def)
qed

lemma set_output_cut_finish:
  assumes "io4edge_binaryiotypea_set_output socket_methods pb env api c v s = Some (IO4E_OK, s')"
  shows "set_output_cut Cut_Log pb env api c v s = Some s'"
proof -
  let ?cmd = "\<lparr>cmd_ctx = None, cmd_type = COMMAND_FUNCTION_CONTROL (FUNCTION_CONTROL_SET (MAKE_ANYPB
        (IO4E_PACK_PROTOMSG (BINARY_SET_SINGLE c v) (binary_function_control_set api))))\<rparr>"
  from assms obtain err p s1 where c: "command socket_methods pb env ?cmd True s = Some (err, p, s1)"
    by (auto simp: io4edge_binaryiotypea_set_output_def io4e_functionblock_function_control_set_def
        bind_eq_Some_conv Let_def)
  with assms have "err = IO4E_OK"
    by (auto simp: io4edge_binaryiotypea_set_output_def io4e_functionblock_function_control_set_def
        bind_eq_Some_conv Let_def split: if_splits)
  with c obtain t where t: "command_cut Cut_Log pb env ?cmd s = Some (False, p, t)" "s1 = t\<lparr>cmd_mutex := False\<rparr>"
    by (auto elim: command_cut_finish)
  with assms c \<open>err = IO4E_OK\<close> show ?thesis
    by (auto simp: io4edge_binaryiotypea_set_output_def io4e_functionblock_function_control_set_def set_output_cut_def
        exit_proto_def bind_eq_Some_conv Let_def err_defs split: if_splits)
qed


section \<open>Every call keeps the client\<close>

lemma set_output_steady:
  "steady fd pb ok s \<Longrightarrow> \<exists>err s'. io4edge_binaryiotypea_set_output socket_methods pb (reader_turn n pb sz) api c v s
      = Some (err, s') \<and> fb_loose s' = fb_loose s \<and> steady fd pb ok s'"
  unfolding io4edge_binaryiotypea_set_output_def Let_def by (rule set_call_steady)

lemma stim_step_steady:
  assumes "steady fd pb ok s"
  shows "\<exists>pc' s'. stim_step pb api (reader_turn n pb sz) pc s = Some (pc', s') \<and>
    fb_loose s' = fb_loose s \<and> steady fd pb ok s'"
proof (cases pc)
  case (Stim_Set v)
  from set_output_steady [OF assms, of n sz api 0 v] Stim_Set show ?thesis by auto
qed (use assms in simp)

lemma stim_thread_steady:
  "steady fd pb ok s \<Longrightarrow> \<exists>pc' s'. stim_thread k pb api (reader_turn n pb sz) pc s = Some (pc', s') \<and>
     fb_loose s' = fb_loose s \<and> steady fd pb ok s'"
proof (induction k arbitrary: pc s)
  case (Suc k)
  from stim_step_steady [OF Suc.prems] obtain pc1 s1 where
    "stim_step pb api (reader_turn n pb sz) pc s = Some (pc1, s1)" "fb_loose s1 = fb_loose s" "steady fd pb ok s1" by blast
  with Suc.IH [OF this(3), of pc1] show ?case by auto
qed simp

lemma stim_turn_steady:
  assumes "steady fd pb ok s"
  shows "\<exists>st' s'. stim_turn pb api (reader_turn n pb sz) st s = Some (st', s') \<and>
    fb_loose s' = fb_loose s \<and> steady fd pb ok s'"
proof -
  obtain pc sched where st: "st = (pc, sched)" by (cases st)
  from stim_thread_steady [OF assms, of "case sched of [] \<Rightarrow> 0 | k # _ \<Rightarrow> k" api n sz pc] show ?thesis
    by (auto simp: st stim_turn_def)
qed


section \<open>What the cancelled thread leaves\<close>

lemma sys_write_live: "sock_live fd good s \<Longrightarrow> sys_write s buf = (r, s') \<Longrightarrow> sock_live fd good s'"
  using sys_write_frame [of s buf r s'] by (simp add: sock_live_def rd_sound_def errno_wf_def wr_live_def)

lemma write_rounds_live: "sock_live fd good s \<Longrightarrow> sock_live fd good (write_rounds k s buf)"
proof (induction k arbitrary: s buf)
  case (Suc k)
  obtain r s' where w: "sys_write s buf = (r, s')" by fastforce
  from Suc.IH [OF sys_write_live [OF Suc.prems w]] sys_write_live [OF Suc.prems w] Suc.prems w show ?case
    by (auto split: wr_res.split)
qed simp

text \<open>A client that can be deleted, the user's objects, and at most responses beside them.\<close>

definition stim_left :: "int \<Rightarrow> (sock, 'fs) fbsys \<Rightarrow> (sock, 'fs) fbsys \<Rightarrow> bool" where
  "stim_left fd s s' \<longleftrightarrow> program_left fd s 0 s'"

lemma stim_left_same: "deletable fd s' \<Longrightarrow> fb_loose s' = fb_loose s \<Longrightarrow> stim_left fd s s'"
  by (simp add: stim_left_def program_left_def)

text \<open>The response taken from \<open>cmd_response\<close>.\<close>

lemma take_response:
  assumes "deletable fd s" "pending_wf pb ok s" "cmd_response s \<noteq> NULL"
  obtains r where "m_store (fb_heap s) (cmd_response s) = Some (OResponse r)"
    "type_case (res_type r) \<noteq> TYPE_STREAM" "response_wf pb r"
    "deletable fd (s\<lparr>cmd_response := NULL\<rparr>)"
    "fb_loose (s\<lparr>cmd_response := NULL\<rparr>) = insert (cmd_response s) (fb_loose s)" "cmd_response s \<notin> fb_loose s"
proof -
  have inv: "fb_inv s" using assms(1) by (simp add: deletable_def)
  note I = fb_invD [OF inv]
  from I(5) [OF assms(3)] obtain r where r: "m_store (fb_heap s) (cmd_response s) = Some (OResponse r)"
    "type_case (res_type r) \<noteq> TYPE_STREAM" by blast
  have "deletable fd (s\<lparr>cmd_response := NULL\<rparr>)" using I assms(1) by (simp add: deletable_def fb_inv_def)
  with assms r pending_not_queued [OF inv] show ?thesis
    by (intro that [of r]) (auto simp: pending_wf_def fb_loose_def fb_owned_def)
qed

lemma stim_left_held:
  assumes "deletable fd s'" "fb_loose s' = insert p (fb_loose s)" "m_store (fb_heap s') p = Some (OResponse r)"
  shows "stim_left fd s s'"
  using assms by (auto simp: stim_left_def program_left_def)

lemma deletable_context: "deletable fd s \<Longrightarrow> deletable fd (s\<lparr>cmd_context := [c, 0]\<rparr>)"
  by (simp add: deletable_def fb_inv_context)

lemma check_cut_left:
  assumes "deletable fd s" "fb_loose s = L" "pending_wf pb ok s"
  obtains (cancelled) s' where "command_check_cut pb (cmd_response s) (s\<lparr>cmd_response := NULL\<rparr>) = Some (True, NULL, s')"
      "deletable fd s'" "fb_loose s' = L \<or>
        (\<exists>p r. fb_loose s' = insert p L \<and> m_store (fb_heap s') p = Some (OResponse r))"
  | (finished) p r s' where "command_check_cut pb (cmd_response s) (s\<lparr>cmd_response := NULL\<rparr>) = Some (False, p, s')"
      "deletable fd s'" "fb_loose s' = insert p L" "p \<notin> L"
      "m_store (fb_heap s') p = Some (OResponse r)" "type_case (res_type r) \<noteq> TYPE_STREAM"
proof (cases "cmd_response s = NULL")
  case True
  then have "s\<lparr>cmd_response := NULL\<rparr> = s" by simp
  with True assms cancelled show ?thesis by (simp add: command_check_cut_def)
next
  case False
  let ?s = "s\<lparr>cmd_response := NULL\<rparr>" and ?p = "cmd_response s"
  from take_response [OF assms(1,3) False] obtain r where r: "m_store (fb_heap s) ?p = Some (OResponse r)"
    "type_case (res_type r) \<noteq> TYPE_STREAM" "response_wf pb r" "deletable fd ?s"
    "fb_loose ?s = insert ?p (fb_loose s)" "?p \<notin> fb_loose s" .
  have inv: "fb_inv s" using assms(1) by (simp add: deletable_def)
  from fb_invD(6) [OF inv] obtain c where c: "cmd_context s = [c, 0]" by blast
  have get: "get_response ?p (fb_heap s) = Some r" using get_response_live [OF fb_invD(1) [OF inv] r(1)] .
  from r(3) obtain val where v: "res_context r = Some val" by (auto simp: response_wf_def)
  let ?u = "?s\<lparr>cmd_context := [if c + 1 = 90 then 65 else c + 1, 0]\<rparr>"
  have u: "deletable fd ?u" "fb_loose ?u = insert ?p L"
    using deletable_context [OF r(4)] r(5) assms(2) by simp_all
  have eq: "command_check_cut pb ?p ?s =
      (if \<not> strcmp_eq val [c, 0] then Some (True, NULL, ?s)
       else if res_status r \<noteq> STATUS_OK then Some (True, NULL, ?u) else Some (False, ?p, ?u))"
    using False get v c r(3)
    by (simp add: command_check_cut_def array_get_def array_put_def response_wf_def Let_def)
  show ?thesis
  proof (cases "strcmp_eq val [c, 0] \<and> res_status r = STATUS_OK")
    case True
    with eq u r(1,2,6) assms(2) show ?thesis by (intro finished [of ?p ?u r]) simp_all
  next
    case False
    with eq u r(1,4,5) assms(2) show ?thesis
      by (cases "strcmp_eq val [c, 0]") (auto intro!: cancelled)
  qed
qed

lemma command_cut_left:
  assumes "steady fd pb ok s"
  obtains (cancelled) s' where "command_cut at pb (reader_turn n pb sz) cmd s = Some (True, NULL, s')"
      "stim_left fd s s'"
  | (finished) p r s' where "command_cut at pb (reader_turn n pb sz) cmd s = Some (False, p, s')"
      "deletable fd s'" "fb_loose s' = insert p (fb_loose s)" "p \<notin> fb_loose s"
      "m_store (fb_heap s') p = Some (OResponse r)" "type_case (res_type r) \<noteq> TYPE_STREAM"
proof (cases "\<exists>k. at = Cut_Write k")
  case True
  then obtain k where at: "at = Cut_Write k" by blast
  from assms obtain c where c: "cmd_context s = [c, 0]" by (auto simp: steady_def dest: fb_invD(6))
  have live: "sock_live fd (msg_wf pb ok) (write_msg_rounds k (fb_transport s) buf len)" for buf len
    using assms by (simp add: steady_def write_msg_rounds_def write_rounds_live)
  have "deletable fd (s\<lparr>cmd_mutex := True, cmd_context := [c + 1, 0], fb_transport := h\<rparr>)"
    if "sock_live fd (msg_wf pb ok) h" for h
    using that assms by (simp add: steady_def sock_live_def rd_sound_def deletable_def fb_inv_context)
  with at c live cancelled show ?thesis
    by (auto simp: command_cut_def command_advance_def array_get_def array_put_def Let_def intro!: cancelled stim_left_same)
next
  case False
  have s: "sock_live fd (msg_wf pb ok) (fb_transport s)" "fb_inv s" "pending_wf pb ok s" "\<not> cmd_mutex s"
    using assms by (simp_all add: steady_def)
  from s(1,2,4) obtain err c h where send: "command_send socket_methods pb cmd s
      = Some (err, s\<lparr>cmd_mutex := True, cmd_context := [c + 1, 0], fb_transport := h\<rparr>)"
    "sock_live fd (msg_wf pb ok) h" by (rule turn_fb.command_send_returns [where cmd = cmd])
  let ?s0 = "s\<lparr>cmd_mutex := True, cmd_context := [c + 1, 0], fb_transport := h\<rparr>"
  have s0: "deletable fd ?s0" "fb_loose ?s0 = fb_loose s"
    using s(2) send(2) by (simp_all add: fb_inv_context sock_live_deletable)
  from s(2,3) send(2) s0(2) obtain s1 where s1: "reader_turn n pb sz ?s0 = Some s1" "deletable fd s1"
      "fb_loose s1 = fb_loose s" "pending_wf pb ok s1"
    using reader_turn_sound [of fd "msg_wf pb ok" ?s0 n pb sz ok]
    by (auto simp: sock_live_def rd_sound_def deletable_def reader_frame_def fb_inv_context)
  obtain ret v now where sem: "sem_timedwait (cmd_sem s1) (fb_now ?s0 + cmd_timeout ?s0) (fb_now s1) = (ret, v, now)"
    by (metis prod_cases3)
  let ?s2 = "s1\<lparr>cmd_sem := v, fb_now := now\<rparr>"
  have v: "v \<le> cmd_sem s1" using sem by (auto simp: sem_timedwait_def split: if_splits)
  have s2: "deletable fd ?s2" "fb_loose ?s2 = fb_loose s" "pending_wf pb ok ?s2"
    using s1(2-4) v by (simp_all add: deletable_def fb_inv_sem)
  have eq: "command_cut at pb (reader_turn n pb sz) cmd s =
      (if err \<noteq> IO4E_OK \<or> at = Cut_Wait then Some (True, NULL, ?s0)
       else if ret = -1 then Some (True, NULL, ?s2)
       else command_check_cut pb (cmd_response ?s2) (?s2\<lparr>cmd_response := NULL\<rparr>))"
    using False send(1) s1(1) sem by (cases at) (simp_all add: command_cut_def Let_def)
  show ?thesis
  proof (cases "err \<noteq> IO4E_OK \<or> at = Cut_Wait \<or> ret = -1")
    case True
    with eq stim_left_same [OF s0] stim_left_same [OF s2(1,2)] show ?thesis by (auto intro: cancelled split: if_splits)
  next
    case False
    from s2 show ?thesis
    proof (cases rule: check_cut_left)
      case (cancelled s')
      then have "stim_left fd s s'" using stim_left_same stim_left_held by blast
      with eq False cancelled(1) that(1) show ?thesis by simp
    next
      case (finished p r s')
      with eq False that(2) show ?thesis by simp
    qed
  qed
qed

lemma set_output_cut_left:
  assumes "steady fd pb ok s"
  shows "\<exists>s'. set_output_cut at pb (reader_turn n pb sz) api c v s = Some s' \<and> stim_left fd s s'"
  using assms
proof (cases rule: command_cut_left [where at = at and n = n and sz = sz and cmd = "\<lparr>cmd_ctx = None,
      cmd_type = COMMAND_FUNCTION_CONTROL (FUNCTION_CONTROL_SET (MAKE_ANYPB
        (IO4E_PACK_PROTOMSG (BINARY_SET_SINGLE c v) (binary_function_control_set api))))\<rparr>"])
  case (cancelled s')
  then show ?thesis by (simp add: set_output_cut_def Let_def)
next
  case (finished p r s')
  let ?s = "s'\<lparr>cmd_mutex := False\<rparr>"
  have inv: "fb_inv s'" using finished(2) by (simp add: deletable_def)
  note get = get_response_live [OF fb_invD(1) [OF inv] finished(5)]
  have st: "deletable fd ?s" "fb_loose ?s = insert p (fb_loose s)"
    using finished(2,3) by (simp_all add: deletable_def)
  show ?thesis
  proof (cases "is_correct_fc_response r ACTION_SET")
    case False
    with finished(1,5) get stim_left_held [OF st] show ?thesis by (simp add: set_output_cut_def Let_def)
  next
    case True
    have held: "held_response p ?s" "fb_inv ?s" using finished(3-6) inv by (simp_all add: held_response_def)
    let ?m = "(fb_heap s')\<lparr>m_store := (m_store (fb_heap s'))(p := None)\<rparr>"
    from held(2,1) obtain s2 where s2: "exit_proto p ?s = Some (IO4E_ERR_PROTOBUF, None, s2)" "fb_inv s2"
      "fb_loose s2 = fb_loose ?s - {p}" by (rule exit_proto_keeps) blast
    have fr: "response__free_unpacked p (fb_heap ?s) = Some ?m"
      using free_response [OF fb_invD(1) [OF inv] finished(5,6)] by simp
    with s2(1) have eq: "s2 = ?s\<lparr>fb_heap := ?m\<rparr>" by (simp add: exit_proto_def)
    have "deletable fd s2" using s2(2) finished(2) by (simp add: eq deletable_def)
    moreover have "fb_loose s2 = fb_loose s" using s2(3) st(2) finished(4) by simp
    ultimately have "stim_left fd s s2" by (rule stim_left_same)
    with finished(1) get fr True eq show ?thesis by (simp add: set_output_cut_def Let_def)
  qed
qed

lemma stim_cancel_left:
  assumes "steady fd pb ok s"
  shows "\<exists>s'. stim_cancel at pb api (reader_turn n pb sz) pc s = Some s' \<and> stim_left fd s s'"
proof -
  have "stim_left fd s s" using assms by (intro stim_left_same steady_deletable) simp_all
  with set_output_cut_left [OF assms] show ?thesis by (cases pc) (simp_all add: stim_cancel_def)
qed

end
