(* ===== verification/Binary_Example.thy ===== *)
theory Binary_Example
  imports Stim_Thread
begin

text \<open>
  The example program \<open>examples/binaryiotypea/main.c\<close>, whose second thread sets an output while \<open>main\<close>
  issues its own commands on the same client. Commands exclude each other through the client's mutex,
  so the thread's calls happen between those of \<open>main\<close>; how many before each call is a parameter, the
  schedule. At the end \<open>main\<close> cancels the thread, wherever it is then: \<open>stim_cancel\<close>.
\<close>

section \<open>\<open>main\<close>\<close>

text \<open>The two loops of \<open>main\<close>: ten times both reads of the inputs, ten messages of the stream.\<close>

fun read_inputs ::
  "nat \<Rightarrow> pb_api \<Rightarrow> binary_api \<Rightarrow> ('st binary_sys \<Rightarrow> 'st binary_sys option) \<Rightarrow> stim \<Rightarrow> 'st binary_sys \<Rightarrow>
   (int \<times> stim \<times> 'st binary_sys) option" where
  "read_inputs 0 pb api env st s = Some (0, st, s)"
| "read_inputs (Suc n) pb api env st s = do {
     (st, s) \<leftarrow> stim_turn pb api env st s;
     (err, state, s) \<leftarrow> io4edge_binaryiotypea_input socket_methods pb env api 0 s;
     if err \<noteq> IO4E_OK then Some (1, st, s)
     else do {
       (st, s) \<leftarrow> stim_turn pb api env st s;
       (err, states, s) \<leftarrow> io4edge_binaryiotypea_all_inputs socket_methods pb env api 0xf s;
       if err \<noteq> IO4E_OK then Some (1, st, s) else read_inputs n pb api env st s } }"

fun read_binary_stream ::
  "nat \<Rightarrow> pb_api \<Rightarrow> nat \<Rightarrow> (bytes \<Rightarrow> 'st option) \<Rightarrow> binary_api \<Rightarrow> ('st binary_sys \<Rightarrow> 'st binary_sys option) \<Rightarrow>
   stim \<Rightarrow> 'st binary_sys \<Rightarrow> (int \<times> stim \<times> 'st binary_sys) option" where
  "read_binary_stream 0 pb sz u api env st s = Some (0, st, s)"
| "read_binary_stream (Suc n) pb sz u api env st s = do {
     (st, s) \<leftarrow> stim_turn pb api env st s;
     (ok, s) \<leftarrow> read_sample sz (unpack_as FS_STREAM_DATA u) 2000 (\<lambda>sd x. Some ()) env s;
     if ok then read_binary_stream n pb sz u api env st s else Some (1, st, s) }"

definition binary_stream_attr :: stream_control_start where
  "binary_stream_attr = \<lparr>functionspecificstreamcontrolstart = None, bucketsamples = 10,
     keepaliveinterval = 1000, bufferedsamples = 20, low_latency_mode = True\<rparr>"

text \<open>From the start of the second thread to the join with it; \<open>at\<close> is where it is cancelled.\<close>

definition binary_threads ::
  "pb_api \<Rightarrow> nat \<Rightarrow> (bytes \<Rightarrow> 'st option) \<Rightarrow> binary_api \<Rightarrow> ('st binary_sys \<Rightarrow> 'st binary_sys option) \<Rightarrow>
   nat list \<Rightarrow> stim_cut \<Rightarrow> 'st binary_sys \<Rightarrow> (int \<times> 'st binary_sys) option" where
  "binary_threads pb sz u api env sched at s = do {
     (st, s) \<leftarrow> stim_turn pb api env (Stim_Set True, sched) s;
     (err, _, s) \<leftarrow> io4edge_binaryiotypea_start_stream socket_methods pb env api 0xf binary_stream_attr s;
     if err \<noteq> IO4E_OK then Some (1, s)
     else do {
       (ret, st, s) \<leftarrow> read_inputs 10 pb api env st s;
       if ret \<noteq> 0 then Some (ret, s)
       else do {
         (ret, st, s) \<leftarrow> read_binary_stream 10 pb sz u api env st s;
         if ret \<noteq> 0 then Some (ret, s)
         else do {
           s \<leftarrow> stim_cancel at pb api env (fst st) s;
           Some (0, s) } } } }"

definition binary_session ::
  "pb_api \<Rightarrow> nat \<Rightarrow> (bytes \<Rightarrow> 'st option) \<Rightarrow> binary_api \<Rightarrow> ('st binary_sys \<Rightarrow> 'st binary_sys option) \<Rightarrow>
   nat list \<Rightarrow> stim_cut \<Rightarrow> 'st binary_sys \<Rightarrow> (int \<times> 'st binary_sys) option" where
  "binary_session pb sz u api env sched at s = do {
     (err, s) \<leftarrow> io4edge_binaryiotypea_upload_configuration socket_methods pb env api
        \<lparr>outputwatchdogmask = 0x1, outputwatchdogtimeout = 1000\<rparr> s;
     if err \<noteq> IO4E_OK then Some (1, s)
     else do {
       (err, dl_config, s) \<leftarrow> io4edge_binaryiotypea_download_configuration socket_methods pb env api s;
       if err \<noteq> IO4E_OK then Some (1, s)
       else do {
         p \<leftarrow> dl_config;
         _ \<leftarrow> get_fs p (fb_heap s);
         m \<leftarrow> free p (fb_heap s);
         (err, s) \<leftarrow> io4edge_binaryiotypea_set_output socket_methods pb env api 1 True (s\<lparr>fb_heap := m\<rparr>);
         if err \<noteq> IO4E_OK then Some (1, s)
         else do {
           (err, s) \<leftarrow> io4edge_binaryiotypea_set_all_outputs socket_methods pb env api 0x3 0x3 s;
           if err \<noteq> IO4E_OK then Some (1, s) else binary_threads pb sz u api env sched at s } } } }"

definition binary_main ::
  "pb_api \<Rightarrow> nat \<Rightarrow> (bytes \<Rightarrow> 'st option) \<Rightarrow> binary_api \<Rightarrow> ('st binary_sys \<Rightarrow> 'st binary_sys option) \<Rightarrow>
   nat list \<Rightarrow> stim_cut \<Rightarrow> nat \<Rightarrow> bool \<Rightarrow> net \<Rightarrow> blocks \<Rightarrow> (binary_configuration, unit, 'st) binary_msg heap \<Rightarrow> int \<Rightarrow>
   (int \<times> net \<times> blocks \<times> (binary_configuration, unit, 'st) binary_msg heap) option" where
  "binary_main pb sz u api env sched at =
     main_program ''192.168.24.154'' 10002 pb sz (binary_session pb sz u api env sched at)"


section \<open>Every call keeps the client\<close>

lemma set_all_outputs_steady:
  "steady fd pb ok s \<Longrightarrow> \<exists>err s'. io4edge_binaryiotypea_set_all_outputs socket_methods pb (reader_turn n pb sz) api v msk s
      = Some (err, s') \<and> fb_loose s' = fb_loose s \<and> steady fd pb ok s'"
  unfolding io4edge_binaryiotypea_set_all_outputs_def Let_def by (rule set_call_steady)

lemma input_steady:
  "steady fd pb ok s \<Longrightarrow> \<exists>err v s'. io4edge_binaryiotypea_input socket_methods pb (reader_turn n pb sz) api c s
      = Some (err, v, s') \<and> fb_loose s' = fb_loose s \<and> steady fd pb ok s'"
  unfolding input_shape by (rule read_call_steady)

lemma all_inputs_steady:
  "steady fd pb ok s \<Longrightarrow> \<exists>err v s'. io4edge_binaryiotypea_all_inputs socket_methods pb (reader_turn n pb sz) api msk s
      = Some (err, v, s') \<and> fb_loose s' = fb_loose s \<and> steady fd pb ok s'"
  unfolding all_inputs_shape by (rule read_call_steady)

lemma read_inputs_steady:
  "steady fd pb ok s \<Longrightarrow> \<exists>ret st' s'. read_inputs k pb api (reader_turn n pb sz) st s = Some (ret, st', s') \<and>
     fb_loose s' = fb_loose s \<and> steady fd pb ok s' \<and> (ret = 0 \<or> ret = 1)"
proof (induction k arbitrary: st s)
  case (Suc k)
  let ?env = "reader_turn n pb sz"
  from stim_turn_steady [OF Suc.prems] obtain st1 s1 where s1: "stim_turn pb api ?env st s = Some (st1, s1)"
    "fb_loose s1 = fb_loose s" "steady fd pb ok s1" by blast
  from input_steady [OF s1(3)] obtain err2 v2 s2 where s2:
    "io4edge_binaryiotypea_input socket_methods pb ?env api 0 s1 = Some (err2, v2, s2)"
    "fb_loose s2 = fb_loose s1" "steady fd pb ok s2" by blast
  from stim_turn_steady [OF s2(3)] obtain st3 s3 where s3: "stim_turn pb api ?env st1 s2 = Some (st3, s3)"
    "fb_loose s3 = fb_loose s2" "steady fd pb ok s3" by blast
  from all_inputs_steady [OF s3(3)] obtain err4 v4 s4 where s4:
    "io4edge_binaryiotypea_all_inputs socket_methods pb ?env api 0xf s3 = Some (err4, v4, s4)"
    "fb_loose s4 = fb_loose s3" "steady fd pb ok s4" by blast
  from Suc.IH [OF s4(3), of st3] s1 s2 s3 s4 show ?case
    by (cases "err2 = IO4E_OK"; cases "err4 = IO4E_OK") auto
qed simp

lemma read_binary_stream_done:
  "steady fd pb ok s \<Longrightarrow> \<exists>ret st' s'. read_binary_stream k pb sz' u api (reader_turn n pb sz) st s = Some (ret, st', s') \<and>
     program_done fd pb ok s ret s'"
proof (induction k arbitrary: st s)
  case 0
  then show ?case by (simp add: program_done_def)
next
  case (Suc k)
  let ?env = "reader_turn n pb sz" and ?u = "unpack_as FS_STREAM_DATA u"
  from stim_turn_steady [OF Suc.prems] obtain st1 s1 where s1: "stim_turn pb api ?env st s = Some (st1, s1)"
    "fb_loose s1 = fb_loose s" "steady fd pb ok s1" by blast
  from reader_turn_steady [OF s1(3)] obtain s2 where s2: "?env s1 = Some s2" "steady fd pb ok s2"
    "fb_loose s2 = fb_loose s1" by blast
  have "shows_all ok ?u (\<lambda>sd x. Some ())" by (simp add: shows_all_def)
  from read_sample_done [where env = ?env and display = "\<lambda>sd x. Some ()" and u = ?u, OF s2 this] obtain more s3 where s3:
    "read_sample sz' ?u 2000 (\<lambda>sd x. Some ()) ?env s1 = Some (more, s3)" "steady fd pb ok s3"
    "if more then fb_loose s3 = fb_loose s1 else lost_one s1 s3" by blast
  show ?case
  proof (cases more)
    case True
    with s3(3) s1(2) have eq: "fb_loose s3 = fb_loose s" by simp
    from Suc.IH [OF s3(2), of st1] obtain ret st' s' where
      "read_binary_stream k pb sz' u api ?env st1 s3 = Some (ret, st', s')" "program_done fd pb ok s3 ret s'" by blast
    with s1(1) s3(1) True program_done_trans [OF eq] show ?thesis by simp
  next
    case False
    with s1 s3 have "program_done fd pb ok s 1 s3" by (simp add: program_done_def lost_one_def)
    with s1(1) s3(1) False show ?thesis by simp
  qed
qed


section \<open>The program\<close>

lemma program_left_trans:
  "fb_loose s1 = fb_loose s \<Longrightarrow> program_left fd s1 ret s' \<Longrightarrow> program_left fd s ret s'"
  by (simp add: program_left_def)

lemma program_left_1: "steady fd pb ok s' \<Longrightarrow> fb_loose s' = fb_loose s \<Longrightarrow> program_left fd s 1 s'"
  by (rule program_done_left [OF program_done_1])

lemma binary_threads_done:
  assumes "steady fd pb ok s"
  shows "\<exists>ret s'. binary_threads pb sz' u api (reader_turn n pb sz) sched at s = Some (ret, s') \<and>
    program_left fd s ret s'"
proof -
  let ?env = "reader_turn n pb sz"
  from stim_turn_steady [OF assms] obtain st1 s1 where s1:
    "stim_turn pb api ?env (Stim_Set True, sched) s = Some (st1, s1)" "fb_loose s1 = fb_loose s" "steady fd pb ok s1" by blast
  from start_loose [OF s1(3)] obtain err2 cfg s2 where s2:
    "io4edge_binaryiotypea_start_stream socket_methods pb ?env api 0xf binary_stream_attr s1 = Some (err2, cfg, s2)"
    "fb_loose s2 = fb_loose s1" "steady fd pb ok s2"
    unfolding io4edge_binaryiotypea_start_stream_def Let_def by blast
  from read_inputs_steady [OF s2(3)] obtain ret3 st3 s3 where s3:
    "read_inputs 10 pb api ?env st1 s2 = Some (ret3, st3, s3)" "fb_loose s3 = fb_loose s2" "steady fd pb ok s3"
    "ret3 = 0 \<or> ret3 = 1" by blast
  from read_binary_stream_done [OF s3(3)] obtain ret4 st4 s4 where s4:
    "read_binary_stream 10 pb sz' u api ?env st3 s3 = Some (ret4, st4, s4)" "program_done fd pb ok s3 ret4 s4" by blast
  from s4(2) have st: "steady fd pb ok s4" by (simp add: program_done_def)
  from stim_cancel_left [OF st] obtain s5 where s5: "stim_cancel at pb api ?env (fst st4) s4 = Some s5"
    "stim_left fd s4 s5" by blast
  have eq: "fb_loose s2 = fb_loose s" "fb_loose s3 = fb_loose s" using s1(2) s2(2) s3(2) by simp_all
  have fin: "program_left fd s 0 s5" if "ret4 = 0"
  proof -
    from that s4(2) eq(2) have "fb_loose s4 = fb_loose s" by (simp add: program_done_def)
    from program_left_trans [OF this s5(2) [unfolded stim_left_def]] show ?thesis .
  qed
  show ?thesis
    using s1(1) s2(1) s3(1,4) s4(1) s5(1) fin program_left_1 [OF s2(3) eq(1)] program_left_1 [OF s3(3) eq(2)]
      program_left_trans [OF eq(2) program_done_left [OF s4(2)]]
    by (cases "err2 = IO4E_OK"; cases "ret4 = 0") (auto simp: binary_threads_def)
qed

text \<open>Setting the outputs, then the threads.\<close>

lemma binary_outputs_done:
  assumes "steady fd pb ok s2" "fb_loose s2 = fb_loose s"
  shows "\<exists>ret s'. (do {
         (err, s) \<leftarrow> io4edge_binaryiotypea_set_output socket_methods pb (reader_turn n pb sz) api 1 True s2;
         if err \<noteq> IO4E_OK then Some (1, s)
         else do {
           (err, s) \<leftarrow> io4edge_binaryiotypea_set_all_outputs socket_methods pb (reader_turn n pb sz) api 0x3 0x3 s;
           if err \<noteq> IO4E_OK then Some (1, s) else binary_threads pb sz' u api (reader_turn n pb sz) sched at s } })
      = Some (ret, s') \<and> program_left fd s ret s'"
proof -
  let ?env = "reader_turn n pb sz"
  from set_output_steady [OF assms(1)] obtain err3 s3 where s3:
    "io4edge_binaryiotypea_set_output socket_methods pb ?env api 1 True s2 = Some (err3, s3)"
    "fb_loose s3 = fb_loose s2" "steady fd pb ok s3" by blast
  from set_all_outputs_steady [OF s3(3)] obtain err4 s4 where s4:
    "io4edge_binaryiotypea_set_all_outputs socket_methods pb ?env api 0x3 0x3 s3 = Some (err4, s4)"
    "fb_loose s4 = fb_loose s3" "steady fd pb ok s4" by blast
  from binary_threads_done [OF s4(3)] obtain ret s5 where s5:
    "binary_threads pb sz' u api ?env sched at s4 = Some (ret, s5)" "program_left fd s4 ret s5" by blast
  have eq: "fb_loose s3 = fb_loose s" "fb_loose s4 = fb_loose s" using assms(2) s3(2) s4(2) by simp_all
  show ?thesis
    using s3(1) s4(1) s5(1) program_left_1 [OF s3(3) eq(1)] program_left_1 [OF s4(3) eq(2)]
      program_left_trans [OF eq(2) s5(2)]
    by (cases "err3 = IO4E_OK"; cases "err4 = IO4E_OK") auto
qed

interpretation binary: client_body pb "binary_session pb sz u api (reader_turn n pb sz) sched at" True
    "\<lambda>_. True" for pb sz u api n sched at
proof unfold_locales
  fix fd and s :: "'a binary_sys"
  assume "steady fd pb (\<lambda>_. True) s"
  then show "\<exists>ret s'. binary_session pb sz u api (reader_turn n pb sz) sched at s = Some (ret, s') \<and>
      program_left fd s ret s'"
    unfolding binary_session_def io4edge_binaryiotypea_upload_configuration_def
      io4edge_binaryiotypea_download_configuration_def Let_def
    by (rule configure_done [where P = "program_left fd s"]) (rule program_left_1 binary_outputs_done, assumption+)+
qed

definition binary_demo_api :: binary_api where
  "binary_demo_api = \<lparr>binary_configuration_set = \<lparr>msg_pack = \<lambda>_. [], msg_name = ''ConfigurationSet''\<rparr>,
     binary_configuration_get = \<lparr>msg_pack = \<lambda>_. [], msg_name = ''ConfigurationGet''\<rparr>,
     binary_configuration_describe = \<lparr>msg_pack = \<lambda>_. [], msg_name = ''ConfigurationDescribe''\<rparr>,
     binary_function_control_set = \<lparr>msg_pack = \<lambda>_. [7], msg_name = ''FunctionControlSet''\<rparr>,
     binary_function_control_get = \<lparr>msg_pack = \<lambda>_. [8], msg_name = ''FunctionControlGet''\<rparr>,
     binary_stream_control_start = \<lparr>msg_pack = \<lambda>_. [], msg_name = ''StreamControlStart''\<rparr>,
     binary_unpack_configuration = \<lambda>_. None, binary_unpack_description = \<lambda>_. Some (),
     binary_unpack_get_response = \<lambda>bs. Some (BINARY_RESPONSE_SINGLE (bs = [66]))\<rparr>"

end
