(* ===== verification/Example_Properties.thy ===== *)
theory Example_Properties
  imports Examples Binary_Example
begin

text \<open>
  What holds of the example programs as a whole: their resources (\<open>main\<close> of the MVB, analog, CAN
  and binary examples, the loop of \<open>reconnect.c\<close>), what \<open>dumpstream.c\<close> leaks, and what \<open>send.c\<close> sends.
\<close>

section \<open>The leak of \<open>dumpstream.c\<close>\<close>

text \<open>
  What the program relies on in a sample: a data sample has a frame, of at most 19 bytes; and in a message of
  the stream, if it has data and they unpack.
\<close>

definition sample_fits :: "can_sample \<Rightarrow> bool" where
  "sample_fits x \<longleftrightarrow> (cs_isdataframe x \<longrightarrow> (\<exists>frame. cs_frame x = Some frame \<and> length (cf_data frame) \<le> 19))"

definition samples_ok :: "(bytes \<Rightarrow> can_sample list option) \<Rightarrow> stream_data \<Rightarrow> bool" where
  "samples_ok u d =
     (case functionspecificstreamdata d of
        None \<Rightarrow> True
      | Some any \<Rightarrow> (case u (any_value any) of None \<Rightarrow> True | Some xs \<Rightarrow> \<forall>x \<in> set xs. sample_fits x))"

lemma print_samples_returns:
  "names_fit errors \<Longrightarrow> names_fit states \<Longrightarrow> \<forall>x \<in> set xs. sample_fits x \<Longrightarrow>
     print_samples errors states xs = Some ()"
  by (induction xs) (simp_all add: sample_content(2) sample_fits_def names_fit_def)

text \<open>What the loop has lost after some messages: two objects each, and one more when reading failed.\<close>

definition leaked :: "ptr set \<Rightarrow> ptr set \<Rightarrow> nat \<Rightarrow> bool" where
  "leaked old new k \<longleftrightarrow> (\<exists>lost. new = old \<union> lost \<and> old \<inter> lost = {} \<and> finite lost \<and> card lost = k)"

lemma leaked_0: "leaked old old 0"
  unfolding leaked_def by (rule exI [of _ "{}"]) simp

lemma leaked_2:
  "sd \<notin> old \<Longrightarrow> fs \<notin> old \<Longrightarrow> sd \<noteq> fs \<Longrightarrow> leaked (insert fs (insert sd old)) new k \<Longrightarrow> leaked old new (k + 2)"
  unfolding leaked_def
proof (elim exE conjE)
  fix lost
  assume a: "sd \<notin> old" "fs \<notin> old" "sd \<noteq> fs" "new = insert fs (insert sd old) \<union> lost"
    "insert fs (insert sd old) \<inter> lost = {}" "finite lost" "card lost = k"
  then show "\<exists>lost. new = old \<union> lost \<and> old \<inter> lost = {} \<and> finite lost \<and> card lost = k + 2"
    by (intro exI [of _ "insert fs (insert sd lost)"]) auto
qed

lemma leaked_fail:
  assumes "new = old \<union> lost" "finite lost" "card lost \<le> 1"
  shows "leaked old new 0 \<or> leaked old new 1"
proof -
  have "card (lost - old) \<le> 1" using assms(2,3) by (meson Diff_subset card_mono le_trans)
  moreover have "new = old \<union> (lost - old)" "old \<inter> (lost - old) = {}" "finite (lost - old)"
    using assms(1,2) by auto
  ultimately show ?thesis unfolding leaked_def by (metis One_nat_def le_Suc_eq le_zero_eq)
qed

lemma dump_samples_done:
  assumes fit: "names_fit errors" "names_fit states"
  shows "steady fd pb (samples_ok u) s \<Longrightarrow>
    \<exists>ret s'. dump_samples n sz u errors states (reader_turn k pb sz) s = Some (ret, s') \<and> steady fd pb (samples_ok u) s' \<and>
      (ret = None \<and> leaked (fb_loose s) (fb_loose s') (2 * n) \<or>
       ret = Some 1 \<and> (\<exists>i < n. leaked (fb_loose s) (fb_loose s') (2 * i) \<or> leaked (fb_loose s) (fb_loose s') (2 * i + 1)))"
proof (induction n arbitrary: s)
  case 0
  then show ?case by (simp add: leaked_0)
next
  case (Suc n)
  from reader_turn_steady [OF Suc.prems] obtain s1 where s1: "reader_turn k pb sz s = Some s1"
    "steady fd pb (samples_ok u) s1" "fb_loose s1 = fb_loose s" by blast
  from s1(2) show ?case
  proof (cases rule: read_stream_steady [where sz = sz and u = "unpack_as FS_STREAM_DATA u" and t = 2])
    case (got sd fs s2 d x any)
    from got(11) obtain xs where xs: "u (any_value any) = Some xs" "x = FS_STREAM_DATA xs" by (auto simp: unpack_as_def)
    have live: "get_stream_data sd (fb_heap s2) = Some d" "get_fs fs (fb_heap s2) = Some x"
      using got(2,7,8) by (simp_all add: get_stream_data_def get_fs_def steady_def fb_invD(1))
    have pr: "print_samples errors states xs = Some ()"
      using fit xs(1) got(9,10) by (intro print_samples_returns) (auto simp: samples_ok_def)
    note leak = leaked_2 [of sd "fb_loose s" fs, folded got(6) [unfolded s1(3)]]
    note leak' = leak [OF got(4,5,3) [unfolded s1(3)]]
    from Suc.IH [OF got(2)] obtain ret s' where r:
      "dump_samples n sz u errors states (reader_turn k pb sz) s2 = Some (ret, s')" "steady fd pb (samples_ok u) s'"
      "ret = None \<and> leaked (fb_loose s2) (fb_loose s') (2 * n) \<or> ret = Some 1 \<and>
        (\<exists>i < n. leaked (fb_loose s2) (fb_loose s') (2 * i) \<or> leaked (fb_loose s2) (fb_loose s') (2 * i + 1))" by blast
    have "ret = None \<and> leaked (fb_loose s) (fb_loose s') (2 * Suc n) \<or> ret = Some 1 \<and>
        (\<exists>i < Suc n. leaked (fb_loose s) (fb_loose s') (2 * i) \<or> leaked (fb_loose s) (fb_loose s') (2 * i + 1))"
      using r(3)
    proof (elim disjE conjE exE)
      assume "ret = None" "leaked (fb_loose s2) (fb_loose s') (2 * n)"
      with leak' show ?thesis by fastforce
    next
      fix i
      assume "ret = Some 1" "i < n" "leaked (fb_loose s2) (fb_loose s') (2 * i)"
      then show ?thesis using leak' [of "fb_loose s'" "2 * i"] by (auto intro!: exI [of _ "Suc i"])
    next
      fix i
      assume "ret = Some 1" "i < n" "leaked (fb_loose s2) (fb_loose s') (2 * i + 1)"
      then show ?thesis using leak' [of "fb_loose s'" "2 * i + 1"] by (auto intro!: exI [of _ "Suc i"])
    qed
    with s1(1) got(1) live pr xs(2) r(1,2) show ?thesis by simp
  next
    case (fail err s2)
    from fail(4) obtain lost where "fb_loose s2 = fb_loose s1 \<union> lost" "finite lost" "card lost \<le> 1" by blast
    from leaked_fail [OF this]
    have "leaked (fb_loose s) (fb_loose s2) (2 * 0) \<or> leaked (fb_loose s) (fb_loose s2) (2 * 0 + 1)"
      using s1(3) by simp
    with fail(1-3) s1(1) show ?thesis by auto
  qed
qed


definition demo_dump :: "(sock, (can_configuration, can_sample list) can_msg) fbsys" where
  "demo_dump = (demo_fs_client [])\<lparr>
     fb_streamq := \<lparr>q_msg = [1, NULL], q_capacity = 2, q_write_idx = 1, q_read_idx = 0,
       q_nentries = 1, q_write_sem = 1, q_read_sem = 1, q_locked = False\<rparr>,
     fb_heap := \<lparr>m_store = [1 \<mapsto> OStreamData \<lparr>functionspecificstreamdata = Some \<lparr>type_url = [], any_value = []\<rparr>,
       deliverytimestampus = 0, sequence_no = 0\<rparr>], m_next = 2, m_fail = []\<rparr>\<rparr>"

lemma demo_dump_steady: "steady 3 echo_pb (samples_ok (\<lambda>_. Some [])) demo_dump" "fb_loose demo_dump = {}"
proof -
  have "samples_ok (\<lambda>_. Some []) d" for d by (simp add: samples_ok_def split: option.split)
  then show "steady 3 echo_pb (samples_ok (\<lambda>_. Some [])) demo_dump"
    using demo_sock_live [OF frames_ok_Nil]
    by (simp add: steady_def demo_dump_def demo_fs_client_def fb_inv_def pending_wf_def SEM_VALUE_MAX_def
        mem_wf_def sq_inv_def sq_list_def NULL_def)
  show "fb_loose demo_dump = {}"
    by (simp add: demo_dump_def demo_fs_client_def fb_loose_def fb_owned_def sq_list_def NULL_def)
qed

lemma demo_dump_runs:
  "map_option fst (dump_samples 1 8 (\<lambda>_. Some []) [] [] (reader_turn 0 echo_pb 8) demo_dump) = Some None"
proof -
  have q: "sq_inv (fb_streamq demo_dump)" "sq_list (fb_streamq demo_dump) = [1]"
    by (simp_all add: demo_dump_def sq_inv_def sq_list_def SEM_VALUE_MAX_def)
  obtain q' where pop: "io4e_streamq_pop 8 (fb_now demo_dump) (fb_streamq demo_dump) (word_of_int 2)
      = Some (IO4E_OK, Some 1, q', fb_now demo_dump)"
    by (rule pop_ok [OF q])
  have d: "m_store (fb_heap demo_dump) 1 = Some (OStreamData \<lparr>functionspecificstreamdata = Some \<lparr>type_url = [], any_value = []\<rparr>,
      deliverytimestampus = 0, sequence_no = 0\<rparr>)" "m_next (fb_heap demo_dump) = 2" "m_fail (fb_heap demo_dump) = []"
    by (simp_all add: demo_dump_def)
  show ?thesis
    using pop d by (simp add: io4edge_functionblock_read_stream_def fs_unpack_def unpack_as_def get_stream_data_def
        get_fs_def deref_def malloc_def NULL_def Let_def)
qed



section \<open>Properties of the programs\<close>

text \<open>Example generated functions and memories.\<close>

definition mvb_demo_api :: "mvb_filter_mask list mvbsniffer_api" where
  "mvb_demo_api = \<lparr>mvb_function_control_set = \<lparr>msg_pack = \<lambda>x. [7], msg_name = ''FunctionControlSet''\<rparr>,
     mvb_stream_control_start = \<lparr>msg_pack = \<lambda>fs. [of_nat (length fs)], msg_name = ''StreamControlStart''\<rparr>\<rparr>"

definition can_demo_api :: "(can_configuration, can_configuration, can_frame, can_stream_config) canl2_api" where
  "can_demo_api = \<lparr>can_configuration_set = \<lparr>msg_pack = \<lambda>_. [], msg_name = ''ConfigurationSet''\<rparr>,
     can_configuration_get = \<lparr>msg_pack = \<lambda>_. [], msg_name = ''ConfigurationGet''\<rparr>,
     can_function_control_set = \<lparr>msg_pack = \<lambda>fs. concat (map cf_data fs), msg_name = ''FunctionControlSet''\<rparr>,
     can_function_control_get = \<lparr>msg_pack = \<lambda>_. [], msg_name = ''FunctionControlGet''\<rparr>,
     can_stream_control_start = \<lparr>msg_pack = \<lambda>_. [], msg_name = ''StreamControlStart''\<rparr>,
     can_unpack_configuration = \<lambda>_. None,
     can_unpack_get_response = \<lambda>bs. None\<rparr>"

definition mvb_memory :: "mvb_telegram list heap" where
  "mvb_memory = \<lparr>m_store = Map.empty, m_next = 1, m_fail = []\<rparr>"

definition can_memory :: "(can_configuration, can_sample list) can_msg heap" where
  "can_memory = \<lparr>m_store = Map.empty, m_next = 1, m_fail = []\<rparr>"

definition analog_memory :: "(analog_configuration, unit) analog_msg heap" where
  "analog_memory = \<lparr>m_store = Map.empty, m_next = 1, m_fail = []\<rparr>"

definition demo_blocks :: blocks where
  "demo_blocks = \<lparr>b_fail = [], b_live = 0\<rparr>"

lemma demo_memory_wf: "mem_wf mvb_memory" "mem_wf can_memory" "mem_wf analog_memory"
  by (simp_all add: mvb_memory_def can_memory_def analog_memory_def mem_wf_def)


definition analog_demo_api :: "(analog_configuration, analog_configuration) analogintypea_api" where
  "analog_demo_api = \<lparr>analog_configuration_set = \<lparr>msg_pack = \<lambda>_. [], msg_name = ''ConfigurationSet''\<rparr>,
     analog_configuration_get = \<lparr>msg_pack = \<lambda>_. [], msg_name = ''ConfigurationGet''\<rparr>,
     analog_function_control_get = \<lparr>msg_pack = \<lambda>_. [], msg_name = ''FunctionControlGet''\<rparr>,
     analog_stream_control_start = \<lparr>msg_pack = \<lambda>_. [], msg_name = ''StreamControlStart''\<rparr>,
     analog_unpack_configuration = \<lambda>_. Some \<lparr>sample_rate = 1000\<rparr>, analog_unpack_get_response = \<lambda>_. None\<rparr>"

definition binary_memory :: "(binary_configuration, unit, unit) binary_msg heap" where
  "binary_memory = \<lparr>m_store = Map.empty, m_next = 1, m_fail = []\<rparr>"





section \<open>Sending frames, message by message\<close>

text \<open>
  What \<open>send.c\<close> should do on a list of buckets, each with the device's response: send them in order,
  each under the next context, up to the first that is not confirmed.
\<close>

fun send_spec ::
  "pb_api \<Rightarrow> (can_configuration, can_configuration, can_frame, 'cfg) canl2_api \<Rightarrow> byte \<Rightarrow>
   (nat \<times> stream_data response_pb) list \<Rightarrow> int \<times> bytes" where
  "send_spec pb api c [] = (0, [])"
| "send_spec pb api c ((bucket, w) # bws) =
     (let ctx = [c + 1, 0];
          out = frame (packed_command pb (set_command (can_function_control_set api) (bucket_frames bucket)) ctx)
      in if set_outcome ctx w \<noteq> IO4E_OK then (1, out)
         else let (ret, outs) = send_spec pb api (context_after ctx w ! 0) bws in (ret, out @ outs))"

lemma take_bucket: "take 5 (bucket_frames b) = bucket_frames b" "5 \<le> length (bucket_frames b)"
  by (simp_all add: bucket_frames_def)

lemma send_buckets_spec:
  assumes fit: "\<And>ctx bucket. FSTREAM_HEADER_SIZE
      + length (packed_command pb (set_command (can_function_control_set api) (bucket_frames bucket)) [ctx, 0]) < 2 ^ 32"
    and b: "b_fail b = []"
  shows "client_idle s \<Longrightarrow> s_in (fb_transport s) = concat (map frame datas) @ rest \<Longrightarrow>
    list_all2 (answer pb) datas (map snd bws) \<Longrightarrow> cmd_context s = [c, 0] \<Longrightarrow>
    \<exists>s'. send_buckets (map fst bws) pb api (read_thread 1 socket_methods pb sz) b s
        = Some (fst (send_spec pb api c bws), b, s') \<and>
      s_out (fb_transport s') = s_out (fb_transport s) @ snd (send_spec pb api c bws) \<and>
      client_idle s' \<and> fb_loose s' = fb_loose s \<and> s_fd (fb_transport s') = s_fd (fb_transport s) \<and>
      (cmd_response s = NULL \<longrightarrow> cmd_response s' = NULL)"
proof (induction bws arbitrary: s c datas)
  case Nil
  then show ?case by simp
next
  case (Cons bw bws)
  obtain b w where bw: "bw = (b, w)" by (cases bw)
  from Cons.prems(3) bw obtain d ds where d: "datas = d # ds" "answer pb d w"
    "list_all2 (answer pb) ds (map snd bws)" by (auto simp: list_all2_Cons2)
  have s_in: "s_in (fb_transport s) = frame d @ (concat (map frame ds) @ rest)" using Cons.prems(2) d(1) by simp
  let ?cls = "can_function_control_set api"
  from set_call_exchange [OF Cons.prems(1) s_in d(2) Cons.prems(4) fit, of sz] obtain s1 where s1:
    "io4edge_canl2_send_frames socket_methods pb (read_thread 1 socket_methods pb sz) api (bucket_frames b) 5 s
      = Some (set_outcome [c + 1, 0] w, s1)"
    "exchanged pb (set_command ?cls (bucket_frames b)) c w (concat (map frame ds) @ rest) s s1"
    unfolding send_frames_shape [OF take_bucket(2)] take_bucket(1) by blast
  have "cmd_context s1 = [context_after [c + 1, 0] w ! 0, 0]"
    using s1(2) context_after_shape [of "c + 1" w] by (simp add: exchanged_def)
  from Cons.IH [OF _ _ d(3) this] s1 bw show ?case
    by (cases "set_outcome [c + 1, 0] w = IO4E_OK")
       (auto simp: bucket_round [OF b] exchanged_def Let_def split_def simp del: One_nat_def send_buckets.simps(2))
qed

text \<open>C16 \<open>send.c\<close> implements its specification, from the frames of a bucket to the bytes on the wire: for any
  responses of the device the ten buckets are sent in order, each under the next context id, up to
  the first response that does not confirm; the program's result is 1 exactly in that case, the frames it
  allocated are freed on both paths and nothing is left in the heap. It does not look at what \<open>malloc\<close>
  returns: with no memory for the first frame it writes through a null pointer.\<close>

theorem can_send_refines_spec:
  assumes "client_idle s" "s_in (fb_transport s) = concat (map frame datas) @ rest"
    and "list_all2 (answer pb) datas (map snd bws)" "map fst bws = [0..<10]" "cmd_context s = [c, 0]"
    and "\<And>ctx bucket. FSTREAM_HEADER_SIZE
      + length (packed_command pb (set_command (can_function_control_set api) (bucket_frames bucket)) [ctx, 0]) < 2 ^ 32"
    and "b_fail b = []" "b_fail b' = True # fails"
  shows "(\<exists>s'. can_send_session pb api (read_thread 1 socket_methods pb sz) b s = Some (fst (send_spec pb api c bws), b, s') \<and>
      s_out (fb_transport s') = s_out (fb_transport s) @ snd (send_spec pb api c bws) \<and>
      client_idle s' \<and> fb_loose s' = fb_loose s) \<and>
    can_send_session pb api (read_thread 1 socket_methods pb sz) b' s = None"
proof
  show "\<exists>s'. can_send_session pb api (read_thread 1 socket_methods pb sz) b s = Some (fst (send_spec pb api c bws), b, s') \<and>
      s_out (fb_transport s') = s_out (fb_transport s) @ snd (send_spec pb api c bws) \<and>
      client_idle s' \<and> fb_loose s' = fb_loose s"
    unfolding can_send_session_def assms(4) [symmetric]
    using send_buckets_spec [OF assms(6,7) assms(1-3,5)] by blast
  have "[0..<10] = 0 # [1..<10]" "[0..<5] = 0 # [1..<5]" by (simp_all add: upt_conv_Cons)
  with assms(8) show "can_send_session pb api (read_thread 1 socket_methods pb sz) b' s = None"
    by (simp add: can_send_session_def calloc_block_def del: upt_rec_numeral)
qed

text \<open>A client between two calls can be deleted.\<close>

lemma idle_deletable: "client_idle s \<Longrightarrow> deletable (s_fd (fb_transport s)) s"
  by (simp add: deletable_def client_idle_def rd_quiet_errno_wf)

text \<open>A new client on a sound connection.\<close>

lemma client_new_idle:
  assumes "n_calloc_ok n" "n_dns n host = Some (a # as)" "fd_set_ok (n_next_fd n)" "n_peer n a (word_of_int port) = Some h"
    and "wr_reliable h" "rd_quiet h" "s_sel h = []" "mem_wf m" "m_fail m = []" "b_fail b = []"
  obtains c fd n' b' where
    "io4edge_functionblock_client_new_from_host_port host port tmo True n b = Some (IO4E_OK, Some c, n', b')"
    "client_idle (client.extend c (fbsys.fields m now))" "fb_loose (client.extend c (fbsys.fields m now)) = live m"
    "s_in (fb_transport c) = s_in h" "cmd_context c = [65, 0]" "cmd_response c = NULL"
    "s_fd (fb_transport c) = fd" "holds n b fd n' b'"
proof -
  obtain err q b' where q: "io4e_streamq_new CONFIG_STREAMQ_CAPACITY (b\<lparr>b_fail := [], b_live := Suc (b_live b)\<rparr>) = (err, q, b')"
    by (metis prod_cases3)
  then show ?thesis
  proof (cases rule: streamq_new_cases)
    case fail
    with q assms(10) show ?thesis
      by (simp add: io4e_streamq_new_def calloc_block_def CONFIG_STREAMQ_CAPACITY_def err_defs)
  next
    case (ok q')
    let ?c = "\<lparr>fb_transport = h\<lparr>s_fd := n_next_fd n\<rparr>, cmd_context = [65, 0], cmd_timeout = tmo, cmd_mutex = False,
      cmd_response = NULL, cmd_sem = sem_init_value 0, fb_streamq = q'\<rparr>"
    let ?n = "n\<lparr>n_handles := Suc (n_handles n), n_open := n_next_fd n # n_open n\<rparr>"
    have "io4edge_functionblock_client_new_from_host_port host port tmo True n b = Some (IO4E_OK, Some ?c, ?n, b')"
      using assms(1-4,10) q ok
      by (simp add: io4edge_functionblock_client_new_from_host_port_def io4edge_transport_new_def transport_connect_def
          calloc_block_def fd_set_ok_def Let_def err_defs)
    moreover have "client_idle (client.extend ?c (fbsys.fields m now))"
      using assms(3,5-9) ok(4,5)
      by (simp add: client_idle_def fb_inv_def client.defs fbsys.defs sem_init_value_def wr_reliable_def wr_live_def
          rd_quiet_def)
    moreover have "fb_loose (client.extend ?c (fbsys.fields m now)) = live m"
      using ok(5) by (simp add: fb_loose_def fb_owned_def client.defs fbsys.defs)
    moreover have "holds n b (n_next_fd n) ?n b'" using ok by (simp add: holds_def)
    ultimately show ?thesis by (intro that [of ?c ?n b' "n_next_fd n"]) simp_all
  qed
qed


text \<open>The example: a device that confirms each bucket under its context.\<close>

definition demo_confirms :: "(nat \<times> stream_data response_pb) list" where
  "demo_confirms = map (\<lambda>i. (i, confirm [66 + 2 * of_nat i])) [0..<10]"

definition demo_send :: "(sock, (can_configuration, can_sample list) can_msg) fbsys" where
  "demo_send = demo_fs_client (concat (map frame (map (\<lambda>i. [66 + 2 * of_nat i]) [0..<10])))"

lemma demo_confirms_answer: "list_all2 (answer confirm_pb) (map (\<lambda>i. [66 + 2 * of_nat i]) [0..<10]) (map snd demo_confirms)"
proof -
  have "answer confirm_pb [b] (confirm [b])" for b
    by (simp add: answer_def confirm_pb_def confirm_def response_wf_def)
  then show ?thesis by (simp add: demo_confirms_def list.rel_map list_all2_same comp_def del: upt.simps)
qed

lemma demo_confirms_spec: "fst (send_spec confirm_pb api 65 demo_confirms) = 0"
  by (simp add: demo_confirms_def upt_rec confirm_def set_outcome_def command_verdict_def context_after_def
      context_next_def Let_def split_def strcmp_eq_def)

theorem can_send_refines_spec_witness:
  "(\<exists>s'. can_send_session confirm_pb can_demo_api (read_thread 1 socket_methods confirm_pb 8) demo_blocks demo_send
      = Some (0, demo_blocks, s') \<and> client_idle s' \<and> fb_loose s' = {}) \<and>
   can_send_session confirm_pb can_demo_api (read_thread 1 socket_methods confirm_pb 8)
      (demo_blocks\<lparr>b_fail := [True]\<rparr>) demo_send = None"
proof -
  have "(\<exists>s'. can_send_session confirm_pb can_demo_api (read_thread 1 socket_methods confirm_pb 8) demo_blocks demo_send
      = Some (fst (send_spec confirm_pb can_demo_api 65 demo_confirms), demo_blocks, s') \<and>
    s_out (fb_transport s') = s_out (fb_transport demo_send) @ snd (send_spec confirm_pb can_demo_api 65 demo_confirms) \<and>
    client_idle s' \<and> fb_loose s' = fb_loose demo_send) \<and>
    can_send_session confirm_pb can_demo_api (read_thread 1 socket_methods confirm_pb 8)
      (demo_blocks\<lparr>b_fail := [True]\<rparr>) demo_send = None"
    by (rule can_send_refines_spec [where rest = "[]" and fails = "[]", OF _ _ demo_confirms_answer])
       (simp_all add: demo_send_def demo_fs_client_idle demo_wf demo_commands_short demo_confirms_def comp_def
         demo_blocks_def del: upt.simps upt_rec_numeral)
  then show ?thesis
    unfolding demo_confirms_spec by (auto simp: demo_send_def demo_fs_client_loose)
qed


end
