(* ===== verification/Logging.thy ===== *)
theory Logging
  imports Rendering
begin

text \<open>
  The logging of the library (\<open>logging.h\<close>, \<open>logging.c\<close>, \<open>unix/logging.c\<close>): the macros add a colour, the
  level's letter, a time stamp and the caller's tag to a message and print it unless its level is above
  the one compiled in. \<open>out\<close> is what has been printed; a message is the text that its format and arguments
  give. \<open>clock\<close> is the outcome of \<open>clock_gettime(CLOCK_MONOTONIC)\<close>, seconds and nanoseconds.
\<close>

section \<open>Levels\<close>

datatype io4e_log_level_t =
    IO4E_LOG_NONE | IO4E_LOG_ERROR | IO4E_LOG_WARN | IO4E_LOG_INFO | IO4E_LOG_DEBUG

fun level_value :: "io4e_log_level_t \<Rightarrow> nat" where
  "level_value IO4E_LOG_NONE = 0"
| "level_value IO4E_LOG_ERROR = 1"
| "level_value IO4E_LOG_WARN = 2"
| "level_value IO4E_LOG_INFO = 3"
| "level_value IO4E_LOG_DEBUG = 4"

definition LOG_LOCAL_LEVEL :: io4e_log_level_t where
  "LOG_LOCAL_LEVEL = IO4E_LOG_INFO"


section \<open>The time stamp\<close>

text \<open>
  The milliseconds are a sum in \<open>double\<close>, exact up to the fraction in the range of \<open>uint32_t\<close>; the conversion
  of a larger (or negative) value to \<open>uint32_t\<close> is undefined.
\<close>

definition io4e_log_timestamp :: "(int \<times> int) option \<Rightarrow> u32 option" where
  "io4e_log_timestamp clock =
     (case clock of
        None \<Rightarrow> Some 0
      | Some (tv_sec, tv_nsec) \<Rightarrow>
          let ms = tv_sec * 1000 + tv_nsec div 1000000
          in if 0 \<le> ms \<and> ms < 2 ^ 32 then Some (of_int ms) else None)"


section \<open>Printing\<close>

definition io4e_log_writev :: "io4e_log_level_t \<Rightarrow> bytes \<Rightarrow> bytes \<Rightarrow> bytes \<Rightarrow> bytes" where
  "io4e_log_writev level tag text out = out @ text"

definition io4e_log_write :: "io4e_log_level_t \<Rightarrow> bytes \<Rightarrow> bytes \<Rightarrow> bytes \<Rightarrow> bytes" where
  "io4e_log_write level tag text out = io4e_log_writev level tag text out"

definition LOG_COLOR :: "string \<Rightarrow> bytes" where
  "LOG_COLOR color = [27] @ ascii ''[0;'' @ ascii color @ ascii ''m''"

definition LOG_RESET_COLOR :: bytes where
  "LOG_RESET_COLOR = [27] @ ascii ''[0m''"

definition LOG_FORMAT :: "bytes \<Rightarrow> string \<Rightarrow> u32 \<Rightarrow> bytes \<Rightarrow> bytes \<Rightarrow> bytes" where
  "LOG_FORMAT color letter ts tag msg =
     color @ ascii letter @ ascii '' ('' @ fmt_number 10 False 32 0 (unat ts) @ ascii '') '' @ tag @ ascii '': ''
       @ msg @ LOG_RESET_COLOR @ [10]"

definition IO4E_LOG_LEVEL :: "io4e_log_level_t \<Rightarrow> bytes \<Rightarrow> bytes \<Rightarrow> (int \<times> int) option \<Rightarrow> bytes \<Rightarrow> bytes option" where
  "IO4E_LOG_LEVEL level tag msg clock out = do {
     ts \<leftarrow> io4e_log_timestamp clock;
     Some (if level = IO4E_LOG_ERROR then
             io4e_log_write IO4E_LOG_ERROR tag (LOG_FORMAT (LOG_COLOR ''31'') ''E'' ts tag msg) out
           else if level = IO4E_LOG_WARN then
             io4e_log_write IO4E_LOG_WARN tag (LOG_FORMAT (LOG_COLOR ''33'') ''W'' ts tag msg) out
           else if level = IO4E_LOG_DEBUG then
             io4e_log_write IO4E_LOG_DEBUG tag (LOG_FORMAT [] ''D'' ts tag msg) out
           else
             io4e_log_write IO4E_LOG_INFO tag (LOG_FORMAT (LOG_COLOR ''32'') ''I'' ts tag msg) out) }"

definition IO4E_LOG_LEVEL_LOCAL ::
  "io4e_log_level_t \<Rightarrow> bytes \<Rightarrow> bytes \<Rightarrow> (int \<times> int) option \<Rightarrow> bytes \<Rightarrow> bytes option" where
  "IO4E_LOG_LEVEL_LOCAL level tag msg clock out =
     (if level_value level \<le> level_value LOG_LOCAL_LEVEL then IO4E_LOG_LEVEL level tag msg clock out
      else Some out)"


section \<open>Reading a line back\<close>

text \<open>The number of milliseconds in the first parentheses of a line.\<close>

definition digit_value :: "byte \<Rightarrow> nat" where
  "digit_value b = unat b - 48"

definition number_value :: "bytes \<Rightarrow> nat" where
  "number_value ds = foldl (\<lambda>a b. 10 * a + digit_value b) 0 ds"

definition line_ms :: "bytes \<Rightarrow> nat" where
  "line_ms line = number_value (takeWhile (\<lambda>b. b \<noteq> 41) (tl (dropWhile (\<lambda>b. b \<noteq> 40) line)))"

lemma digits_less: "2 \<le> base \<Longrightarrow> d \<in> set (digits base n) \<Longrightarrow> d < base"
proof (induction base n rule: digits.induct)
  case (1 base n)
  show ?case
  proof (cases "n < base \<or> base < 2")
    case True
    with 1(2,3) show ?thesis by (simp add: digits.simps [of base n])
  next
    case False
    with 1(1,3) 1(2) show ?thesis by (auto simp: digits.simps [of base n])
  qed
qed

lemma digit_char_value:
  assumes "d < 10"
  shows "digit_value (digit_char up d) = d \<and> digit_char up d \<noteq> 41"
proof -
  have "d = 0 \<or> d = 1 \<or> d = 2 \<or> d = 3 \<or> d = 4 \<or> d = 5 \<or> d = 6 \<or> d = 7 \<or> d = 8 \<or> d = 9"
    using assms by arith
  then show ?thesis by (elim disjE) (simp_all add: digit_value_def digit_char_def)
qed

lemma number_value_digits: "number_value (map (digit_char up) (digits 10 n)) = n"
proof (induction n rule: less_induct)
  case (less n)
  show ?case
  proof (cases "n < 10")
    case True
    then show ?thesis by (simp add: digits.simps [of 10 n] number_value_def digit_char_value)
  next
    case False
    then have "n div 10 < n" by simp
    from less [OF this] False show ?thesis
      by (simp add: digits.simps [of 10 n] number_value_def digit_char_value)
  qed
qed

text \<open>Neither the colours nor the letters have a parenthesis.\<close>

lemma line_ms_format:
  assumes "40 \<notin> set color" "40 \<notin> set (ascii letter)"
  shows "line_ms (LOG_FORMAT color letter ts tag msg) = unat ts"
proof -
  let ?ds = "map (digit_char False) (digits 10 (unat ts))"
  have nums: "\<forall>b \<in> set ?ds. b \<noteq> 41"
    using digits_less [of 10] digit_char_value by fastforce
  have "dropWhile (\<lambda>b. b \<noteq> 40) (LOG_FORMAT color letter ts tag msg)
      = 40 # ?ds @ ascii '') '' @ tag @ ascii '': '' @ msg @ LOG_RESET_COLOR @ [10]"
  proof -
    have "dropWhile (\<lambda>b. b \<noteq> (40 :: byte)) (xs @ 40 # ys) = 40 # ys" if "40 \<notin> set xs" for xs ys
      using that by (induction xs) auto
    from this [of "color @ ascii letter @ [32]"] assms show ?thesis
      by (simp add: LOG_FORMAT_def fmt_number_def ascii_def)
  qed
  moreover have "takeWhile (\<lambda>b. b \<noteq> 41) (?ds @ 41 # rest) = ?ds" for rest
    using nums by (induction ?ds) (auto simp: takeWhile_append)
  ultimately show ?thesis by (simp add: line_ms_def number_value_digits ascii_def)
qed

lemma log_line:
  assumes "level \<noteq> IO4E_LOG_DEBUG"
  obtains color letter where "40 \<notin> set color" "40 \<notin> set (ascii letter)"
    "IO4E_LOG_LEVEL_LOCAL level tag msg clock out =
       map_option (\<lambda>ts. out @ LOG_FORMAT color letter ts tag msg) (io4e_log_timestamp clock)"
proof -
  define color :: bytes where "color = LOG_COLOR (if level = IO4E_LOG_ERROR then ''31'' else if level = IO4E_LOG_WARN then ''33'' else ''32'')"
  define letter where "letter = (if level = IO4E_LOG_ERROR then ''E'' else if level = IO4E_LOG_WARN then ''W'' else ''I'')"
  have "40 \<notin> set color" "40 \<notin> set (ascii letter)"
    by (simp_all add: color_def letter_def LOG_COLOR_def ascii_def)
  moreover have "IO4E_LOG_LEVEL_LOCAL level tag msg clock out =
       map_option (\<lambda>ts. out @ LOG_FORMAT color letter ts tag msg) (io4e_log_timestamp clock)"
    using assms by (cases level) (simp_all add: IO4E_LOG_LEVEL_LOCAL_def LOG_LOCAL_LEVEL_def IO4E_LOG_LEVEL_def
        io4e_log_write_def io4e_log_writev_def color_def letter_def map_conv_bind_option comp_def)
  ultimately show ?thesis by (rule that)
qed

lemma unat_of_int_u32: "0 \<le> x \<Longrightarrow> x < 2 ^ 32 \<Longrightarrow> int (unat (of_int x :: u32)) = x"
  by (simp add: unsigned_of_int take_bit_int_eq_self)

text \<open>C24 A log call prints nothing above the local level (\<open>IO4E_LOG_DEBUG\<close> here); otherwise it appends exactly one
  coloured line with the tag and the message, whose number in parentheses, read back, is the clock in
  milliseconds. But the conversion of the milliseconds to \<open>uint32_t\<close> is undefined from 2^32 on: a client that
  logs an error on a machine that has been up for 49.7 days has no defined behaviour any more. A clock that
  cannot be read counts as 0.\<close>

theorem log_call_lines:
  assumes "\<forall>sec nsec. clock = Some (sec, nsec) \<longrightarrow> 0 \<le> sec \<and> 0 \<le> nsec \<and> nsec < 1000000000"
  shows "(level = IO4E_LOG_DEBUG \<longrightarrow> IO4E_LOG_LEVEL_LOCAL level tag msg clock out = Some out) \<and>
    (level \<noteq> IO4E_LOG_DEBUG \<longrightarrow>
      (IO4E_LOG_LEVEL_LOCAL level tag msg clock out = None \<longleftrightarrow>
         (\<exists>sec nsec. clock = Some (sec, nsec) \<and> 4294967296 \<le> sec * 1000 + nsec div 1000000)) \<and>
      (\<forall>out'. IO4E_LOG_LEVEL_LOCAL level tag msg clock out = Some out' \<longrightarrow>
         (\<exists>line pre. out' = out @ line \<and> line = pre @ tag @ ascii '': '' @ msg @ LOG_RESET_COLOR @ [10] \<and>
            int (line_ms line) = (case clock of None \<Rightarrow> 0 | Some (sec, nsec) \<Rightarrow> sec * 1000 + nsec div 1000000))))"
proof (cases "level = IO4E_LOG_DEBUG")
  case True
  then show ?thesis by (simp add: IO4E_LOG_LEVEL_LOCAL_def LOG_LOCAL_LEVEL_def)
next
  case False
  then obtain color letter where line: "40 \<notin> set color" "40 \<notin> set (ascii letter)"
    "IO4E_LOG_LEVEL_LOCAL level tag msg clock out =
       map_option (\<lambda>ts. out @ LOG_FORMAT color letter ts tag msg) (io4e_log_timestamp clock)"
    by (rule log_line)
  have parts: "\<exists>pre. LOG_FORMAT color letter ts tag msg = pre @ tag @ ascii '': '' @ msg @ LOG_RESET_COLOR @ [10]" for ts
    by (rule exI [of _ "color @ ascii letter @ ascii '' ('' @ fmt_number 10 False 32 0 (unat ts) @ ascii '') ''"])
       (simp add: LOG_FORMAT_def)
  show ?thesis
  proof (cases clock)
    case None
    with False line parts [of 0] show ?thesis by (simp add: io4e_log_timestamp_def line_ms_format)
  next
    case (Some c)
    obtain sec nsec where c: "c = (sec, nsec)" by (cases c)
    let ?ms = "sec * 1000 + nsec div 1000000"
    have ms: "0 \<le> ?ms" using assms Some c by (simp add: pos_imp_zdiv_nonneg_iff)
    show ?thesis
    proof (cases "?ms < 2 ^ 32")
      case True
      with ms have "int (unat (of_int ?ms :: u32)) = ?ms" by (rule unat_of_int_u32)
      with False line parts [of "of_int ?ms"] Some c ms True show ?thesis
        by (simp add: io4e_log_timestamp_def line_ms_format [OF line(1,2)] Let_def)
    next
      case False
      with \<open>level \<noteq> IO4E_LOG_DEBUG\<close> line Some c ms show ?thesis by (simp add: io4e_log_timestamp_def Let_def)
    qed
  qed
qed

theorem log_call_lines_witness:
  "IO4E_LOG_LEVEL_LOCAL IO4E_LOG_ERROR (ascii ''io4edge'') (ascii ''x'') (Some (4294968, 0)) [] = None \<and>
   IO4E_LOG_LEVEL_LOCAL IO4E_LOG_DEBUG (ascii ''io4edge'') (ascii ''x'') (Some (4294968, 0)) [] = Some []"
  using log_call_lines [of "Some (4294968, 0)" IO4E_LOG_ERROR "ascii ''io4edge''" "ascii ''x''" "[]"]
    log_call_lines [of "Some (4294968, 0)" IO4E_LOG_DEBUG "ascii ''io4edge''" "ascii ''x''" "[]"] by simp

end
